(* ===== verification/Boid_Prelude.thy ===== *)
theory Boid_Prelude
  imports Main "HOL-Library.Char_ord" "HOL-Library.List_Lexorder"
begin

text \<open>
  Shared vocabulary of the development: the names the model gives to Go's basic types, the
  collections of simplification rules the component theories feed, and the generic facts on
  lists, strings and results that more than one component uses.

  \<^item> A Go \<open>string\<close> is a \<open>char list\<close>, one \<open>char\<close> per byte; ordering is bytewise, as
    Go's \<open>sort.Strings\<close> and SQLite's BINARY collation compare.
  \<^item> A \<open>time.Time\<close> is an \<open>int\<close> (nanoseconds since the epoch, the zone already normalised away
    by \<open>UTC()\<close>), a \<open>time.Duration\<close> an \<open>int\<close> of nanoseconds. The clock is read by passing
    \<open>now\<close> to the operation that calls \<open>time.Now()\<close>.
  \<^item> A fallible operation returns a value of the sum type \<open>'e + 'a\<close>, \<open>Inl\<close> the error.
\<close>

named_theorems boid_simps "unfolding rules shared by the component proofs"
named_theorems inv_intros "preservation facts of the component invariants"

type_synonym gostring = string
type_synonym time = int
type_synonym duration = int

section \<open>Results\<close>

definition is_ok :: "'e + 'a \<Rightarrow> bool" where
  "is_ok r = (case r of Inl _ \<Rightarrow> False | Inr _ \<Rightarrow> True)"

lemma is_ok_simps [simp]: "\<not> is_ok (Inl e)" "is_ok (Inr a)"
  by (simp_all add: is_ok_def)

lemma is_ok_iff: "is_ok r \<longleftrightarrow> (\<exists>a. r = Inr a)"
  by (cases r) auto

section \<open>Strings\<close>

text \<open>\<open>strings.HasPrefix\<close>, \<open>strings.Contains\<close> and \<open>strings.Split\<close> on a one-byte separator.\<close>

fun has_prefix :: "string \<Rightarrow> string \<Rightarrow> bool" where
  "has_prefix xs [] = True"
| "has_prefix [] (p # ps) = False"
| "has_prefix (x # xs) (p # ps) = (x = p \<and> has_prefix xs ps)"

fun contains :: "string \<Rightarrow> string \<Rightarrow> bool" where
  "contains [] sub = (sub = [])"
| "contains (x # xs) sub = (has_prefix (x # xs) sub \<or> contains xs sub)"

fun split_on :: "char \<Rightarrow> string \<Rightarrow> string list" where
  "split_on c [] = [[]]"
| "split_on c (x # xs) =
     (if x = c then [] # split_on c xs
      else case split_on c xs of [] \<Rightarrow> [[x]] | p # ps \<Rightarrow> (x # p) # ps)"

lemma has_prefix_append [simp]: "has_prefix (p @ xs) p"
  by (induction p) auto

lemma has_prefix_iff: "has_prefix xs p \<longleftrightarrow> (\<exists>ys. xs = p @ ys)"
  by (induction xs p rule: has_prefix.induct) auto

lemma contains_iff: "contains xs sub \<longleftrightarrow> (\<exists>us vs. xs = us @ sub @ vs)"
proof (induction xs)
  case Nil
  show ?case by auto
next
  case (Cons x xs)
  show ?case
  proof
    assume "contains (x # xs) sub"
    then consider "has_prefix (x # xs) sub" | "contains xs sub" by auto
    then show "\<exists>us vs. x # xs = us @ sub @ vs"
    proof cases
      case 1
      then obtain vs where "x # xs = [] @ sub @ vs" by (auto simp: has_prefix_iff)
      then show ?thesis by blast
    next
      case 2
      with Cons.IH obtain us vs where "xs = us @ sub @ vs" by blast
      then have "x # xs = (x # us) @ sub @ vs" by simp
      then show ?thesis by blast
    qed
  next
    assume "\<exists>us vs. x # xs = us @ sub @ vs"
    then obtain us vs where eq: "x # xs = us @ sub @ vs" by blast
    show "contains (x # xs) sub"
    proof (cases us)
      case Nil
      with eq have "has_prefix (x # xs) sub" by (simp add: has_prefix_iff)
      then show ?thesis by simp
    next
      case (Cons u us')
      with eq have "xs = us' @ sub @ vs" by simp
      with Cons.IH show ?thesis by auto
    qed
  qed
qed

lemma split_on_nonempty [simp]: "split_on c xs \<noteq> []"
  by (induction xs) (auto split: list.splits)

lemma split_on_no_sep: "p \<in> set (split_on c xs) \<Longrightarrow> c \<notin> set p"
  by (induction xs arbitrary: p) (auto split: list.splits if_splits)

section \<open>Lists\<close>

text \<open>First-seen deduplication, as the Go helpers written with a \<open>seen\<close> map do it.\<close>

fun dedup_seen :: "'a list \<Rightarrow> 'a list \<Rightarrow> 'a list" where
  "dedup_seen seen [] = []"
| "dedup_seen seen (x # xs) =
     (if x \<in> set seen then dedup_seen seen xs else x # dedup_seen (x # seen) xs)"

lemma set_dedup_seen: "set (dedup_seen seen xs) = set xs - set seen"
  by (induction seen xs rule: dedup_seen.induct) auto

lemma distinct_dedup_seen: "distinct (dedup_seen seen xs)"
  by (induction seen xs rule: dedup_seen.induct) (auto simp: set_dedup_seen)

lemma set_dedup [simp]: "set (dedup_seen [] xs) = set xs"
  by (simp add: set_dedup_seen)

lemma find_None_iff_filter: "find P xs = None \<longleftrightarrow> filter P xs = []"
  by (induction xs) auto

lemma find_SomeD: "find P xs = Some x \<Longrightarrow> x \<in> set xs \<and> P x"
  by (auto simp: find_Some_iff in_set_conv_nth)

lemma find_distinct_key:
  assumes "distinct (map f xs)" "x \<in> set xs"
  shows "find (\<lambda>y. f y = f x) xs = Some x"
  using assms by (induction xs) (auto simp: image_iff)

lemma find_is_Some: "x \<in> set xs \<Longrightarrow> P x \<Longrightarrow> \<exists>y. find P xs = Some y"
  by (induction xs) auto

lemma find_map_cong:
  "(\<And>x. x \<in> set xs \<Longrightarrow> P (f x) = P x) \<Longrightarrow> find P (map f xs) = map_option f (find P xs)"
  by (induction xs) auto

lemma disjoint_insert_subset: "u \<notin> A \<Longrightarrow> B' \<subseteq> insert u B \<Longrightarrow> A \<inter> B = {} \<Longrightarrow> A \<inter> B' = {}"
  by blast

lemma length_le_one:
  assumes "distinct xs" and "\<And>a b. a \<in> set xs \<Longrightarrow> b \<in> set xs \<Longrightarrow> a = b"
  shows "length xs \<le> 1"
proof (rule ccontr)
  assume "\<not> length xs \<le> 1"
  then obtain x y zs where xs: "xs = x # y # zs" by (cases xs; cases "tl xs") auto
  then have "x = y" using assms(2) [of x y] by simp
  with assms(1) xs show False by simp
qed

end
