(* ===== verification/Sql_Table.thy ===== *)
theory Sql_Table
  imports Boid_Prelude "HOL-Library.Product_Lexorder"
begin

text \<open>
  SQLite tables as the stores of \<open>internal/orchestrator\<close> use them. A table is the list of its rows
  in rowid order, a statement is a list operation, and a (partial) UNIQUE index is a predicate on
  the table that every write re-establishes or is refused.

  A store operation is the body of a transaction: it returns the error or the result with the new
  tables. \<open>InTxDB\<close> rolls back on an error, so the caller keeps the tables it had. The pool holds
  a single connection (\<open>SetMaxOpenConns(1)\<close>), so transactions never interleave.
\<close>

section \<open>Sequencing of fallible steps\<close>

definition and_then :: "'e + 'a \<Rightarrow> ('a \<Rightarrow> 'e + 'b) \<Rightarrow> 'e + 'b" where
  "and_then m f = (case m of Inl e \<Rightarrow> Inl e | Inr a \<Rightarrow> f a)"

definition map_err :: "('e \<Rightarrow> 'f) \<Rightarrow> 'e + 'a \<Rightarrow> 'f + 'a" where
  "map_err g m = (case m of Inl e \<Rightarrow> Inl (g e) | Inr a \<Rightarrow> Inr a)"

definition guard :: "bool \<Rightarrow> 'e \<Rightarrow> 'e + unit" where
  "guard b e = (if b then Inr () else Inl e)"

definition in_tx :: "'s \<Rightarrow> 'e + ('a \<times> 's) \<Rightarrow> ('e + 'a) \<times> 's" where
  "in_tx s m = (case m of Inl e \<Rightarrow> (Inl e, s) | Inr (a, s') \<Rightarrow> (Inr a, s'))"

lemma and_then_simps [simp]:
  "and_then (Inl e) f = Inl e" "and_then (Inr a) f = f a"
  by (simp_all add: and_then_def)

lemma and_then_Inr [simp]: "and_then m f = Inr b \<longleftrightarrow> (\<exists>a. m = Inr a \<and> f a = Inr b)"
  by (cases m) simp_all

lemma and_then_Inl: "and_then m f = Inl e \<longleftrightarrow> m = Inl e \<or> (\<exists>a. m = Inr a \<and> f a = Inl e)"
  by (cases m) simp_all

lemma map_err_simps [simp]:
  "map_err g (Inl e) = Inl (g e)" "map_err g (Inr a) = Inr a"
  by (simp_all add: map_err_def)

lemma map_err_Inr [simp]: "map_err g m = Inr a \<longleftrightarrow> m = Inr a"
  by (cases m) simp_all

lemma guard_simps [simp]:
  "guard True e = Inr ()" "guard False e = Inl e" "guard b e = Inr u \<longleftrightarrow> b"
  by (simp_all add: guard_def)

lemma guard_Inl [simp]: "guard b e = Inl e' \<longleftrightarrow> \<not> b \<and> e' = e"
  by (auto simp: guard_def)

section \<open>Statements\<close>

definition update_where :: "('r \<Rightarrow> bool) \<Rightarrow> ('r \<Rightarrow> 'r) \<Rightarrow> 'r list \<Rightarrow> 'r list" where
  "update_where P f rows = map (\<lambda>r. if P r then f r else r) rows"

definition rows_affected :: "('r \<Rightarrow> bool) \<Rightarrow> 'r list \<Rightarrow> nat" where
  "rows_affected P rows = length (filter P rows)"

definition delete_where :: "('r \<Rightarrow> bool) \<Rightarrow> 'r list \<Rightarrow> 'r list" where
  "delete_where P rows = filter (\<lambda>r. \<not> P r) rows"

definition select_order :: "('r \<Rightarrow> 'k :: linorder) \<Rightarrow> ('r \<Rightarrow> bool) \<Rightarrow> 'r list \<Rightarrow> 'r list" where
  "select_order k P rows = sort_key k (filter P rows)"

text \<open>A (partial) UNIQUE index on \<open>key\<close> over the rows that satisfy \<open>P\<close>.\<close>

definition uniq_on :: "('r \<Rightarrow> 'k) \<Rightarrow> ('r \<Rightarrow> bool) \<Rightarrow> 'r list \<Rightarrow> bool" where
  "uniq_on key P rows \<longleftrightarrow> distinct (map key (filter P rows))"

section \<open>Facts about statements\<close>

lemma set_update_where:
  "set (update_where P f rows) = (\<lambda>r. if P r then f r else r) ` set rows"
  by (simp add: update_where_def)

lemma in_update_whereE:
  assumes "r \<in> set (update_where P f rows)"
  obtains (upd) r0 where "r0 \<in> set rows" "P r0" "r = f r0"
    | (same) "r \<in> set rows" "\<not> P r"
  using assms by (auto simp: set_update_where split: if_splits)

lemma update_where_in:
  "r \<in> set rows \<Longrightarrow> P r \<Longrightarrow> f r \<in> set (update_where P f rows)"
  "r \<in> set rows \<Longrightarrow> \<not> P r \<Longrightarrow> r \<in> set (update_where P f rows)"
  by (force simp: set_update_where)+

lemma map_update_where:
  assumes "\<And>r. r \<in> set rows \<Longrightarrow> P r \<Longrightarrow> g (f r) = g r"
  shows "map g (update_where P f rows) = map g rows"
  using assms by (auto simp: update_where_def)

lemma update_where_id: "(\<And>r. r \<in> set rows \<Longrightarrow> \<not> P r) \<Longrightarrow> update_where P f rows = rows"
  by (auto simp: update_where_def intro: map_idI)

lemma update_where_cong:
  "(\<And>r. r \<in> set rows \<Longrightarrow> P r = Q r) \<Longrightarrow> (\<And>r. r \<in> set rows \<Longrightarrow> Q r \<Longrightarrow> f r = g r) \<Longrightarrow>
   update_where P f rows = update_where Q g rows"
  by (auto simp: update_where_def)

lemma rows_affected_pos: "0 < rows_affected P rows \<longleftrightarrow> (\<exists>r \<in> set rows. P r)"
  by (auto simp: rows_affected_def filter_empty_conv)

lemma rows_affected_zero: "rows_affected P rows = 0 \<longleftrightarrow> (\<forall>r \<in> set rows. \<not> P r)"
  by (auto simp: rows_affected_def filter_empty_conv)

lemma set_delete_where [simp]: "set (delete_where P rows) = {r \<in> set rows. \<not> P r}"
  by (auto simp: delete_where_def)

lemma set_select_order [simp]: "set (select_order k P rows) = {r \<in> set rows. P r}"
  by (auto simp: select_order_def)

lemma sorted_select_order: "sorted (map k (select_order k P rows))"
  by (simp add: select_order_def)

lemma distinct_map_select_order:
  "distinct (map g rows) \<Longrightarrow> distinct (map g (select_order k P rows))"
  by (simp add: select_order_def distinct_map inj_on_def)

section \<open>Facts about indexes\<close>

lemma uniq_onD:
  assumes "uniq_on key P rows" "distinct rows" "r \<in> set rows" "r' \<in> set rows" "P r" "P r'"
    "key r = key r'"
  shows "r = r'"
  using assms by (auto simp: uniq_on_def distinct_map inj_on_def)

lemma uniq_on_iff:
  assumes "distinct rows"
  shows "uniq_on key P rows \<longleftrightarrow>
     (\<forall>r \<in> set rows. \<forall>r' \<in> set rows. P r \<longrightarrow> P r' \<longrightarrow> key r = key r' \<longrightarrow> r = r')"
  using assms by (auto simp: uniq_on_def distinct_map inj_on_def)

lemma uniq_on_Nil [simp]: "uniq_on key P []"
  by (simp add: uniq_on_def)

lemma uniq_on_snoc:
  "uniq_on key P (rows @ [r]) \<longleftrightarrow>
     uniq_on key P rows \<and> (P r \<longrightarrow> (\<forall>r' \<in> set rows. P r' \<longrightarrow> key r \<noteq> key r'))"
  by (auto simp: uniq_on_def image_iff)

lemma uniq_on_delete: "uniq_on key P rows \<Longrightarrow> uniq_on key P (delete_where Q rows)"
  by (induction rows) (auto simp: uniq_on_def delete_where_def)

text \<open>A write that adds no row to the index and keeps the keys of those in it cannot violate it.\<close>

lemma uniq_on_update_shrink:
  assumes "uniq_on key P rows"
    and "\<And>r. r \<in> set rows \<Longrightarrow> Q r \<Longrightarrow> P (f r) \<Longrightarrow> P r \<and> key (f r) = key r"
  shows "uniq_on key P (update_where Q f rows)"
  using assms
proof (induction rows)
  case Nil
  then show ?case by (simp add: update_where_def)
next
  case (Cons x xs)
  let ?g = "\<lambda>r. if Q r then f r else r"
  have IH: "uniq_on key P (update_where Q f xs)"
    using Cons by (auto simp: uniq_on_def split: if_splits)
  have sub: "key ` set (filter P (update_where Q f xs)) \<subseteq> key ` set (filter P xs)"
  proof
    fix k assume "k \<in> key ` set (filter P (update_where Q f xs))"
    then obtain r where "r \<in> set xs" "P (?g r)" "k = key (?g r)" by (auto simp: set_update_where)
    with Cons.prems(2) [of r] have "P r" "k = key r" by (auto split: if_splits)
    with \<open>r \<in> set xs\<close> show "k \<in> key ` set (filter P xs)" by auto
  qed
  show ?case
  proof (cases "P (?g x)")
    case True
    with Cons.prems(2) [of x] have x: "P x" "key (?g x) = key x" by (auto split: if_splits)
    with Cons.prems(1) have "key x \<notin> key ` set (filter P xs)" by (auto simp: uniq_on_def)
    with sub have "key (?g x) \<notin> key ` set (filter P (update_where Q f xs))" using x by auto
    with IH True show ?thesis by (auto simp: uniq_on_def update_where_def)
  next
    case False
    with IH show ?thesis by (auto simp: uniq_on_def update_where_def)
  qed
qed

text \<open>A write to a single row.\<close>

lemma split_one:
  assumes "distinct rows" "h \<in> set rows" "\<And>r. r \<in> set rows \<Longrightarrow> Q r \<longleftrightarrow> r = h"
  obtains us vs where "rows = us @ h # vs" "\<And>f. update_where Q f rows = us @ f h # vs"
    "rows_affected Q rows = 1"
proof -
  obtain us vs where rows: "rows = us @ h # vs" using assms(2) by (auto simp: in_set_conv_decomp)
  with assms(1,3) have "\<And>r. r \<in> set us \<union> set vs \<Longrightarrow> \<not> Q r" "Q h" by auto
  then have "update_where Q f rows = us @ f h # vs" "rows_affected Q rows = 1" for f
    by (auto simp: rows update_where_def rows_affected_def intro!: map_idI)
  with rows that show ?thesis by blast
qed

lemma uniq_on_update_one:
  assumes "distinct rows" "h \<in> set rows" "\<And>r. r \<in> set rows \<Longrightarrow> Q r \<longleftrightarrow> r = h"
    and "uniq_on key P rows" "\<not> P h" "P (f h)"
  shows "uniq_on key P (update_where Q f rows) \<longleftrightarrow> \<not> (\<exists>r \<in> set rows. P r \<and> key r = key (f h))"
proof -
  obtain us vs where rows: "rows = us @ h # vs" "update_where Q f rows = us @ f h # vs"
    using split_one [OF assms(1-3)] by metis
  show ?thesis
    using assms(4-6) unfolding rows(2) unfolding rows(1)
    by (auto simp: uniq_on_def image_iff)
qed

end
