(* ===== verification/Go_Json.thy ===== *)
theory Go_Json
  imports Boid_Prelude "HOL-Library.AList"
begin

text \<open>
  The part of Go's \<open>encoding/json\<close> the daemon uses, at the level of JSON values.

  A \<open>json.RawMessage\<close> is a \<open>raw_message\<close>: the empty byte slice, a text that is not JSON, or one
  JSON value. The sources compare raw texts only with \<open>null\<close>, \<open>true\<close>, \<open>{}\<close> and \<open>[]\<close>; every
  one of these texts is the only compact spelling of its value, so the comparison is equality of
  values. A number keeps its literal text.

  Decoding into a \<open>map[string]json.RawMessage\<close> keeps the last of several members with the same
  key. Decoding into a struct visits the members in order; a member selects the field whose name it
  spells exactly, else the field it spells up to Unicode case folding (\<open>foldName\<close>), and a value
  of the wrong type makes the whole call fail. The case mappings are written out for the ASCII
  letters and for the only other runes whose mapping is an ASCII letter.
\<close>

datatype json =
    JNull
  | JBool bool
  | JNum string
  | JStr string
  | JArr "json list"
  | JObj "(string \<times> json) list"

datatype raw_message = RawEmpty | RawBad | Raw json

section \<open>Case mappings\<close>

definition upper_byte :: "char \<Rightarrow> char" where
  "upper_byte c = (let n = of_char c :: nat in if 97 \<le> n \<and> n \<le> 122 then char_of (n - 32) else c)"

definition lower_byte :: "char \<Rightarrow> char" where
  "lower_byte c = (let n = of_char c :: nat in if 65 \<le> n \<and> n \<le> 90 then char_of (n + 32) else c)"

text \<open>\<open>foldName\<close>: U+017F folds to \<open>S\<close> and U+212A to \<open>K\<close>.\<close>

fun fold_name :: "string \<Rightarrow> string" where
  "fold_name [] = []"
| "fold_name (c # d # e # cs) =
     (if c = CHR 0xC5 \<and> d = CHR 0xBF then CHR ''S'' # fold_name (e # cs)
      else if c = CHR 0xE2 \<and> d = CHR 0x84 \<and> e = CHR 0xAA then CHR ''K'' # fold_name cs
      else upper_byte c # fold_name (d # e # cs))"
| "fold_name (c # cs) =
     (if c = CHR 0xC5 \<and> cs = [CHR 0xBF] then [CHR ''S''] else upper_byte c # fold_name cs)"

text \<open>\<open>strings.ToUpper\<close>: U+0131 maps to \<open>I\<close> and U+017F to \<open>S\<close>.\<close>

fun to_upper :: "string \<Rightarrow> string" where
  "to_upper [] = []"
| "to_upper [c] = [upper_byte c]"
| "to_upper (c # d # cs) =
     (if c = CHR 0xC4 \<and> d = CHR 0xB1 then CHR ''I'' # to_upper cs
      else if c = CHR 0xC5 \<and> d = CHR 0xBF then CHR ''S'' # to_upper cs
      else upper_byte c # to_upper (d # cs))"

text \<open>\<open>strings.ToLower\<close>: U+0130 maps to \<open>i\<close> and U+212A to \<open>k\<close>.\<close>

fun to_lower :: "string \<Rightarrow> string" where
  "to_lower [] = []"
| "to_lower (c # d # e # cs) =
     (if c = CHR 0xC4 \<and> d = CHR 0xB0 then CHR ''i'' # to_lower (e # cs)
      else if c = CHR 0xE2 \<and> d = CHR 0x84 \<and> e = CHR 0xAA then CHR ''k'' # to_lower cs
      else lower_byte c # to_lower (d # e # cs))"
| "to_lower (c # cs) =
     (if c = CHR 0xC4 \<and> cs = [CHR 0xB0] then [CHR ''i''] else lower_byte c # to_lower cs)"

section \<open>Objects as Go maps\<close>

text \<open>
  A decoded \<open>map[string]json.RawMessage\<close> is an association list with distinct keys.
  \<open>json.Marshal\<close> of such a map writes the members in ascending key order.
\<close>

type_synonym gomap = "(string \<times> json) list"

definition go_map :: "(string \<times> json) list \<Rightarrow> gomap" where
  "go_map ms = AList.clearjunk (rev ms)"

definition unmarshal_map :: "raw_message \<Rightarrow> gomap option" where
  "unmarshal_map r =
     (case r of Raw (JObj ms) \<Rightarrow> Some (go_map ms) | Raw JNull \<Rightarrow> Some [] | _ \<Rightarrow> None)"

text \<open>The callers that also test the decoded map for \<open>nil\<close> accept objects only.\<close>

definition unmarshal_object :: "json \<Rightarrow> gomap option" where
  "unmarshal_object v = (case v of JObj ms \<Rightarrow> Some (go_map ms) | _ \<Rightarrow> None)"

definition marshal_map :: "gomap \<Rightarrow> json" where
  "marshal_map m = JObj (sort_key fst m)"

text \<open>\<open>maps.Copy(dst, src)\<close>.\<close>

definition maps_copy :: "gomap \<Rightarrow> gomap \<Rightarrow> gomap" where
  "maps_copy dst src = foldr (\<lambda>(k, v) m. AList.update k v m) src dst"

lemma map_of_go_map [simp]: "map_of (go_map ms) = map_of (rev ms)"
  by (simp add: go_map_def map_of_clearjunk)

lemma distinct_go_map: "distinct (map fst (go_map ms))"
  by (simp add: go_map_def)

lemma map_of_sort_key:
  assumes "distinct (map fst m)"
  shows "map_of (sort_key fst m) = map_of m"
proof (rule map_of_eqI)
  show "set (map fst (sort_key fst m)) = set (map fst m)" by simp
next
  have d: "distinct (map fst (sort_key fst m))"
    using assms by (simp add: distinct_map)
  show "\<forall>x\<in>set (map fst (sort_key fst m)). map_of (sort_key fst m) x = map_of m x"
  proof
    fix x assume "x \<in> set (map fst (sort_key fst m))"
    then obtain v where v: "(x, v) \<in> set m" by auto
    then have "map_of m x = Some v" using assms by simp
    moreover have "map_of (sort_key fst m) x = Some v" using d v by simp
    ultimately show "map_of (sort_key fst m) x = map_of m x" by simp
  qed
qed

lemma map_of_rev_distinct:
  assumes "distinct (map fst m)"
  shows "map_of (rev m) = map_of m"
proof (rule map_of_eqI)
  show "set (map fst (rev m)) = set (map fst m)" by simp
next
  have d: "distinct (map fst (rev m))" using assms by (metis distinct_rev rev_map)
  show "\<forall>x\<in>set (map fst (rev m)). map_of (rev m) x = map_of m x"
  proof
    fix x assume "x \<in> set (map fst (rev m))"
    then obtain v where v: "(x, v) \<in> set m" by auto
    with assms d show "map_of (rev m) x = map_of m x" by simp
  qed
qed

lemma map_of_rev_sort_key:
  assumes "distinct (map fst m)"
  shows "map_of (rev (sort_key fst m)) = map_of m"
proof -
  have "distinct (map fst (sort_key fst m))"
    using assms by (simp add: distinct_map)
  then show ?thesis using assms by (simp add: map_of_rev_distinct map_of_sort_key)
qed

text \<open>Marshalling a map and decoding it again gives the same bindings.\<close>

lemma unmarshal_marshal_map:
  assumes "distinct (map fst m)"
  obtains m' where "unmarshal_map (Raw (marshal_map m)) = Some m'" and "map_of m' = map_of m"
    and "distinct (map fst m')"
  using that [of "go_map (sort_key fst m)"] assms
  by (simp add: unmarshal_map_def marshal_map_def map_of_rev_sort_key distinct_go_map)

lemma map_of_maps_copy: "map_of (maps_copy dst src) = map_of dst ++ map_of src"
proof (induction src)
  case Nil
  then show ?case by (simp add: maps_copy_def)
next
  case (Cons kv src)
  then show ?case
    by (cases kv) (auto simp: maps_copy_def update_conv' map_add_def)
qed

lemma distinct_maps_copy: "distinct (map fst dst) \<Longrightarrow> distinct (map fst (maps_copy dst src))"
  by (induction src) (auto simp: maps_copy_def distinct_update)

section \<open>Decoding into a struct\<close>

type_synonym 'r field_dec = "json \<Rightarrow> 'r \<Rightarrow> 'r option"

definition find_field :: "(string \<times> 'r field_dec) list \<Rightarrow> string \<Rightarrow> 'r field_dec option" where
  "find_field fs k =
     (case map_of fs k of
        Some d \<Rightarrow> Some d
      | None \<Rightarrow> map_option snd (find (\<lambda>f. fold_name (fst f) = fold_name k) fs))"

fun decode_members ::
  "(string \<times> 'r field_dec) list \<Rightarrow> (string \<times> json) list \<Rightarrow> 'r \<Rightarrow> 'r option" where
  "decode_members fs [] r = Some r"
| "decode_members fs ((k, v) # ms) r =
     (case find_field fs k of
        None \<Rightarrow> decode_members fs ms r
      | Some d \<Rightarrow> (case d v r of None \<Rightarrow> None | Some r' \<Rightarrow> decode_members fs ms r'))"

definition decode_struct :: "(string \<times> 'r field_dec) list \<Rightarrow> 'r field_dec" where
  "decode_struct fs v r =
     (case v of JObj ms \<Rightarrow> decode_members fs ms r | JNull \<Rightarrow> Some r | _ \<Rightarrow> None)"

definition unmarshal_struct :: "(string \<times> 'r field_dec) list \<Rightarrow> raw_message \<Rightarrow> 'r \<Rightarrow> 'r option" where
  "unmarshal_struct fs raw r = (case raw of Raw v \<Rightarrow> decode_struct fs v r | _ \<Rightarrow> None)"

text \<open>Field decoders for the Go types the structs use; \<open>null\<close> leaves a scalar unchanged.\<close>

definition dec_string :: "(string \<Rightarrow> 'r \<Rightarrow> 'r) \<Rightarrow> 'r field_dec" where
  "dec_string upd v r = (case v of JStr s \<Rightarrow> Some (upd s r) | JNull \<Rightarrow> Some r | _ \<Rightarrow> None)"

definition dec_bool :: "(bool \<Rightarrow> 'r \<Rightarrow> 'r) \<Rightarrow> 'r field_dec" where
  "dec_bool upd v r = (case v of JBool b \<Rightarrow> Some (upd b r) | JNull \<Rightarrow> Some r | _ \<Rightarrow> None)"

text \<open>A slice field: \<open>null\<close> gives nil, an array decodes each element from the zero value.\<close>

definition dec_slice :: "'x \<Rightarrow> 'x field_dec \<Rightarrow> ('x list \<Rightarrow> 'r \<Rightarrow> 'r) \<Rightarrow> 'r field_dec" where
  "dec_slice zero d upd v r =
     (case v of
        JNull \<Rightarrow> Some (upd [] r)
      | JArr vs \<Rightarrow> map_option (\<lambda>xs. upd xs r) (those (map (\<lambda>x. d x zero) vs))
      | _ \<Rightarrow> None)"

text \<open>\<open>json.Unmarshal\<close> into a \<open>string\<close> variable that starts as the empty string.\<close>

definition unmarshal_string :: "json \<Rightarrow> string option" where
  "unmarshal_string v = (case v of JStr s \<Rightarrow> Some s | JNull \<Rightarrow> Some [] | _ \<Rightarrow> None)"

section \<open>Texts the sources treat as empty\<close>

definition blank_raw :: "raw_message \<Rightarrow> bool" where
  "blank_raw r \<longleftrightarrow> r = RawEmpty \<or> r = Raw (JObj []) \<or> r = Raw JNull"

lemma blank_raw_simps [simp]:
  "blank_raw RawEmpty" "\<not> blank_raw RawBad" "blank_raw (Raw (JObj []))" "blank_raw (Raw JNull)"
  by (simp_all add: blank_raw_def)

section \<open>Reading one member\<close>

definition payload_at :: "raw_message \<Rightarrow> string \<Rightarrow> json option" where
  "payload_at r k = (case unmarshal_map r of None \<Rightarrow> None | Some m \<Rightarrow> map_of m k)"

lemma unmarshal_map_distinct: "unmarshal_map r = Some m \<Longrightarrow> distinct (map fst m)"
  by (auto simp: unmarshal_map_def distinct_go_map split: raw_message.splits json.splits)

lemma unmarshal_object_distinct: "unmarshal_object v = Some m \<Longrightarrow> distinct (map fst m)"
  by (auto simp: unmarshal_object_def distinct_go_map split: json.splits)

lemma payload_at_marshal [simp]: "distinct (map fst m) \<Longrightarrow> payload_at (Raw (marshal_map m)) k = map_of m k"
  by (simp add: payload_at_def unmarshal_map_def marshal_map_def map_of_rev_sort_key)

lemma payload_at_blank [simp]: "blank_raw r \<Longrightarrow> payload_at r k = None"
  by (auto simp: payload_at_def blank_raw_def unmarshal_map_def go_map_def)

end
