(* ===== verification/Task_Model.thy ===== *)
theory Task_Model
  imports Go_Json
begin

text \<open>
  The data model of \<open>internal/orchestrator/model.go\<close>: the task statuses and types, the task as a
  tagged union of a card and an execution task, its action log entries, and the instruction history
  of \<open>spec_types.go\<close>.
\<close>

section \<open>Statuses and types\<close>

datatype task_status =
    Pending | Executing | Awaiting | Done | Aborted
  | Parked | Working | Dropped

definition status_string :: "task_status \<Rightarrow> string" where
  "status_string s =
     (case s of Pending \<Rightarrow> ''pending'' | Executing \<Rightarrow> ''executing'' | Awaiting \<Rightarrow> ''awaiting''
      | Done \<Rightarrow> ''done'' | Aborted \<Rightarrow> ''aborted'' | Parked \<Rightarrow> ''parked''
      | Working \<Rightarrow> ''working'' | Dropped \<Rightarrow> ''dropped'')"

definition KnownTaskStatuses :: "task_status list" where
  "KnownTaskStatuses = [Pending, Executing, Awaiting, Done, Aborted, Parked, Working, Dropped]"

definition ParseTaskStatus :: "string \<Rightarrow> task_status option" where
  "ParseTaskStatus s = find (\<lambda>known. status_string known = s) KnownTaskStatuses"

definition IsTerminalStatus :: "task_status \<Rightarrow> bool" where
  "IsTerminalStatus s =
     (case s of Done \<Rightarrow> True | Aborted \<Rightarrow> True | Dropped \<Rightarrow> True | _ \<Rightarrow> False)"

datatype task_type = TaskTypeCard | TaskTypeExecution | TaskTypeUnknown string

definition IsPreDispatchEditableStatus :: "task_type \<Rightarrow> task_status \<Rightarrow> bool" where
  "IsPreDispatchEditableStatus ty s =
     (case ty of TaskTypeCard \<Rightarrow> s = Parked | TaskTypeExecution \<Rightarrow> s = Pending
      | TaskTypeUnknown _ \<Rightarrow> False)"

section \<open>Tasks and actions\<close>

record instruction =
  in_agent :: string
  in_name :: string
  in_message :: string
  in_model :: string

type_synonym instructions = "instruction list"

record card_attrs =
  ca_task_id :: string
  ca_kind :: string
  ca_urgency :: string
  ca_wake_at :: "time option"
  ca_wake_task_id :: string
  ca_suggestion_verb :: string
  ca_detail :: raw_message

record exec_attrs =
  ex_behavior :: string
  ex_traits :: "string list"
  ex_readonly :: bool
  ex_branch_prefix :: string
  ex_base_branch :: string
  ex_payload :: raw_message
  ex_instructions :: instructions
  ex_auto_start :: bool

record task =
  t_id :: string
  t_type :: task_type
  t_project_id :: string
  t_workspace_id :: string
  t_remote_id :: string
  t_title :: string
  t_description :: string
  t_status :: task_status
  t_ref :: string
  t_parent_id :: string
  t_idempotency_key :: string
  t_created_at :: time
  t_updated_at :: time
  t_card :: "card_attrs option"
  t_exec :: "exec_attrs option"
  t_total_child_count :: nat
  t_done_child_count :: nat
  t_aborted_child_count :: nat
  t_open_child_count :: nat
  t_awaiting_child_count :: nat
  t_blocked :: bool

record action =
  ac_id :: string
  ac_task_id :: string
  ac_type :: string
  ac_payload :: raw_message
  ac_from_status :: "task_status option"
  ac_to_status :: "task_status option"
  ac_created_at :: time
  ac_actor :: string

text \<open>\<open>validateTaskTypeConsistency\<close>: the tag selects exactly one of the two attribute sets.\<close>

datatype type_error =
    CardNil | CardExecSet | ExecNil | ExecCardSet | UnknownTaskType string

definition validateTaskTypeConsistency :: "task \<Rightarrow> type_error + unit" where
  "validateTaskTypeConsistency t =
     (case t_type t of
        TaskTypeCard \<Rightarrow>
          if t_card t = None then Inl CardNil
          else if t_exec t \<noteq> None then Inl CardExecSet else Inr ()
      | TaskTypeExecution \<Rightarrow>
          if t_exec t = None then Inl ExecNil
          else if t_card t \<noteq> None then Inl ExecCardSet else Inr ()
      | TaskTypeUnknown s \<Rightarrow> Inl (UnknownTaskType s))"

text \<open>The statuses the \<open>CHECK\<close> constraints of the \<open>tasks\<close> table allow each type.\<close>

definition type_statuses :: "task_type \<Rightarrow> task_status set" where
  "type_statuses ty =
     (case ty of TaskTypeCard \<Rightarrow> {Parked, Working, Done, Dropped}
      | TaskTypeExecution \<Rightarrow> {Pending, Executing, Awaiting, Done, Aborted}
      | TaskTypeUnknown _ \<Rightarrow> {})"

definition task_wf :: "task \<Rightarrow> bool" where
  "task_wf t \<longleftrightarrow> is_ok (validateTaskTypeConsistency t) \<and> t_status t \<in> type_statuses (t_type t)"

section \<open>Facts\<close>

lemma KnownTaskStatuses_complete: "s \<in> set KnownTaskStatuses"
  by (cases s) (simp_all add: KnownTaskStatuses_def)

lemma status_string_inject: "status_string a = status_string b \<longleftrightarrow> a = b"
  by (cases a; cases b; simp add: status_string_def)

lemma ParseTaskStatus_string [simp]: "ParseTaskStatus (status_string s) = Some s"
  by (cases s; simp add: ParseTaskStatus_def KnownTaskStatuses_def status_string_def)

lemma ParseTaskStatus_SomeD: "ParseTaskStatus str = Some s \<Longrightarrow> status_string s = str"
  unfolding ParseTaskStatus_def by (drule find_SomeD) simp

lemma task_wf_cases:
  assumes "task_wf t"
  obtains (card) c where "t_type t = TaskTypeCard" "t_card t = Some c" "t_exec t = None"
      "t_status t \<in> {Parked, Working, Done, Dropped}"
    | (exec) e where "t_type t = TaskTypeExecution" "t_exec t = Some e" "t_card t = None"
      "t_status t \<in> {Pending, Executing, Awaiting, Done, Aborted}"
  using assms
  by (cases "t_type t")
     (auto simp: task_wf_def validateTaskTypeConsistency_def type_statuses_def split: if_splits)

end
