(* ===== verification/Card_Ledger.thy ===== *)
theory Card_Ledger
  imports Sql_Table Task_Model
begin

text \<open>
  \<open>card_request.go\<close>: the ledger of card requests, its rows, its two partial UNIQUE indexes and
  the operations that create, claim and attach a request. The tables the ledger reads or writes
  besides its own (tasks, jobs, actions, force-release barriers, operation receipts) are part of
  \<open>orch_store\<close>.

  A failed statement is a \<open>sql_error\<close>. When one INSERT violates both indexes, SQLite reports one
  of them; the model reports the slot. No caller of the sources can violate both: a launching
  INSERT has no cause.
\<close>

section \<open>Rows\<close>

datatype request_status = RQueued | RLaunching | RAttached | RFolded | RFinished | RFailed

definition CardRequestCommandKeyGo :: string where
  "CardRequestCommandKeyGo = ''__go__''"

definition CardRequestOrigin :: "string \<Rightarrow> string" where
  "CardRequestOrigin causeID = (if causeID \<noteq> [] then ''event'' else ''human'')"

definition CardRequestTargetKindTask :: string where
  "CardRequestTargetKindTask = ''task''"

definition CardRequestTargetKindSession :: string where
  "CardRequestTargetKindSession = ''session''"

record card_request_definition =
  crd_command_key :: string
  crd_label :: string
  crd_run :: string
  crd_version :: string
  crd_card_write :: bool

record card_request =
  cr_id :: string
  cr_card_id :: string
  cr_command_key :: string
  cr_cause_id :: string
  cr_status :: request_status
  cr_instruction :: string
  cr_launched :: card_request_definition
  cr_launcher_job_id :: string
  cr_target_kind :: string
  cr_target_id :: string
  cr_folded_into :: string
  cr_result :: string
  cr_error :: string
  cr_created_at :: time
  cr_updated_at :: time

record job =
  jb_id :: string
  jb_status :: string
  jb_role :: string
  jb_card_request_id :: string
  jb_created_at :: time

record op_result =
  op_result :: string
  op_reason_code :: string
  op_target_task_id :: string
  op_target_session_id :: string
  op_target_request_id :: string
  op_current_phase :: string

record orch_store =
  st_tasks :: "task list"
  st_jobs :: "job list"
  st_requests :: "card_request list"
  st_barriers :: "(string \<times> time) list"
  st_actions :: "action list"
  st_op_results :: "op_result list"

datatype sql_error = UniqueCardId | UniqueCauseId | PrimaryKey | ForeignKey | CheckConstraint

datatype cr_error =
    ErrCardRequestNotFound
  | ErrCardRequestSlotOccupied
  | ErrCardRequestDuplicateCause
  | ErrCardRequestInvalidTransition
  | ErrNoQueuedCardRequests
  | ErrCardRequestOwnerMismatch
  | ErrCardNotEligibleForDispatch
  | ErrCardForceReleaseBarrierActive
  | ErrCardRequestCommandKeyChanged
  | ErrArgument string
  | ErrSql sql_error

definition is_active :: "card_request \<Rightarrow> bool" where
  "is_active r \<longleftrightarrow> cr_status r = RLaunching \<or> cr_status r = RAttached"

definition has_live_cause :: "card_request \<Rightarrow> bool" where
  "has_live_cause r \<longleftrightarrow> cr_cause_id r \<noteq> [] \<and> cr_status r \<noteq> RFailed"

text \<open>\<open>idx_card_requests_active_unique\<close> and \<open>idx_card_requests_cause_unique_non_failed\<close>.\<close>

definition slot_index :: "card_request list \<Rightarrow> bool" where
  "slot_index rows \<longleftrightarrow> uniq_on cr_card_id is_active rows"

definition cause_index :: "card_request list \<Rightarrow> bool" where
  "cause_index rows \<longleftrightarrow> uniq_on cr_cause_id has_live_cause rows"

text \<open>The zero \<open>time.Time\<close>, January 1 of year 1.\<close>

definition zero_time :: time where
  "zero_time = - 62135596800000000000"

section \<open>Statements on the ledger\<close>

definition write_requests :: "card_request list \<Rightarrow> orch_store \<Rightarrow> sql_error + orch_store" where
  "write_requests rows st =
     (if \<not> slot_index rows then Inl UniqueCardId
      else if \<not> cause_index rows then Inl UniqueCauseId
      else Inr (st\<lparr>st_requests := rows\<rparr>))"

definition insert_request :: "card_request \<Rightarrow> orch_store \<Rightarrow> sql_error + orch_store" where
  "insert_request row st =
     and_then (guard (cr_target_kind row \<in> {[], ''task'', ''session''}) CheckConstraint) (\<lambda>_.
     and_then (guard (cr_id row \<notin> set (map cr_id (st_requests st))) PrimaryKey) (\<lambda>_.
     and_then (write_requests (st_requests st @ [row]) st) (\<lambda>st'.
     and_then (guard (cr_card_id row \<in> set (map t_id (st_tasks st))) ForeignKey) (\<lambda>_.
     Inr st'))))"

definition exec_update ::
  "(card_request \<Rightarrow> bool) \<Rightarrow> (card_request \<Rightarrow> card_request) \<Rightarrow> orch_store
   \<Rightarrow> sql_error + (nat \<times> orch_store)" where
  "exec_update P f st =
     and_then (write_requests (update_where P f (st_requests st)) st) (\<lambda>st'.
     Inr (rows_affected P (st_requests st), st'))"

definition request_order :: "card_request \<Rightarrow> time \<times> string" where
  "request_order r = (cr_created_at r, cr_id r)"

definition GetCardRequest :: "string \<Rightarrow> orch_store \<Rightarrow> cr_error + card_request" where
  "GetCardRequest rid st =
     (case find (\<lambda>r. cr_id r = rid) (st_requests st) of
        None \<Rightarrow> Inl ErrCardRequestNotFound | Some r \<Rightarrow> Inr r)"

definition GetTaskStatus :: "string \<Rightarrow> orch_store \<Rightarrow> task_status option" where
  "GetTaskStatus rid st = map_option t_status (find (\<lambda>t. t_id t = rid) (st_tasks st))"

section \<open>Create and claim\<close>

definition create_error :: "sql_error \<Rightarrow> cr_error" where
  "create_error e =
     (case e of UniqueCardId \<Rightarrow> ErrCardRequestSlotOccupied
      | UniqueCauseId \<Rightarrow> ErrCardRequestDuplicateCause | _ \<Rightarrow> ErrSql e)"

definition CreateCardRequest ::
  "string \<Rightarrow> time \<Rightarrow> request_status option \<Rightarrow> card_request \<Rightarrow> orch_store
   \<Rightarrow> cr_error + (card_request \<times> orch_store)" where
  "CreateCardRequest uid now status req st =
     and_then (guard (cr_card_id req \<noteq> []) (ErrArgument ''card id must not be empty'')) (\<lambda>_.
     and_then
       (case status of
          None \<Rightarrow> Inr RQueued
        | Some RQueued \<Rightarrow> Inr RQueued
        | Some RLaunching \<Rightarrow>
            if cr_launcher_job_id req = []
            then Inl (ErrArgument ''launching fast path requires a launcher job id'')
            else Inr RLaunching
        | Some _ \<Rightarrow> Inl (ErrArgument ''invalid starting status'')) (\<lambda>s.
     let row = req\<lparr>cr_id := (if cr_id req = [] then uid else cr_id req), cr_status := s,
                   cr_created_at := (if cr_created_at req = zero_time then now else cr_created_at req),
                   cr_updated_at := now\<rparr>
     in and_then (map_err create_error (insert_request row st)) (\<lambda>st'. Inr (row, st'))))"

definition promote_to_launching ::
  "time \<Rightarrow> string \<Rightarrow> card_request_definition \<Rightarrow> card_request \<Rightarrow> card_request" where
  "promote_to_launching now launcherJobID def r =
     r\<lparr>cr_status := RLaunching, cr_launched := def, cr_launcher_job_id := launcherJobID,
       cr_updated_at := now\<rparr>"

definition fold_into :: "time \<Rightarrow> string \<Rightarrow> card_request \<Rightarrow> card_request" where
  "fold_into now headID r = r\<lparr>cr_status := RFolded, cr_folded_into := headID, cr_updated_at := now\<rparr>"

fun fold_rest :: "time \<Rightarrow> string \<Rightarrow> card_request list \<Rightarrow> orch_store \<Rightarrow> cr_error + orch_store" where
  "fold_rest now headID [] st = Inr st"
| "fold_rest now headID (r # rs) st =
     and_then (map_err ErrSql
       (exec_update (\<lambda>x. cr_id x = cr_id r \<and> cr_status x = RQueued) (fold_into now headID) st))
       (\<lambda>(_, st'). fold_rest now headID rs st')"

definition claim_error :: "sql_error \<Rightarrow> cr_error" where
  "claim_error e = (case e of UniqueCardId \<Rightarrow> ErrCardRequestSlotOccupied | _ \<Rightarrow> ErrSql e)"

definition queued_of :: "string \<Rightarrow> card_request \<Rightarrow> bool" where
  "queued_of cardID r \<longleftrightarrow> cr_card_id r = cardID \<and> cr_status r = RQueued"

definition ClaimQueuedCardRequests ::
  "time \<Rightarrow> string \<Rightarrow> string \<Rightarrow> card_request_definition \<Rightarrow> orch_store
   \<Rightarrow> cr_error + ((card_request \<times> card_request list) \<times> orch_store)" where
  "ClaimQueuedCardRequests now cardID launcherJobID def st =
     and_then (guard (cardID \<noteq> []) (ErrArgument ''card id must not be empty'')) (\<lambda>_.
     and_then (guard (launcherJobID \<noteq> []) (ErrArgument ''launcher job id must not be empty'')) (\<lambda>_.
     case select_order request_order (queued_of cardID) (st_requests st) of
       [] \<Rightarrow> Inl ErrNoQueuedCardRequests
     | head # rest \<Rightarrow>
         and_then (map_err claim_error
           (exec_update (\<lambda>r. cr_id r = cr_id head \<and> cr_status r = RQueued)
             (promote_to_launching now launcherJobID def) st)) (\<lambda>(n, st1).
         and_then (guard (n \<noteq> 0) ErrCardRequestInvalidTransition) (\<lambda>_.
         and_then (fold_rest now (cr_id head) rest st1) (\<lambda>st2.
         Inr ((promote_to_launching now launcherJobID def head,
               map (fold_into now (cr_id head)) rest), st2))))))"

section \<open>Attach\<close>

definition validateAttachArgs :: "string \<Rightarrow> string \<Rightarrow> string \<Rightarrow> cr_error + unit" where
  "validateAttachArgs rid targetKind targetID =
     and_then (guard (rid \<noteq> []) (ErrArgument ''id must not be empty'')) (\<lambda>_.
     and_then (guard (targetKind = CardRequestTargetKindTask \<or> targetKind = CardRequestTargetKindSession)
       (ErrArgument ''invalid target kind'')) (\<lambda>_.
     guard (targetID \<noteq> []) (ErrArgument ''target id must not be empty'')))"

definition rowsAffectedOrNotFoundOrInvalid :: "nat \<Rightarrow> string \<Rightarrow> orch_store \<Rightarrow> cr_error + unit" where
  "rowsAffectedOrNotFoundOrInvalid n rid st =
     (if n > 0 then Inr ()
      else case GetCardRequest rid st of
        Inl ErrCardRequestNotFound \<Rightarrow> Inl ErrCardRequestNotFound
      | _ \<Rightarrow> Inl ErrCardRequestInvalidTransition)"

definition attach_to :: "time \<Rightarrow> string \<Rightarrow> string \<Rightarrow> card_request \<Rightarrow> card_request" where
  "attach_to now targetKind targetID r =
     r\<lparr>cr_status := RAttached, cr_target_kind := targetKind, cr_target_id := targetID,
       cr_updated_at := now\<rparr>"

definition AttachCardRequest ::
  "time \<Rightarrow> string \<Rightarrow> string \<Rightarrow> string \<Rightarrow> orch_store \<Rightarrow> cr_error + (unit \<times> orch_store)" where
  "AttachCardRequest now rid targetKind targetID st =
     and_then (validateAttachArgs rid targetKind targetID) (\<lambda>_.
     and_then (map_err ErrSql
       (exec_update (\<lambda>r. cr_id r = rid \<and> cr_status r = RLaunching) (attach_to now targetKind targetID) st))
       (\<lambda>(n, st').
     and_then (rowsAffectedOrNotFoundOrInvalid n rid st') (\<lambda>_. Inr ((), st'))))"

definition AttachCardRequestOwned ::
  "time \<Rightarrow> string \<Rightarrow> string \<Rightarrow> string \<Rightarrow> string \<Rightarrow> orch_store \<Rightarrow> cr_error + (unit \<times> orch_store)" where
  "AttachCardRequestOwned now rid expectedLauncherJobID targetKind targetID st =
     and_then (guard (expectedLauncherJobID \<noteq> [])
       (ErrArgument ''expected launcher job id must not be empty'')) (\<lambda>_.
     and_then (validateAttachArgs rid targetKind targetID) (\<lambda>_.
     and_then (map_err ErrSql
       (exec_update (\<lambda>r. cr_id r = rid \<and> cr_status r = RLaunching
                         \<and> cr_launcher_job_id r = expectedLauncherJobID)
         (attach_to now targetKind targetID) st)) (\<lambda>(n, st').
     if n > 0 then Inr ((), st')
     else and_then (GetCardRequest rid st') (\<lambda>existing.
       if cr_launcher_job_id existing \<noteq> expectedLauncherJobID then Inl ErrCardRequestOwnerMismatch
       else Inl ErrCardRequestInvalidTransition))))"

section \<open>Reads\<close>

definition CountActiveCardRequests :: "string \<Rightarrow> orch_store \<Rightarrow> nat" where
  "CountActiveCardRequests cardID st =
     rows_affected (\<lambda>r. cr_card_id r = cardID \<and> is_active r) (st_requests st)"

text \<open>\<open>ORDER BY created_at DESC LIMIT 1\<close>: among equal times SQLite's sorter keeps scan order.\<close>

definition GetCardRequestByTaskTarget :: "string \<Rightarrow> orch_store \<Rightarrow> card_request option" where
  "GetCardRequestByTaskTarget taskID st =
     (case select_order (\<lambda>r. - cr_created_at r)
        (\<lambda>r. cr_target_kind r = CardRequestTargetKindTask \<and> cr_target_id r = taskID) (st_requests st) of
        [] \<Rightarrow> None | r # _ \<Rightarrow> Some r)"

definition ListCardRequestsByCard :: "string \<Rightarrow> orch_store \<Rightarrow> card_request list" where
  "ListCardRequestsByCard cardID st =
     select_order request_order (\<lambda>r. cr_card_id r = cardID) (st_requests st)"

definition ListActiveCardRequests :: "orch_store \<Rightarrow> card_request list" where
  "ListActiveCardRequests st = select_order request_order is_active (st_requests st)"

definition request_rank :: "request_status \<Rightarrow> nat" where
  "request_rank s = (case s of RAttached \<Rightarrow> 3 | RLaunching \<Rightarrow> 2 | RQueued \<Rightarrow> 1 | _ \<Rightarrow> 0)"

fun pick_active :: "card_request option \<Rightarrow> card_request list \<Rightarrow> card_request option" where
  "pick_active chosen [] = chosen"
| "pick_active chosen (r # rs) =
     (if cr_command_key r = CardRequestCommandKeyGo then pick_active chosen rs
      else if request_rank (cr_status r) = 0 then pick_active chosen rs
      else case chosen of
        None \<Rightarrow> pick_active (Some r) rs
      | Some c \<Rightarrow>
          if request_rank (cr_status r) > request_rank (cr_status c) then pick_active (Some r) rs
          else pick_active chosen rs)"

definition PickActiveCardRequest :: "card_request list \<Rightarrow> card_request option" where
  "PickActiveCardRequest requests = pick_active None requests"

text \<open>
  \<open>ListActiveCardRequestsByCardIDs\<close>: the chunks of ids partition the distinct non-empty ids, so the
  rows of one card all come from one query.
\<close>

definition active_request_of :: "string \<Rightarrow> orch_store \<Rightarrow> card_request option" where
  "active_request_of cardID st =
     PickActiveCardRequest (select_order request_order
       (\<lambda>r. cr_card_id r = cardID \<and> (cr_status r = RQueued \<or> is_active r)) (st_requests st))"

definition ListActiveCardRequestsByCardIDs ::
  "string list \<Rightarrow> orch_store \<Rightarrow> (string \<times> card_request) list" where
  "ListActiveCardRequestsByCardIDs cardIDs st =
     List.map_filter (\<lambda>rid. map_option (\<lambda>r. (rid, r)) (active_request_of rid st))
       (dedup_seen [] (filter (\<lambda>rid. rid \<noteq> []) cardIDs))"

section \<open>Fields written by the row updates\<close>

lemma promote_simps [simp]:
  "cr_id (promote_to_launching now l def r) = cr_id r"
  "cr_card_id (promote_to_launching now l def r) = cr_card_id r"
  "cr_cause_id (promote_to_launching now l def r) = cr_cause_id r"
  "cr_status (promote_to_launching now l def r) = RLaunching"
  "cr_launcher_job_id (promote_to_launching now l def r) = l"
  "is_active (promote_to_launching now l def r)"
  by (simp_all add: promote_to_launching_def is_active_def)

lemma fold_into_simps [simp]:
  "cr_id (fold_into now hid r) = cr_id r" "cr_card_id (fold_into now hid r) = cr_card_id r"
  "cr_cause_id (fold_into now hid r) = cr_cause_id r" "cr_status (fold_into now hid r) = RFolded"
  "cr_folded_into (fold_into now hid r) = hid" "\<not> is_active (fold_into now hid r)"
  by (simp_all add: fold_into_def is_active_def)

lemma attach_to_simps [simp]:
  "cr_id (attach_to now k i r) = cr_id r" "cr_card_id (attach_to now k i r) = cr_card_id r"
  "cr_cause_id (attach_to now k i r) = cr_cause_id r" "cr_status (attach_to now k i r) = RAttached"
  "cr_launcher_job_id (attach_to now k i r) = cr_launcher_job_id r"
  "cr_target_kind (attach_to now k i r) = k" "cr_target_id (attach_to now k i r) = i"
  "is_active (attach_to now k i r)"
  by (simp_all add: attach_to_def is_active_def)

section \<open>The ledger invariant\<close>

text \<open>
  What every reachable ledger satisfies: the primary key, the two indexes, the foreign key to the
  card; a request that holds a slot names its launcher, an attached one its continuation; and every
  folded request points to the request of the same card that holds the slot.
\<close>

definition row_ok :: "card_request \<Rightarrow> bool" where
  "row_ok r \<longleftrightarrow>
     cr_id r \<noteq> [] \<and> cr_card_id r \<noteq> []
     \<and> (is_active r \<longrightarrow> cr_launcher_job_id r \<noteq> [])
     \<and> (cr_status r = RAttached \<longrightarrow>
          (cr_target_kind r = CardRequestTargetKindTask \<or> cr_target_kind r = CardRequestTargetKindSession)
          \<and> cr_target_id r \<noteq> [])"

definition folded_ok :: "card_request list \<Rightarrow> bool" where
  "folded_ok rows \<longleftrightarrow>
     (\<forall>r \<in> set rows. cr_status r = RFolded \<longrightarrow>
        (\<exists>p \<in> set rows. cr_id p = cr_folded_into r \<and> cr_card_id p = cr_card_id r \<and> is_active p))"

definition rows_inv :: "card_request list \<Rightarrow> bool" where
  "rows_inv rows \<longleftrightarrow>
     distinct (map cr_id rows) \<and> slot_index rows \<and> cause_index rows
     \<and> (\<forall>r \<in> set rows. row_ok r) \<and> folded_ok rows"

definition ledger_inv :: "orch_store \<Rightarrow> bool" where
  "ledger_inv st \<longleftrightarrow>
     rows_inv (st_requests st)
     \<and> (\<forall>r \<in> set (st_requests st). cr_card_id r \<in> set (map t_id (st_tasks st)))"

lemma rows_invD:
  assumes "rows_inv rows"
  shows "distinct (map cr_id rows)" "slot_index rows" "cause_index rows"
    "\<And>r. r \<in> set rows \<Longrightarrow> row_ok r" "folded_ok rows" "distinct rows"
  using assms by (auto simp: rows_inv_def distinct_map)

lemma row_by_id:
  assumes "distinct (map cr_id rows)" "r \<in> set rows" "r' \<in> set rows" "cr_id r = cr_id r'"
  shows "r = r'"
  using assms by (auto simp: distinct_map inj_on_def)

lemma slot_holder_unique:
  assumes "rows_inv rows" "r \<in> set rows" "r' \<in> set rows" "is_active r" "is_active r'"
    "cr_card_id r = cr_card_id r'"
  shows "r = r'"
  using assms rows_invD [OF assms(1)] by (auto simp: slot_index_def intro: uniq_onD)

lemma GetCardRequest_Inr:
  "GetCardRequest rid st = Inr r \<Longrightarrow> r \<in> set (st_requests st) \<and> cr_id r = rid"
  by (auto simp: GetCardRequest_def split: option.splits dest: find_SomeD)

lemma GetCardRequest_Inl: "GetCardRequest rid st = Inl e \<Longrightarrow> e = ErrCardRequestNotFound"
  by (auto simp: GetCardRequest_def split: option.splits)

lemma GetCardRequest_eq:
  "ledger_inv st \<Longrightarrow> r \<in> set (st_requests st) \<Longrightarrow> GetCardRequest (cr_id r) st = Inr r"
  by (simp add: GetCardRequest_def ledger_inv_def rows_inv_def find_distinct_key)

section \<open>How statements act on the invariant\<close>

lemma exec_update_Inr:
  "exec_update P f st = Inr (n, st') \<longleftrightarrow>
     n = rows_affected P (st_requests st)
     \<and> st' = st\<lparr>st_requests := update_where P f (st_requests st)\<rparr>
     \<and> slot_index (update_where P f (st_requests st)) \<and> cause_index (update_where P f (st_requests st))"
  by (auto simp: exec_update_def write_requests_def split: if_splits)

text \<open>An update that frees slots or leaves them, and revives no cause, is never refused.\<close>

lemma exec_update_shrinks:
  assumes idx: "slot_index (st_requests st)" "cause_index (st_requests st)"
    and keep: "\<And>r. r \<in> set (st_requests st) \<Longrightarrow> P r \<Longrightarrow>
      cr_card_id (f r) = cr_card_id r \<and> cr_cause_id (f r) = cr_cause_id r
      \<and> (is_active (f r) \<longrightarrow> is_active r) \<and> (cr_status r = RFailed \<longrightarrow> cr_status (f r) = RFailed \<or> cr_cause_id r = [])"
  shows "exec_update P f st =
     Inr (rows_affected P (st_requests st), st\<lparr>st_requests := update_where P f (st_requests st)\<rparr>)"
proof -
  have "slot_index (update_where P f (st_requests st))"
    unfolding slot_index_def
    by (rule uniq_on_update_shrink) (use idx keep in \<open>auto simp: slot_index_def\<close>)
  moreover have "cause_index (update_where P f (st_requests st))"
    unfolding cause_index_def
    by (rule uniq_on_update_shrink)
       (use idx keep in \<open>auto simp: cause_index_def has_live_cause_def\<close>)
  ultimately show ?thesis using exec_update_Inr by blast
qed

lemma rows_inv_update:
  assumes inv: "rows_inv rows"
    and idx: "slot_index (update_where P f rows)" "cause_index (update_where P f rows)"
    and keep: "\<And>r. r \<in> set rows \<Longrightarrow> P r \<Longrightarrow> cr_id (f r) = cr_id r \<and> row_ok (f r)"
    and fold: "folded_ok (update_where P f rows)"
  shows "rows_inv (update_where P f rows)"
proof -
  have "map cr_id (update_where P f rows) = map cr_id rows"
    by (rule map_update_where) (use keep in auto)
  then show ?thesis
    using inv idx keep fold by (auto simp: rows_inv_def elim!: in_update_whereE)
qed

lemma ledger_inv_update:
  assumes inv: "ledger_inv st"
    and up: "exec_update P f st = Inr (n, st')"
    and keep: "\<And>r. r \<in> set (st_requests st) \<Longrightarrow> P r \<Longrightarrow>
      cr_id (f r) = cr_id r \<and> cr_card_id (f r) = cr_card_id r \<and> row_ok (f r)"
    and fold: "folded_ok (update_where P f (st_requests st))"
  shows "ledger_inv st'"
proof -
  from up have st': "st' = st\<lparr>st_requests := update_where P f (st_requests st)\<rparr>"
    and idx: "slot_index (update_where P f (st_requests st))" "cause_index (update_where P f (st_requests st))"
    by (auto simp: exec_update_Inr)
  have "rows_inv (update_where P f (st_requests st))"
    by (rule rows_inv_update) (use inv idx keep fold in \<open>auto simp: ledger_inv_def\<close>)
  with inv keep st' show ?thesis
    by (auto simp: ledger_inv_def elim!: in_update_whereE)
qed

text \<open>Updates that neither fold a request nor take the slot from one that folded requests need.\<close>

lemma folded_ok_update:
  assumes "folded_ok rows"
    and "\<And>r. r \<in> set rows \<Longrightarrow> P r \<Longrightarrow>
      cr_id (f r) = cr_id r \<and> cr_card_id (f r) = cr_card_id r \<and> cr_status (f r) \<noteq> RFolded"
    and "\<And>r q. r \<in> set rows \<Longrightarrow> P r \<Longrightarrow> is_active r \<Longrightarrow> \<not> is_active (f r) \<Longrightarrow>
      q \<in> set rows \<Longrightarrow> cr_status q = RFolded \<Longrightarrow> cr_folded_into q = cr_id r \<Longrightarrow> P q"
  shows "folded_ok (update_where P f rows)"
  unfolding folded_ok_def
proof (intro ballI impI)
  fix q assume "q \<in> set (update_where P f rows)" "cr_status q = RFolded"
  with assms(2) have q: "q \<in> set rows" "\<not> P q" by (auto elim!: in_update_whereE)
  with assms(1) \<open>cr_status q = RFolded\<close> obtain p where p: "p \<in> set rows"
      "cr_id p = cr_folded_into q" "cr_card_id p = cr_card_id q" "is_active p"
    by (auto simp: folded_ok_def)
  show "\<exists>p \<in> set (update_where P f rows).
      cr_id p = cr_folded_into q \<and> cr_card_id p = cr_card_id q \<and> is_active p"
  proof (cases "P p")
    case True
    with p q assms(3) [of p q] \<open>cr_status q = RFolded\<close> have "is_active (f p)" by auto
    moreover from True p assms(2) have "cr_id (f p) = cr_id p" "cr_card_id (f p) = cr_card_id p" by auto
    ultimately show ?thesis using p True update_where_in(1) [of p rows P f] by metis
  next
    case False
    with p show ?thesis using update_where_in(2) [of p rows P f] by metis
  qed
qed

text \<open>The same for a write that rewrites rows one by one, however many statements it took.\<close>

lemma rows_inv_map:
  assumes inv: "rows_inv rows"
    and keep: "\<And>r. r \<in> set rows \<Longrightarrow>
      cr_id (g r) = cr_id r \<and> cr_card_id (g r) = cr_card_id r \<and> cr_cause_id (g r) = cr_cause_id r
      \<and> (is_active (g r) \<longrightarrow> is_active r \<and> g r = r)
      \<and> (cr_status r = RFailed \<longrightarrow> cr_status (g r) = RFailed \<or> cr_cause_id r = [])
      \<and> (cr_status (g r) = RFolded \<longrightarrow> g r = r)"
    and freed: "\<And>r q. r \<in> set rows \<Longrightarrow> is_active r \<Longrightarrow> \<not> is_active (g r) \<Longrightarrow> q \<in> set rows \<Longrightarrow>
      cr_status q = RFolded \<Longrightarrow> cr_folded_into q = cr_id r \<Longrightarrow> cr_status (g q) \<noteq> RFolded"
  shows "rows_inv (map g rows)"
proof -
  have m: "map g rows = update_where (\<lambda>_. True) g rows" by (simp add: update_where_def)
  note d = rows_invD [OF inv]
  have "slot_index (map g rows)"
    unfolding m slot_index_def
    by (rule uniq_on_update_shrink) (use d(2) keep in \<open>auto simp: slot_index_def\<close>)
  moreover have "cause_index (map g rows)"
    unfolding m cause_index_def
    by (rule uniq_on_update_shrink) (use d(3) keep in \<open>auto simp: cause_index_def has_live_cause_def\<close>)
  moreover have "row_ok (g r)" if "r \<in> set rows" for r
    using keep [OF that] d(4) [OF that] by (auto simp: row_ok_def is_active_def)
  moreover have "folded_ok (map g rows)"
    unfolding folded_ok_def
  proof (intro ballI impI)
    fix q' assume "q' \<in> set (map g rows)" and f: "cr_status q' = RFolded"
    then obtain q where q: "q \<in> set rows" "q' = g q" by auto
    with keep f have "g q = q" by metis
    with d(5) q f obtain p where p: "p \<in> set rows" "cr_id p = cr_folded_into q"
        "cr_card_id p = cr_card_id q" "is_active p"
      by (auto simp: folded_ok_def)
    with freed [of p q] q f \<open>g q = q\<close> have "is_active (g p)" by auto
    with p(1) keep have "g p = p" by blast
    then have "p \<in> set (map g rows)" using p(1) by force
    with p q \<open>g q = q\<close>
    show "\<exists>p \<in> set (map g rows). cr_id p = cr_folded_into q' \<and> cr_card_id p = cr_card_id q' \<and> is_active p"
      by auto
  qed
  moreover have "map cr_id (map g rows) = map cr_id rows" using keep by simp
  then have "distinct (map cr_id (map g rows))" using d(1) by argo
  ultimately show ?thesis by (auto simp: rows_inv_def)
qed

lemma ledger_inv_map:
  assumes "ledger_inv st" and "rows_inv (map g (st_requests st))"
    and "\<And>r. r \<in> set (st_requests st) \<Longrightarrow> cr_card_id (g r) = cr_card_id r"
  shows "ledger_inv (st\<lparr>st_requests := map g (st_requests st)\<rparr>)"
  using assms by (auto simp: ledger_inv_def)

section \<open>Create\<close>

lemma insert_request_Inr:
  "insert_request row st = Inr st' \<longleftrightarrow>
     cr_target_kind row \<in> {[], ''task'', ''session''} \<and> cr_id row \<notin> set (map cr_id (st_requests st))
     \<and> cr_card_id row \<in> set (map t_id (st_tasks st))
     \<and> slot_index (st_requests st @ [row]) \<and> cause_index (st_requests st @ [row])
     \<and> st' = st\<lparr>st_requests := st_requests st @ [row]\<rparr>"
  by (auto simp: insert_request_def write_requests_def split: if_splits)

lemma CreateCardRequest_Inr:
  assumes "CreateCardRequest uid now status req st = Inr (row, st')"
  shows "insert_request row st = Inr st' \<and> (uid \<noteq> [] \<longrightarrow> cr_id row \<noteq> []) \<and> cr_card_id row = cr_card_id req \<and> cr_card_id row \<noteq> []
       \<and> cr_command_key row = cr_command_key req \<and> cr_cause_id row = cr_cause_id req
       \<and> (cr_status row = RQueued \<or> cr_status row = RLaunching \<and> cr_launcher_job_id row \<noteq> [])"
  using assms
  by (auto simp: CreateCardRequest_def Let_def split: option.splits request_status.splits if_splits)

lemma CreateCardRequest_inv [inv_intros]:
  assumes inv: "ledger_inv st" and uid: "uid \<noteq> []"
    and ok: "CreateCardRequest uid now status req st = Inr (row, st')"
  shows "ledger_inv st'"
proof -
  note c = CreateCardRequest_Inr [OF ok]
  from c have st': "st' = st\<lparr>st_requests := st_requests st @ [row]\<rparr>"
    and new: "cr_id row \<notin> set (map cr_id (st_requests st))"
      "slot_index (st_requests st @ [row])" "cause_index (st_requests st @ [row])"
      "cr_card_id row \<in> set (map t_id (st_tasks st))"
    by (auto simp: insert_request_Inr)
  have "row_ok row" "cr_status row \<noteq> RFolded"
    using c uid by (auto simp: row_ok_def is_active_def)
  then show ?thesis
    using inv new st' by (auto simp: ledger_inv_def rows_inv_def folded_ok_def)
qed

section \<open>Claim\<close>

lemma fold_rest_eq:
  assumes "slot_index (st_requests st)" "cause_index (st_requests st)"
  shows "fold_rest now hid rs st =
     Inr (st\<lparr>st_requests := update_where (\<lambda>x. cr_id x \<in> cr_id ` set rs \<and> cr_status x = RQueued)
       (fold_into now hid) (st_requests st)\<rparr>)"
  using assms
proof (induction rs arbitrary: st)
  case Nil
  then show ?case by (simp add: update_where_def)
next
  case (Cons r rs)
  let ?P = "\<lambda>x. cr_id x = cr_id r \<and> cr_status x = RQueued"
  let ?st1 = "st\<lparr>st_requests := update_where ?P (fold_into now hid) (st_requests st)\<rparr>"
  have up: "exec_update ?P (fold_into now hid) st = Inr (rows_affected ?P (st_requests st), ?st1)"
    by (rule exec_update_shrinks [OF Cons.prems]) auto
  then have "slot_index (st_requests ?st1)" "cause_index (st_requests ?st1)"
    by (auto simp: exec_update_Inr)
  from Cons.IH [OF this] up show ?case
    by (auto simp: update_where_def intro!: arg_cong [where f = "\<lambda>x. st\<lparr>st_requests := x\<rparr>"])
qed

text \<open>The effect of a claim: the head takes the slot, every other queued request of the card folds.\<close>

definition claim_row ::
  "time \<Rightarrow> string \<Rightarrow> card_request_definition \<Rightarrow> string \<Rightarrow> card_request \<Rightarrow> card_request" where
  "claim_row now launcher def hid r =
     (if cr_id r = hid then promote_to_launching now launcher def r else fold_into now hid r)"

lemma claim_row_simps [simp]:
  "cr_id (claim_row now l def hid r) = cr_id r" "cr_card_id (claim_row now l def hid r) = cr_card_id r"
  "cr_cause_id (claim_row now l def hid r) = cr_cause_id r"
  "cr_status (claim_row now l def hid r) = (if cr_id r = hid then RLaunching else RFolded)"
  "is_active (claim_row now l def hid r) \<longleftrightarrow> cr_id r = hid"
  "cr_id r = hid \<Longrightarrow> cr_launcher_job_id (claim_row now l def hid r) = l"
  "cr_id r \<noteq> hid \<Longrightarrow> cr_folded_into (claim_row now l def hid r) = hid"
  by (simp_all add: claim_row_def)

lemma claim_promote:
  assumes inv: "ledger_inv st" and h: "h \<in> set (st_requests st)" "queued_of cardID h"
  shows "exec_update (\<lambda>r. cr_id r = cr_id h \<and> cr_status r = RQueued) (promote_to_launching now launcher def) st =
     (if \<exists>r \<in> set (st_requests st). is_active r \<and> cr_card_id r = cardID then Inl UniqueCardId
      else Inr (1, st\<lparr>st_requests := update_where (\<lambda>r. cr_id r = cr_id h \<and> cr_status r = RQueued)
        (promote_to_launching now launcher def) (st_requests st)\<rparr>))"
proof -
  let ?P = "\<lambda>r. cr_id r = cr_id h \<and> cr_status r = RQueued"
  let ?f = "promote_to_launching now launcher def"
  note d = rows_invD [OF inv [unfolded ledger_inv_def, THEN conjunct1]]
  have only: "?P r \<longleftrightarrow> r = h" if "r \<in> set (st_requests st)" for r
    using that h row_by_id [OF d(1)] by (auto simp: queued_of_def)
  have f: "\<not> is_active h" "is_active (?f h)" "cr_card_id (?f h) = cardID"
    using h by (simp_all add: is_active_def queued_of_def)
  have cause: "cause_index (update_where ?P ?f (st_requests st))"
    unfolding cause_index_def
    by (rule uniq_on_update_shrink)
       (use d(3) h in \<open>auto simp: cause_index_def has_live_cause_def\<close>)
  have slot: "slot_index (update_where ?P ?f (st_requests st)) \<longleftrightarrow>
      \<not> (\<exists>r \<in> set (st_requests st). is_active r \<and> cr_card_id r = cardID)"
    unfolding slot_index_def
    using uniq_on_update_one [OF d(6) h(1) only, of cr_card_id is_active ?f] d(2) f
    by (simp add: slot_index_def)
  have "rows_affected ?P (st_requests st) = 1" using split_one [OF d(6) h(1) only] by metis
  then show ?thesis using cause slot by (auto simp: exec_update_def write_requests_def)
qed

definition slot_taken :: "string \<Rightarrow> orch_store \<Rightarrow> bool" where
  "slot_taken cardID st \<longleftrightarrow> (\<exists>r \<in> set (st_requests st). is_active r \<and> cr_card_id r = cardID)"

definition queue_of :: "string \<Rightarrow> orch_store \<Rightarrow> card_request list" where
  "queue_of cardID st = select_order request_order (queued_of cardID) (st_requests st)"

lemma claim_unfold:
  assumes inv: "ledger_inv st" and args: "cardID \<noteq> []" "launcher \<noteq> []"
  shows "ClaimQueuedCardRequests now cardID launcher def st =
     (case queue_of cardID st of
        [] \<Rightarrow> Inl ErrNoQueuedCardRequests
      | h # rest \<Rightarrow>
          if slot_taken cardID st then Inl ErrCardRequestSlotOccupied
          else Inr ((promote_to_launching now launcher def h, map (fold_into now (cr_id h)) rest),
            st\<lparr>st_requests := update_where (queued_of cardID) (claim_row now launcher def (cr_id h))
              (st_requests st)\<rparr>))"
proof (cases "queue_of cardID st")
  case Nil
  then show ?thesis using args by (simp add: ClaimQueuedCardRequests_def queue_of_def)
next
  case (Cons h rest)
  let ?P = "\<lambda>r. cr_id r = cr_id h \<and> cr_status r = RQueued"
  let ?f = "promote_to_launching now launcher def"
  note d = rows_invD [OF inv [unfolded ledger_inv_def, THEN conjunct1]]
  have mem: "set (h # rest) = {r \<in> set (st_requests st). queued_of cardID r}"
    using Cons by (metis queue_of_def set_select_order)
  have dist: "distinct (map cr_id (h # rest))"
    using distinct_map_select_order [OF d(1)] Cons by (metis queue_of_def)
  have h: "h \<in> set (st_requests st)" "queued_of cardID h" using mem by auto
  note promote = claim_promote [OF inv h, of now launcher def]
  show ?thesis
  proof (cases "slot_taken cardID st")
    case True
    then show ?thesis
      using promote Cons args
      by (simp add: ClaimQueuedCardRequests_def queue_of_def claim_error_def slot_taken_def)
  next
    case False
    let ?st1 = "st\<lparr>st_requests := update_where ?P ?f (st_requests st)\<rparr>"
    have up: "exec_update ?P ?f st = Inr (1, ?st1)" using promote False by (simp add: slot_taken_def)
    then have "slot_index (st_requests ?st1)" "cause_index (st_requests ?st1)"
      by (auto simp: exec_update_Inr)
    note fold = fold_rest_eq [OF this, of now "cr_id h" rest]
    have "(\<lambda>x. if cr_id x \<in> cr_id ` set rest \<and> cr_status x = RQueued then fold_into now (cr_id h) x else x)
          (if ?P r then ?f r else r) =
        (if queued_of cardID r then claim_row now launcher def (cr_id h) r else r)"
      if r: "r \<in> set (st_requests st)" for r
    proof -
      have "cr_id r \<in> cr_id ` set rest \<and> cr_status r = RQueued \<longleftrightarrow> queued_of cardID r \<and> cr_id r \<noteq> cr_id h"
      proof
        assume "cr_id r \<in> cr_id ` set rest \<and> cr_status r = RQueued"
        then obtain x where x: "x \<in> set rest" "cr_id r = cr_id x" by auto
        with mem have "x \<in> set (st_requests st)" "queued_of cardID x" by auto
        with x r row_by_id [OF d(1)] have "queued_of cardID r" by metis
        with x dist show "queued_of cardID r \<and> cr_id r \<noteq> cr_id h" by (force simp: image_iff)
      next
        assume q: "queued_of cardID r \<and> cr_id r \<noteq> cr_id h"
        with r mem have "r \<in> set (h # rest)" by blast
        with q show "cr_id r \<in> cr_id ` set rest \<and> cr_status r = RQueued" by (auto simp: queued_of_def)
      qed
      moreover have "cr_id r = cr_id h \<Longrightarrow> r = h" using row_by_id [OF d(1) r h(1)] .
      ultimately show ?thesis
        using h(2) by (auto simp: claim_row_def queued_of_def)
    qed
    then have "update_where (\<lambda>x. cr_id x \<in> cr_id ` set rest \<and> cr_status x = RQueued)
        (fold_into now (cr_id h)) (update_where ?P ?f (st_requests st)) =
      update_where (queued_of cardID) (claim_row now launcher def (cr_id h)) (st_requests st)"
      by (simp add: update_where_def)
    then show ?thesis
      using up fold Cons args False by (simp add: ClaimQueuedCardRequests_def queue_of_def)
  qed
qed

lemma claim_Inr:
  assumes inv: "ledger_inv st" and ok: "ClaimQueuedCardRequests now cardID launcher def st = Inr ((p, fs), st')"
  obtains h rest where "queue_of cardID st = h # rest" "\<not> slot_taken cardID st" "cardID \<noteq> []" "launcher \<noteq> []"
    "p = promote_to_launching now launcher def h" "fs = map (fold_into now (cr_id h)) rest"
    "st' = st\<lparr>st_requests := update_where (queued_of cardID) (claim_row now launcher def (cr_id h)) (st_requests st)\<rparr>"
proof -
  have args: "cardID \<noteq> []" "launcher \<noteq> []" using ok by (auto simp: ClaimQueuedCardRequests_def)
  from ok that show ?thesis
    unfolding claim_unfold [OF inv args] using args by (auto split: list.splits if_splits)
qed

lemma queue_head:
  assumes "queue_of cardID st = h # rest"
  shows "h \<in> set (st_requests st)" "queued_of cardID h"
    "\<And>r. r \<in> set (st_requests st) \<Longrightarrow> queued_of cardID r \<Longrightarrow> request_order h \<le> request_order r"
proof -
  have mem: "set (h # rest) = {r \<in> set (st_requests st). queued_of cardID r}"
    using assms by (metis queue_of_def set_select_order)
  then show "h \<in> set (st_requests st)" "queued_of cardID h" by auto
  have "sorted (map request_order (h # rest))"
    using assms sorted_select_order by (metis queue_of_def)
  then show "request_order h \<le> request_order r"
    if "r \<in> set (st_requests st)" "queued_of cardID r" for r
    using that mem by auto
qed

lemma ClaimQueuedCardRequests_inv [inv_intros]:
  assumes inv: "ledger_inv st" and ok: "ClaimQueuedCardRequests now cardID launcher def st = Inr (res, st')"
  shows "ledger_inv st'"
proof -
  obtain p fs where res: "res = (p, fs)" by (cases res)
  obtain h rest where q: "queue_of cardID st = h # rest" and free: "\<not> slot_taken cardID st"
    and l: "launcher \<noteq> []"
    and st': "st' = st\<lparr>st_requests := update_where (queued_of cardID) (claim_row now launcher def (cr_id h)) (st_requests st)\<rparr>"
    using claim_Inr [OF inv ok [unfolded res]] by metis
  let ?f = "claim_row now launcher def (cr_id h)" and ?Q = "queued_of cardID"
  let ?rows = "update_where ?Q ?f (st_requests st)"
  note d = rows_invD [OF inv [unfolded ledger_inv_def, THEN conjunct1]] and h = queue_head [OF q]
  have ids: "map cr_id ?rows = map cr_id (st_requests st)"
    by (rule map_update_where) simp
  then have "distinct (map cr_id ?rows)" "distinct ?rows" using d(1) by (metis distinct_map)+
  moreover have "slot_index ?rows"
  proof -
    have act: "a = ?f h \<or> a \<in> set (st_requests st) \<and> cr_card_id a \<noteq> cardID"
      if "a \<in> set ?rows" "is_active a" for a
      using that(1)
    proof (cases rule: in_update_whereE)
      case (upd r0)
      with that(2) have "cr_id r0 = cr_id h"
        by simp
      with upd h(1) row_by_id [OF d(1)] show ?thesis by metis
    next
      case same
      with that(2) free show ?thesis by (auto simp: slot_taken_def)
    qed
    have "cr_card_id (?f h) = cardID"
      using h(2) by (simp add: queued_of_def)
    with act slot_holder_unique [OF inv [unfolded ledger_inv_def, THEN conjunct1]] show ?thesis
      unfolding slot_index_def uniq_on_iff [OF calculation(2)] by metis
  qed
  moreover have "cause_index ?rows"
    unfolding cause_index_def
    by (rule uniq_on_update_shrink)
       (use d(3) in \<open>auto simp: cause_index_def has_live_cause_def queued_of_def\<close>)
  moreover have "row_ok r" if "r \<in> set ?rows" for r
    using that d(4) l
    by (auto simp: row_ok_def split: if_splits elim!: in_update_whereE)
  moreover have "folded_ok ?rows"
    unfolding folded_ok_def
  proof (intro ballI impI)
    fix r assume "r \<in> set ?rows" "cr_status r = RFolded"
    then show "\<exists>p \<in> set ?rows. cr_id p = cr_folded_into r \<and> cr_card_id p = cr_card_id r \<and> is_active p"
    proof (cases rule: in_update_whereE)
      case (upd r0)
      have "?f h \<in> set ?rows" using h by (intro update_where_in)
      with upd h(2) \<open>cr_status r = RFolded\<close> show ?thesis
        by (intro bexI [of _ "?f h"])
           (auto simp: queued_of_def split: if_splits)
    next
      case same
      with d(5) \<open>cr_status r = RFolded\<close> obtain p where p: "p \<in> set (st_requests st)"
          "cr_id p = cr_folded_into r" "cr_card_id p = cr_card_id r" "is_active p"
        by (auto simp: folded_ok_def)
      moreover from p have "p \<in> set ?rows"
        by (intro update_where_in) (auto simp: is_active_def queued_of_def)
      ultimately show ?thesis by blast
    qed
  qed
  ultimately have "rows_inv ?rows" by (simp add: rows_inv_def)
  with inv st' show ?thesis
    by (auto simp: ledger_inv_def elim!: in_update_whereE)
qed

section \<open>Attach\<close>

text \<open>Attaching keeps the slot with the row that has it, so no index can refuse it.\<close>

lemma attach_update:
  assumes inv: "ledger_inv st" and P: "\<And>r. P r \<Longrightarrow> cr_status r = RLaunching"
    and k: "k = CardRequestTargetKindTask \<or> k = CardRequestTargetKindSession" and i: "i \<noteq> []"
  shows "exec_update P (attach_to now k i) st =
      Inr (rows_affected P (st_requests st), st\<lparr>st_requests := update_where P (attach_to now k i) (st_requests st)\<rparr>)
    \<and> ledger_inv (st\<lparr>st_requests := update_where P (attach_to now k i) (st_requests st)\<rparr>)"
proof -
  note d = rows_invD [OF inv [unfolded ledger_inv_def, THEN conjunct1]]
  have up: "exec_update P (attach_to now k i) st =
      Inr (rows_affected P (st_requests st), st\<lparr>st_requests := update_where P (attach_to now k i) (st_requests st)\<rparr>)"
    by (rule exec_update_shrinks [OF d(2,3)]) (auto simp: is_active_def dest: P)
  have "row_ok (attach_to now k i r)" if "r \<in> set (st_requests st)" "P r" for r
    using d(4) [OF that(1)] P [OF that(2)] k i by (auto simp: row_ok_def is_active_def)
  then have "ledger_inv (st\<lparr>st_requests := update_where P (attach_to now k i) (st_requests st)\<rparr>)"
    by (intro ledger_inv_update [OF inv up] folded_ok_update [OF d(5)]) auto
  with up show ?thesis by blast
qed

lemma validateAttachArgs_ok:
  "validateAttachArgs rid k i = Inr u \<longleftrightarrow>
     rid \<noteq> [] \<and> (k = CardRequestTargetKindTask \<or> k = CardRequestTargetKindSession) \<and> i \<noteq> []"
  by (auto simp: validateAttachArgs_def)

lemma AttachCardRequest_inv [inv_intros]:
  assumes "ledger_inv st" and "AttachCardRequest now rid k i st = Inr (u, st')"
  shows "ledger_inv st'"
proof -
  have args: "k = CardRequestTargetKindTask \<or> k = CardRequestTargetKindSession" "i \<noteq> []"
    using assms(2) by (auto simp: AttachCardRequest_def validateAttachArgs_ok)
  show ?thesis
    using attach_update [OF assms(1) _ args, of "\<lambda>r. cr_id r = rid \<and> cr_status r = RLaunching" now] assms(2)
    by (auto simp: AttachCardRequest_def)
qed

lemma AttachCardRequestOwned_eq:
  assumes inv: "ledger_inv st" and owner: "owner \<noteq> []" and args: "validateAttachArgs rid k i = Inr ()"
  shows "AttachCardRequestOwned now rid owner k i st =
     (case GetCardRequest rid st of
        Inl e \<Rightarrow> Inl e
      | Inr row \<Rightarrow>
          if cr_launcher_job_id row \<noteq> owner then Inl ErrCardRequestOwnerMismatch
          else if cr_status row \<noteq> RLaunching then Inl ErrCardRequestInvalidTransition
          else Inr ((), st\<lparr>st_requests := update_where (\<lambda>r. cr_id r = rid) (attach_to now k i) (st_requests st)\<rparr>))"
proof -
  let ?P = "\<lambda>r. cr_id r = rid \<and> cr_status r = RLaunching \<and> cr_launcher_job_id r = owner"
  have k: "k = CardRequestTargetKindTask \<or> k = CardRequestTargetKindSession" "i \<noteq> []"
    using args by (auto simp: validateAttachArgs_ok)
  note d = rows_invD [OF inv [unfolded ledger_inv_def, THEN conjunct1]]
  have up: "exec_update ?P (attach_to now k i) st =
      Inr (rows_affected ?P (st_requests st), st\<lparr>st_requests := update_where ?P (attach_to now k i) (st_requests st)\<rparr>)"
    using attach_update [OF inv _ k, of ?P now] by auto
  show ?thesis
  proof (cases "GetCardRequest rid st")
    case (Inl e)
    then have "\<And>r. r \<in> set (st_requests st) \<Longrightarrow> \<not> ?P r"
      by (auto simp: GetCardRequest_def find_None_iff split: option.splits)
    then have "rows_affected ?P (st_requests st) = 0"
      "update_where ?P (attach_to now k i) (st_requests st) = st_requests st"
      by (auto simp: rows_affected_zero update_where_id)
    with up Inl owner args show ?thesis by (simp add: AttachCardRequestOwned_def)
  next
    case (Inr row)
    then have row: "row \<in> set (st_requests st)" "cr_id row = rid" by (auto dest: GetCardRequest_Inr)
    have one: "cr_id r = rid \<longleftrightarrow> r = row" if "r \<in> set (st_requests st)" for r
      using row_by_id [OF d(1) that row(1)] row(2) by auto
    show ?thesis
    proof (cases "?P row")
      case True
      then have "0 < rows_affected ?P (st_requests st)" using row by (auto simp: rows_affected_pos)
      moreover have "update_where ?P (attach_to now k i) (st_requests st) =
          update_where (\<lambda>r. cr_id r = rid) (attach_to now k i) (st_requests st)"
        by (rule update_where_cong) (use one True in auto)
      ultimately show ?thesis using up Inr True owner args by (simp add: AttachCardRequestOwned_def)
    next
      case False
      then have "\<And>r. r \<in> set (st_requests st) \<Longrightarrow> \<not> ?P r" using one by auto
      then have "rows_affected ?P (st_requests st) = 0"
        "update_where ?P (attach_to now k i) (st_requests st) = st_requests st"
        by (auto simp: rows_affected_zero update_where_id)
      with up Inr False row owner args show ?thesis by (auto simp: AttachCardRequestOwned_def)
    qed
  qed
qed

lemma AttachCardRequestOwned_inv [inv_intros]:
  assumes "ledger_inv st" and "AttachCardRequestOwned now rid owner k i st = Inr (u, st')"
  shows "ledger_inv st'"
proof -
  have args: "k = CardRequestTargetKindTask \<or> k = CardRequestTargetKindSession" "i \<noteq> []"
    using assms(2) by (auto simp: AttachCardRequestOwned_def validateAttachArgs_ok)
  show ?thesis
    using attach_update [OF assms(1) _ args, of "\<lambda>r. cr_id r = rid \<and> cr_status r = RLaunching
        \<and> cr_launcher_job_id r = owner" now] assms(2)
    by (auto simp: AttachCardRequestOwned_def split: if_splits)
qed

end
