(* ===== verification/Card_Outcome.thy ===== *)
theory Card_Outcome
  imports Card_Ledger
begin

text \<open>
  The operations of \<open>card_request.go\<close> that close a request (\<open>FinishCardRequest\<close>,
  \<open>FailCardRequest\<close>), reopen it (\<open>RetryCardRequest\<close>) or force it out of its slot
  (\<open>ForceReleaseCardRequest\<close> of \<open>card_request_release.go\<close>), with the outcome they write to the
  card's action log, the force-release barriers of \<open>card_force_release_barrier.go\<close>,
  \<open>CreateAction\<close> of \<open>store.go\<close> and the event ingest it runs (\<open>card_event_ingest.go\<close>).

  \<open>uid\<close> is the identifier \<open>uuid.New()\<close> returns; an INSERT with a taken identifier is refused as
  the table's primary key does.
\<close>

section \<open>Force-release barriers\<close>

definition SetCardForceReleaseBarrier :: "time \<Rightarrow> string \<Rightarrow> orch_store \<Rightarrow> cr_error + orch_store" where
  "SetCardForceReleaseBarrier now cardID st =
     (if cardID \<notin> set (map t_id (st_tasks st)) then Inl (ErrSql ForeignKey)
      else if cardID \<in> set (map fst (st_barriers st)) then
        Inr (st\<lparr>st_barriers := map (\<lambda>(c, t). if c = cardID then (c, now) else (c, t)) (st_barriers st)\<rparr>)
      else Inr (st\<lparr>st_barriers := st_barriers st @ [(cardID, now)]\<rparr>))"

definition ClearCardForceReleaseBarrier :: "string \<Rightarrow> orch_store \<Rightarrow> orch_store" where
  "ClearCardForceReleaseBarrier cardID st =
     st\<lparr>st_barriers := delete_where (\<lambda>b. fst b = cardID) (st_barriers st)\<rparr>"

definition HasCardForceReleaseBarrier :: "string \<Rightarrow> orch_store \<Rightarrow> bool" where
  "HasCardForceReleaseBarrier cardID st \<longleftrightarrow> cardID \<in> set (map fst (st_barriers st))"

section \<open>Event ingest and action records\<close>

record card_event_resolver =
  cev_command :: "string \<Rightarrow> string \<times> bool"
  cev_command_in_tx :: "(string \<Rightarrow> orch_store \<Rightarrow> cr_error + (string \<times> bool)) option"
  cev_workspace_command_in_tx :: "(string \<Rightarrow> orch_store \<Rightarrow> cr_error + (string \<times> bool)) option"

definition cardEventIngestActionTypes :: "string list" where
  "cardEventIngestActionTypes =
     [''child_closed'', ''wake_due'', ''noted'', ''attrs_set'', ''created'', ''edited'',
      ''identity_linked'', ''identity_unlinked'']"

definition cardEventTaskContext ::
  "string \<Rightarrow> orch_store \<Rightarrow> (task_type \<times> string \<times> task_status) option" where
  "cardEventTaskContext taskID st =
     map_option (\<lambda>t. (t_type t, t_project_id t, t_status t)) (find (\<lambda>t. t_id t = taskID) (st_tasks st))"

text \<open>The writer's request id travels in the context: \<open>None\<close> when the context carries none.\<close>

definition writerHoldsCardsLiveRequest :: "string option \<Rightarrow> string \<Rightarrow> orch_store \<Rightarrow> bool" where
  "writerHoldsCardsLiveRequest writer cardID st =
     (case writer of
        None \<Rightarrow> False
      | Some writerRequestID \<Rightarrow>
          if writerRequestID = [] then False
          else case GetCardRequest writerRequestID st of
            Inl _ \<Rightarrow> False
          | Inr row \<Rightarrow> cr_card_id row = cardID \<and> is_active row)"

definition resolve_event_command ::
  "card_event_resolver \<Rightarrow> string \<Rightarrow> string \<Rightarrow> orch_store \<Rightarrow> cr_error + (string \<times> bool)" where
  "resolve_event_command resolver taskID projectID st =
     (if projectID = [] then
        (case find (\<lambda>t. t_id t = taskID) (st_tasks st) of
           None \<Rightarrow> Inl ErrCardRequestNotFound
         | Some t \<Rightarrow>
             (case cev_workspace_command_in_tx resolver of
                None \<Rightarrow> Inr ([], False) | Some f \<Rightarrow> f (t_workspace_id t) st))
      else case cev_command_in_tx resolver of
        Some f \<Rightarrow> f projectID st
      | None \<Rightarrow> Inr (cev_command resolver projectID))"

definition blank_definition :: card_request_definition where
  "blank_definition =
     \<lparr>crd_command_key = [], crd_label = [], crd_run = [], crd_version = [], crd_card_write = False\<rparr>"

text \<open>The struct literal of the ingest: every field not named has its zero value.\<close>

definition event_request :: "string \<Rightarrow> string \<Rightarrow> string \<Rightarrow> card_request" where
  "event_request cardID commandKey causeID =
     \<lparr>cr_id = [], cr_card_id = cardID, cr_command_key = commandKey, cr_cause_id = causeID,
      cr_status = RQueued, cr_instruction = [], cr_launched = blank_definition,
      cr_launcher_job_id = [], cr_target_kind = [], cr_target_id = [], cr_folded_into = [],
      cr_result = [], cr_error = [], cr_created_at = zero_time, cr_updated_at = zero_time\<rparr>"

definition IngestCardEventRequest ::
  "string \<Rightarrow> time \<Rightarrow> string option \<Rightarrow> action \<Rightarrow> card_event_resolver option \<Rightarrow> orch_store
   \<Rightarrow> cr_error + orch_store" where
  "IngestCardEventRequest uid now writer a resolver st =
     (case resolver of
        None \<Rightarrow> Inr st
      | Some rs \<Rightarrow>
          if ac_task_id a = [] then Inr st
          else if ac_type a \<notin> set cardEventIngestActionTypes then Inr st
          else case cardEventTaskContext (ac_task_id a) st of
            None \<Rightarrow> Inr st
          | Some (taskType, projectID, status) \<Rightarrow>
              if taskType \<noteq> TaskTypeCard then Inr st
              else if status \<noteq> Parked \<and> status \<noteq> Working then Inr st
              else and_then (resolve_event_command rs (ac_task_id a) projectID st) (\<lambda>(commandKey, ok).
                if \<not> ok \<or> commandKey = [] then Inr st
                else if writerHoldsCardsLiveRequest writer (ac_task_id a) st then Inr st
                else case CreateCardRequest uid now None (event_request (ac_task_id a) commandKey (ac_id a)) st of
                  Inl ErrCardRequestDuplicateCause \<Rightarrow> Inr st
                | Inl e \<Rightarrow> Inl e
                | Inr (_, st') \<Rightarrow> Inr st'))"

definition insert_action :: "action \<Rightarrow> orch_store \<Rightarrow> cr_error + orch_store" where
  "insert_action a st =
     (if ac_id a \<in> set (map ac_id (st_actions st)) then Inl (ErrSql PrimaryKey)
      else if ac_task_id a \<notin> set (map t_id (st_tasks st)) then Inl (ErrSql ForeignKey)
      else Inr (st\<lparr>st_actions := st_actions st @ [a]\<rparr>))"

definition CreateAction ::
  "string \<Rightarrow> string \<Rightarrow> time \<Rightarrow> string option \<Rightarrow> action \<Rightarrow> card_event_resolver option \<Rightarrow> orch_store
   \<Rightarrow> cr_error + (action \<times> orch_store)" where
  "CreateAction uid ruid now writer a cardEvents st =
     (let a' = a\<lparr>ac_id := (if ac_id a = [] then uid else ac_id a), ac_created_at := now,
                 ac_payload := (if ac_payload a = RawEmpty then Raw (JObj []) else ac_payload a)\<rparr>
      in and_then (insert_action a' st) (\<lambda>st1.
         and_then (IngestCardEventRequest ruid now writer a' cardEvents st1) (\<lambda>st2.
         Inr (a', st2))))"

section \<open>The outcome written to the action log\<close>

record outcome_sibling =
  os_id :: string
  os_command_key :: string

record card_request_outcome_payload =
  op_request_id :: string
  op_command_key :: string
  op_launched_label :: string
  op_launcher_job_id :: string
  op_target_kind :: string
  op_target_id :: string
  op_origin :: string
  op_cause_id :: string
  op_res :: string
  op_error :: string
  op_reason :: string
  op_siblings :: "outcome_sibling list"

text \<open>What \<open>json.Marshal\<close> writes; the texts are taken to be valid UTF-8, which it keeps as they are.\<close>

definition marshal_sibling :: "outcome_sibling \<Rightarrow> json" where
  "marshal_sibling s = JObj [(''id'', JStr (os_id s)), (''command_key'', JStr (os_command_key s))]"

definition marshal_outcome :: "card_request_outcome_payload \<Rightarrow> json" where
  "marshal_outcome p =
     JObj ([(''request_id'', JStr (op_request_id p)), (''command_key'', JStr (op_command_key p)),
            (''launched_label'', JStr (op_launched_label p)),
            (''launcher_job_id'', JStr (op_launcher_job_id p)),
            (''target_kind'', JStr (op_target_kind p)), (''target_id'', JStr (op_target_id p)),
            (''origin'', JStr (op_origin p)), (''cause_id'', JStr (op_cause_id p)),
            (''result'', JStr (op_res p)), (''error'', JStr (op_error p))]
           @ (if op_reason p = [] then [] else [(''reason'', JStr (op_reason p))])
           @ (if op_siblings p = [] then []
              else [(''force_failed_siblings'', JArr (map marshal_sibling (op_siblings p)))]))"

definition blank_outcome :: card_request_outcome_payload where
  "blank_outcome = \<lparr>op_request_id = [], op_command_key = [], op_launched_label = [],
     op_launcher_job_id = [], op_target_kind = [], op_target_id = [], op_origin = [], op_cause_id = [],
     op_res = [], op_error = [], op_reason = [], op_siblings = []\<rparr>"

definition sibling_fields :: "(string \<times> outcome_sibling field_dec) list" where
  "sibling_fields = [(''id'', dec_string (\<lambda>s r. r\<lparr>os_id := s\<rparr>)),
                     (''command_key'', dec_string (\<lambda>s r. r\<lparr>os_command_key := s\<rparr>))]"

definition outcome_fields :: "(string \<times> card_request_outcome_payload field_dec) list" where
  "outcome_fields =
     [(''request_id'', dec_string (\<lambda>s r. r\<lparr>op_request_id := s\<rparr>)),
      (''command_key'', dec_string (\<lambda>s r. r\<lparr>op_command_key := s\<rparr>)),
      (''launched_label'', dec_string (\<lambda>s r. r\<lparr>op_launched_label := s\<rparr>)),
      (''launcher_job_id'', dec_string (\<lambda>s r. r\<lparr>op_launcher_job_id := s\<rparr>)),
      (''target_kind'', dec_string (\<lambda>s r. r\<lparr>op_target_kind := s\<rparr>)),
      (''target_id'', dec_string (\<lambda>s r. r\<lparr>op_target_id := s\<rparr>)),
      (''origin'', dec_string (\<lambda>s r. r\<lparr>op_origin := s\<rparr>)),
      (''cause_id'', dec_string (\<lambda>s r. r\<lparr>op_cause_id := s\<rparr>)),
      (''result'', dec_string (\<lambda>s r. r\<lparr>op_res := s\<rparr>)),
      (''error'', dec_string (\<lambda>s r. r\<lparr>op_error := s\<rparr>)),
      (''reason'', dec_string (\<lambda>s r. r\<lparr>op_reason := s\<rparr>)),
      (''force_failed_siblings'',
        dec_slice \<lparr>os_id = [], os_command_key = []\<rparr> (decode_struct sibling_fields)
          (\<lambda>xs r. r\<lparr>op_siblings := xs\<rparr>))]"

text \<open>\<open>None\<close> is the error of the decoder.\<close>

definition ParseCardRequestOutcomePayload :: "raw_message \<Rightarrow> card_request_outcome_payload option" where
  "ParseCardRequestOutcomePayload payload =
     (if payload = RawEmpty then Some blank_outcome
      else unmarshal_struct outcome_fields payload blank_outcome)"

definition recordCardRequestOutcome ::
  "string \<Rightarrow> time \<Rightarrow> string \<Rightarrow> string \<Rightarrow> string \<Rightarrow> string \<Rightarrow> string \<Rightarrow> outcome_sibling list \<Rightarrow> orch_store
   \<Rightarrow> cr_error + orch_store" where
  "recordCardRequestOutcome uid now rid actionType result errText reason siblings st =
     and_then (GetCardRequest rid st) (\<lambda>row.
     if cr_command_key row = CardRequestCommandKeyGo then Inr st
     else
       let p = \<lparr>op_request_id = cr_id row, op_command_key = cr_command_key row,
                op_launched_label = crd_label (cr_launched row),
                op_launcher_job_id = cr_launcher_job_id row, op_target_kind = cr_target_kind row,
                op_target_id = cr_target_id row, op_origin = CardRequestOrigin (cr_cause_id row),
                op_cause_id = cr_cause_id row, op_res = result, op_error = errText,
                op_reason = reason, op_siblings = siblings\<rparr>;
           a = \<lparr>ac_id = [], ac_task_id = cr_card_id row, ac_type = actionType,
                ac_payload = Raw (marshal_outcome p), ac_from_status = None, ac_to_status = None,
                ac_created_at = zero_time, ac_actor = ''daemon''\<rparr>
       in and_then (CreateAction uid [] now None a None st) (\<lambda>(_, st'). Inr st'))"

definition recordCardRequestTerminalOutcome ::
  "string \<Rightarrow> time \<Rightarrow> string \<Rightarrow> string \<Rightarrow> string \<Rightarrow> string \<Rightarrow> orch_store \<Rightarrow> cr_error + orch_store" where
  "recordCardRequestTerminalOutcome uid now rid actionType result errText st =
     recordCardRequestOutcome uid now rid actionType result errText [] [] st"

section \<open>Finish, fail, retry, force release\<close>

definition finish_row :: "time \<Rightarrow> string \<Rightarrow> card_request \<Rightarrow> card_request" where
  "finish_row now result r = r\<lparr>cr_status := RFinished, cr_result := result, cr_updated_at := now\<rparr>"

definition absorb_row :: "time \<Rightarrow> string \<Rightarrow> card_request \<Rightarrow> card_request" where
  "absorb_row now result r =
     r\<lparr>cr_status := RFinished, cr_result := result, cr_error := [], cr_updated_at := now\<rparr>"

definition folded_under :: "string \<Rightarrow> card_request \<Rightarrow> bool" where
  "folded_under rid r \<longleftrightarrow> cr_folded_into r = rid \<and> cr_status r = RFolded"

definition FinishCardRequest ::
  "string \<Rightarrow> time \<Rightarrow> string \<Rightarrow> string \<Rightarrow> orch_store \<Rightarrow> cr_error + orch_store" where
  "FinishCardRequest uid now rid result st =
     and_then (guard (rid \<noteq> []) (ErrArgument ''id must not be empty'')) (\<lambda>_.
     and_then (GetCardRequest rid st) (\<lambda>row.
     and_then (guard (cr_status row = RAttached) ErrCardRequestInvalidTransition) (\<lambda>_.
     let absorbedResult = ''absorbed by '' @ rid in
     and_then (map_err ErrSql (exec_update (\<lambda>r. cr_id r = rid) (finish_row now result) st)) (\<lambda>(_, st1).
     and_then (map_err ErrSql
       (exec_update (folded_under rid) (absorb_row now absorbedResult) st1)) (\<lambda>(_, st2).
     and_then (map_err ErrSql
       (exec_update (\<lambda>r. cr_card_id r = cr_card_id row \<and> cr_status r = RFailed
                         \<and> cr_created_at r < cr_created_at row \<and> cr_cause_id r = [])
         (absorb_row now absorbedResult) st2)) (\<lambda>(_, st3).
     recordCardRequestTerminalOutcome uid now rid ''command_finished'' result [] st3))))))"

datatype folded_sibling_outcome = FoldedSiblingsRequeue | FoldedSiblingsFail

definition listFoldedCardRequests :: "string \<Rightarrow> orch_store \<Rightarrow> outcome_sibling list" where
  "listFoldedCardRequests rid st =
     map (\<lambda>r. \<lparr>os_id = cr_id r, os_command_key = cr_command_key r\<rparr>)
       (select_order cr_created_at (folded_under rid) (st_requests st))"

definition fail_row :: "time \<Rightarrow> string \<Rightarrow> card_request \<Rightarrow> card_request" where
  "fail_row now errText r = r\<lparr>cr_status := RFailed, cr_error := errText, cr_updated_at := now\<rparr>"

definition fail_folded :: "time \<Rightarrow> string \<Rightarrow> card_request \<Rightarrow> card_request" where
  "fail_folded now errText r =
     r\<lparr>cr_status := RFailed, cr_folded_into := [], cr_error := errText, cr_updated_at := now\<rparr>"

definition requeue_folded :: "time \<Rightarrow> card_request \<Rightarrow> card_request" where
  "requeue_folded now r = r\<lparr>cr_status := RQueued, cr_folded_into := [], cr_updated_at := now\<rparr>"

definition failable :: "string \<Rightarrow> card_request \<Rightarrow> bool" where
  "failable rid r \<longleftrightarrow> cr_id r = rid \<and> cr_status r \<in> {RQueued, RLaunching, RAttached}"

definition failCardRequest ::
  "time \<Rightarrow> string \<Rightarrow> string \<Rightarrow> folded_sibling_outcome \<Rightarrow> orch_store
   \<Rightarrow> cr_error + (outcome_sibling list \<times> orch_store)" where
  "failCardRequest now rid errText siblings st =
     and_then (guard (rid \<noteq> []) (ErrArgument ''id must not be empty'')) (\<lambda>_.
     and_then (map_err ErrSql (exec_update (failable rid) (fail_row now errText) st)) (\<lambda>(n, st1).
     and_then (rowsAffectedOrNotFoundOrInvalid n rid st1) (\<lambda>_.
     case siblings of
       FoldedSiblingsFail \<Rightarrow>
         let folded = listFoldedCardRequests rid st1;
             siblingErrText = ''folded into '' @ rid @ '', which failed: '' @ errText
         in and_then (map_err ErrSql
              (exec_update (folded_under rid) (fail_folded now siblingErrText) st1)) (\<lambda>(_, st2).
            Inr (folded, st2))
     | FoldedSiblingsRequeue \<Rightarrow>
         and_then (map_err ErrSql
           (exec_update (folded_under rid) (requeue_folded now) st1)) (\<lambda>(_, st2). Inr ([], st2)))))"

definition FailCardRequest :: "string \<Rightarrow> time \<Rightarrow> string \<Rightarrow> string \<Rightarrow> orch_store \<Rightarrow> cr_error + orch_store" where
  "FailCardRequest uid now rid errText st =
     and_then (failCardRequest now rid errText FoldedSiblingsRequeue st) (\<lambda>(_, st').
     recordCardRequestTerminalOutcome uid now rid ''command_failed'' [] errText st')"

definition retry_row :: "time \<Rightarrow> card_request \<Rightarrow> card_request" where
  "retry_row now r =
     r\<lparr>cr_status := RQueued, cr_error := [], cr_launched := blank_definition,
       cr_launcher_job_id := [], cr_target_kind := [], cr_target_id := [], cr_result := [],
       cr_updated_at := now\<rparr>"

definition retry_error :: "sql_error \<Rightarrow> cr_error" where
  "retry_error e = (case e of UniqueCauseId \<Rightarrow> ErrCardRequestDuplicateCause | _ \<Rightarrow> ErrSql e)"

definition RetryCardRequest :: "time \<Rightarrow> string \<Rightarrow> orch_store \<Rightarrow> cr_error + orch_store" where
  "RetryCardRequest now rid st =
     and_then (guard (rid \<noteq> []) (ErrArgument ''id must not be empty'')) (\<lambda>_.
     and_then (map_err retry_error
       (exec_update (\<lambda>r. cr_id r = rid \<and> cr_status r = RFailed) (retry_row now) st)) (\<lambda>(n, st1).
     and_then (rowsAffectedOrNotFoundOrInvalid n rid st1) (\<lambda>_.
     and_then (GetCardRequest rid st1) (\<lambda>row.
     Inr (ClearCardForceReleaseBarrier (cr_card_id row) st1)))))"

definition ForceReleaseCardRequest ::
  "string \<Rightarrow> time \<Rightarrow> string \<Rightarrow> string \<Rightarrow> orch_store \<Rightarrow> cr_error + (outcome_sibling list \<times> orch_store)" where
  "ForceReleaseCardRequest uid now rid reason0 st =
     (let reason = (if reason0 = [] then ''force-released by operator'' else reason0) in
      and_then (failCardRequest now rid reason FoldedSiblingsFail st) (\<lambda>(siblings, st1).
      and_then (GetCardRequest rid st1) (\<lambda>row.
      and_then (SetCardForceReleaseBarrier now (cr_card_id row) st1) (\<lambda>st2.
      and_then (recordCardRequestOutcome uid now rid ''command_force_released'' [] [] reason siblings st2)
        (\<lambda>st3. Inr (siblings, st3))))))"

end
