(* ===== verification/Card_Outcome_Facts.thy ===== *)
theory Card_Outcome_Facts
  imports Card_Outcome
begin

text \<open>
  What the closing operations of the ledger do to its rows, branch by branch, and that each keeps
  the ledger invariant.
\<close>

section \<open>Fields written by the row updates\<close>

lemma finish_row_simps [simp]:
  "cr_id (finish_row now res r) = cr_id r" "cr_card_id (finish_row now res r) = cr_card_id r"
  "cr_cause_id (finish_row now res r) = cr_cause_id r" "cr_status (finish_row now res r) = RFinished"
  "cr_command_key (finish_row now res r) = cr_command_key r"
  "cr_folded_into (finish_row now res r) = cr_folded_into r" "\<not> is_active (finish_row now res r)"
  by (simp_all add: finish_row_def is_active_def)

lemma absorb_row_simps [simp]:
  "cr_id (absorb_row now res r) = cr_id r" "cr_card_id (absorb_row now res r) = cr_card_id r"
  "cr_cause_id (absorb_row now res r) = cr_cause_id r" "cr_status (absorb_row now res r) = RFinished"
  "\<not> is_active (absorb_row now res r)"
  by (simp_all add: absorb_row_def is_active_def)

lemma fail_row_simps [simp]:
  "cr_id (fail_row now err r) = cr_id r" "cr_card_id (fail_row now err r) = cr_card_id r"
  "cr_cause_id (fail_row now err r) = cr_cause_id r" "cr_status (fail_row now err r) = RFailed"
  "cr_command_key (fail_row now err r) = cr_command_key r"
  "cr_folded_into (fail_row now err r) = cr_folded_into r" "\<not> is_active (fail_row now err r)"
  by (simp_all add: fail_row_def is_active_def)

lemma fail_folded_simps [simp]:
  "cr_id (fail_folded now err r) = cr_id r" "cr_card_id (fail_folded now err r) = cr_card_id r"
  "cr_cause_id (fail_folded now err r) = cr_cause_id r" "cr_status (fail_folded now err r) = RFailed"
  "\<not> is_active (fail_folded now err r)"
  by (simp_all add: fail_folded_def is_active_def)

lemma requeue_folded_simps [simp]:
  "cr_id (requeue_folded now r) = cr_id r" "cr_card_id (requeue_folded now r) = cr_card_id r"
  "cr_cause_id (requeue_folded now r) = cr_cause_id r" "cr_status (requeue_folded now r) = RQueued"
  "cr_created_at (requeue_folded now r) = cr_created_at r" "\<not> is_active (requeue_folded now r)"
  by (simp_all add: requeue_folded_def is_active_def)

lemma retry_row_simps [simp]:
  "cr_id (retry_row now r) = cr_id r" "cr_card_id (retry_row now r) = cr_card_id r"
  "cr_cause_id (retry_row now r) = cr_cause_id r" "cr_status (retry_row now r) = RQueued"
  "\<not> is_active (retry_row now r)"
  by (simp_all add: retry_row_def is_active_def)

section \<open>Records and barriers leave the ledger alone\<close>

lemma CreateAction_no_events:
  "CreateAction uid ruid now w a None st =
     (let a' = a\<lparr>ac_id := (if ac_id a = [] then uid else ac_id a), ac_created_at := now,
                 ac_payload := (if ac_payload a = RawEmpty then Raw (JObj []) else ac_payload a)\<rparr>
      in and_then (insert_action a' st) (\<lambda>st'. Inr (a', st')))"
  by (simp add: CreateAction_def IngestCardEventRequest_def Let_def)

lemma insert_action_Inr:
  "insert_action a st = Inr st' \<longleftrightarrow>
     ac_id a \<notin> set (map ac_id (st_actions st)) \<and> ac_task_id a \<in> set (map t_id (st_tasks st))
     \<and> st' = st\<lparr>st_actions := st_actions st @ [a]\<rparr>"
  by (auto simp: insert_action_def)

lemma record_frame:
  assumes "recordCardRequestOutcome uid now rid ty res err reason sibs st = Inr st'"
  shows "\<exists>new. st' = st\<lparr>st_actions := st_actions st @ new\<rparr> \<and> ac_id ` set new \<subseteq> {uid}"
  using assms
  by (auto simp: recordCardRequestOutcome_def CreateAction_no_events Let_def insert_action_Inr
      split: if_splits intro: exI [of _ "[]"])

lemma record_ok:
  assumes "ledger_inv st" and "r \<in> set (st_requests st)" and "uid \<notin> set (map ac_id (st_actions st))"
  shows "is_ok (recordCardRequestOutcome uid now (cr_id r) ty res err reason sibs st)"
proof -
  have "cr_card_id r \<in> t_id ` set (st_tasks st)" using assms(1,2) by (auto simp: ledger_inv_def)
  then show ?thesis
    using GetCardRequest_eq [OF assms(1,2)] assms(3)
    by (auto simp: recordCardRequestOutcome_def CreateAction_no_events Let_def insert_action_def)
qed

lemma ledger_inv_cong:
  "st_requests st' = st_requests st \<Longrightarrow> st_tasks st' = st_tasks st \<Longrightarrow> ledger_inv st' = ledger_inv st"
  by (simp add: ledger_inv_def)

lemma ledger_inv_actions [simp]: "ledger_inv (st\<lparr>st_actions := as\<rparr>) = ledger_inv st"
  by (simp add: ledger_inv_def)

lemma ledger_inv_barriers [simp]: "ledger_inv (st\<lparr>st_barriers := bs\<rparr>) = ledger_inv st"
  by (simp add: ledger_inv_def)

lemma record_inv:
  "recordCardRequestOutcome uid now rid ty res err reason sibs st = Inr st' \<Longrightarrow> ledger_inv st \<Longrightarrow> ledger_inv st'"
  by (auto dest!: record_frame)

lemma SetBarrier_frame:
  "SetCardForceReleaseBarrier now c st = Inr st' \<Longrightarrow>
     \<exists>bs. st' = st\<lparr>st_barriers := bs\<rparr> \<and> c \<in> set (map fst bs)
       \<and> set (map fst bs) = insert c (set (map fst (st_barriers st)))"
  by (force simp: SetCardForceReleaseBarrier_def image_iff split: if_splits)

lemma SetBarrier_keys:
  assumes "SetCardForceReleaseBarrier now c st = Inr st'"
  shows "fst ` set (st_barriers st') = insert c (fst ` set (st_barriers st))"
proof -
  obtain bs where "st' = st\<lparr>st_barriers := bs\<rparr>" "set (map fst bs) = insert c (set (map fst (st_barriers st)))"
    using SetBarrier_frame [OF assms] by blast
  then show ?thesis by simp
qed

section \<open>Finish\<close>

definition absorbable :: "card_request \<Rightarrow> card_request \<Rightarrow> bool" where
  "absorbable row r \<longleftrightarrow> cr_card_id r = cr_card_id row \<and> cr_status r = RFailed
     \<and> cr_created_at r < cr_created_at row \<and> cr_cause_id r = []"

definition finish_map :: "time \<Rightarrow> string \<Rightarrow> card_request \<Rightarrow> card_request \<Rightarrow> card_request" where
  "finish_map now result row r =
     (if cr_id r = cr_id row then finish_row now result r
      else if folded_under (cr_id row) r \<or> absorbable row r
        then absorb_row now (''absorbed by '' @ cr_id row) r
      else r)"

lemma finish_map_inv:
  assumes inv: "rows_inv rows" and row: "row \<in> set rows" "cr_status row = RAttached"
  shows "rows_inv (map (finish_map now result row) rows)"
proof (rule rows_inv_map [OF inv])
  note d = rows_invD [OF inv]
  show "cr_id (finish_map now result row r) = cr_id r \<and> cr_card_id (finish_map now result row r) = cr_card_id r
      \<and> cr_cause_id (finish_map now result row r) = cr_cause_id r
      \<and> (is_active (finish_map now result row r) \<longrightarrow> is_active r \<and> finish_map now result row r = r)
      \<and> (cr_status r = RFailed \<longrightarrow> cr_status (finish_map now result row r) = RFailed \<or> cr_cause_id r = [])
      \<and> (cr_status (finish_map now result row r) = RFolded \<longrightarrow> finish_map now result row r = r)"
    if "r \<in> set rows" for r
    using that row row_by_id [OF d(1) that row(1)]
    by (auto simp: finish_map_def folded_under_def absorbable_def)
  show "cr_status (finish_map now result row q) \<noteq> RFolded"
    if "r \<in> set rows" "is_active r" "\<not> is_active (finish_map now result row r)" "q \<in> set rows"
      "cr_status q = RFolded" "cr_folded_into q = cr_id r" for r q
    using that row by (auto simp: finish_map_def folded_under_def absorbable_def is_active_def split: if_splits)
qed

lemma finish_eq:
  assumes inv: "ledger_inv st" and row: "row \<in> set (st_requests st)" "cr_status row = RAttached"
  shows "FinishCardRequest uid now (cr_id row) result st =
     recordCardRequestTerminalOutcome uid now (cr_id row) ''command_finished'' result []
       (st\<lparr>st_requests := map (finish_map now result row) (st_requests st)\<rparr>)"
proof -
  let ?rid = "cr_id row" and ?abs = "absorb_row now (''absorbed by '' @ cr_id row)"
  note d = rows_invD [OF inv [unfolded ledger_inv_def, THEN conjunct1]]
  let ?st1 = "st\<lparr>st_requests := update_where (\<lambda>r. cr_id r = ?rid) (finish_row now result) (st_requests st)\<rparr>"
  let ?st2 = "?st1\<lparr>st_requests := update_where (folded_under ?rid) ?abs (st_requests ?st1)\<rparr>"
  let ?st3 = "?st2\<lparr>st_requests := update_where (absorbable row) ?abs (st_requests ?st2)\<rparr>"
  have one: "r = row" if "r \<in> set (st_requests st)" "cr_id r = ?rid" for r
    using row_by_id [OF d(1) that(1) row(1) that(2)] .
  have u1: "exec_update (\<lambda>r. cr_id r = ?rid) (finish_row now result) st =
      Inr (rows_affected (\<lambda>r. cr_id r = ?rid) (st_requests st), ?st1)"
    by (rule exec_update_shrinks [OF d(2,3)]) (use row(2) in \<open>auto dest: one\<close>)
  then have i1: "slot_index (st_requests ?st1)" "cause_index (st_requests ?st1)"
    by (auto simp: exec_update_Inr)
  have u2: "exec_update (folded_under ?rid) ?abs ?st1 =
      Inr (rows_affected (folded_under ?rid) (st_requests ?st1), ?st2)"
    by (rule exec_update_shrinks [OF i1]) (auto simp: folded_under_def)
  then have i2: "slot_index (st_requests ?st2)" "cause_index (st_requests ?st2)"
    by (auto simp: exec_update_Inr)
  have u3: "exec_update (absorbable row) ?abs ?st2 =
      Inr (rows_affected (absorbable row) (st_requests ?st2), ?st3)"
    by (rule exec_update_shrinks [OF i2]) (auto simp: absorbable_def)
  have "?st3 = st\<lparr>st_requests := map (finish_map now result row) (st_requests st)\<rparr>"
    by (auto simp: update_where_def finish_map_def folded_under_def absorbable_def)
  with u1 u2 u3 show ?thesis
    using GetCardRequest_eq [OF inv row(1)] d(4) [OF row(1)] row(2)
    by (simp add: FinishCardRequest_def Let_def row_ok_def absorbable_def [abs_def])
qed

lemma FinishCardRequest_cases:
  assumes "FinishCardRequest uid now rid result st = Inr st'" and inv: "ledger_inv st"
  obtains row where "row \<in> set (st_requests st)" "cr_id row = rid" "cr_status row = RAttached"
proof -
  from assms(1) obtain row where "GetCardRequest rid st = Inr row" "cr_status row = RAttached"
    by (auto simp: FinishCardRequest_def)
  with that show ?thesis by (auto dest: GetCardRequest_Inr)
qed

lemma FinishCardRequest_inv [inv_intros]:
  assumes "ledger_inv st" and ok: "FinishCardRequest uid now rid result st = Inr st'"
  shows "ledger_inv st'"
proof -
  obtain row where row: "row \<in> set (st_requests st)" "cr_id row = rid" "cr_status row = RAttached"
    using FinishCardRequest_cases [OF ok assms(1)] .
  have "ledger_inv (st\<lparr>st_requests := map (finish_map now result row) (st_requests st)\<rparr>)"
    by (rule ledger_inv_map [OF assms(1)])
       (use finish_map_inv row assms(1) in \<open>auto simp: ledger_inv_def finish_map_def\<close>)
  then show ?thesis
    using ok finish_eq [OF assms(1) row(1,3)] row(2)
    by (auto simp: recordCardRequestTerminalOutcome_def intro: record_inv)
qed

section \<open>Fail and force release\<close>

definition is_open :: "card_request \<Rightarrow> bool" where
  "is_open r \<longleftrightarrow> cr_status r = RQueued \<or> cr_status r = RLaunching \<or> cr_status r = RAttached"

lemma failable_iff: "failable rid r \<longleftrightarrow> cr_id r = rid \<and> is_open r"
  by (auto simp: failable_def is_open_def)

definition sibling_map ::
  "time \<Rightarrow> string \<Rightarrow> string \<Rightarrow> folded_sibling_outcome \<Rightarrow> card_request \<Rightarrow> card_request" where
  "sibling_map now rid errText sib r =
     (case sib of
        FoldedSiblingsRequeue \<Rightarrow> requeue_folded now r
      | FoldedSiblingsFail \<Rightarrow>
          fail_folded now (''folded into '' @ rid @ '', which failed: '' @ errText) r)"

definition fail_map ::
  "time \<Rightarrow> string \<Rightarrow> string \<Rightarrow> folded_sibling_outcome \<Rightarrow> card_request \<Rightarrow> card_request" where
  "fail_map now rid errText sib r =
     (if cr_id r = rid then fail_row now errText r
      else if folded_under rid r then sibling_map now rid errText sib r
      else r)"

lemma sibling_map_simps [simp]:
  "cr_id (sibling_map now rid e sib r) = cr_id r" "cr_card_id (sibling_map now rid e sib r) = cr_card_id r"
  "cr_cause_id (sibling_map now rid e sib r) = cr_cause_id r" "\<not> is_active (sibling_map now rid e sib r)"
  "cr_status (sibling_map now rid e sib r) =
     (case sib of FoldedSiblingsRequeue \<Rightarrow> RQueued | FoldedSiblingsFail \<Rightarrow> RFailed)"
  by (cases sib; simp add: sibling_map_def)+

lemma fail_map_inv:
  assumes inv: "rows_inv rows" and row: "row \<in> set rows" "is_open row"
  shows "rows_inv (map (fail_map now (cr_id row) err sib) rows)"
proof (rule rows_inv_map [OF inv])
  let ?g = "fail_map now (cr_id row) err sib"
  note d = rows_invD [OF inv]
  show "cr_id (?g r) = cr_id r \<and> cr_card_id (?g r) = cr_card_id r \<and> cr_cause_id (?g r) = cr_cause_id r
      \<and> (is_active (?g r) \<longrightarrow> is_active r \<and> ?g r = r)
      \<and> (cr_status r = RFailed \<longrightarrow> cr_status (?g r) = RFailed \<or> cr_cause_id r = [])
      \<and> (cr_status (?g r) = RFolded \<longrightarrow> ?g r = r)" if "r \<in> set rows" for r
    using row_by_id [OF d(1) that row(1)]
    by (auto simp: fail_map_def folded_under_def split: folded_sibling_outcome.splits)
  show "cr_status (?g q) \<noteq> RFolded"
    if "r \<in> set rows" "is_active r" "\<not> is_active (?g r)" "q \<in> set rows"
      "cr_status q = RFolded" "cr_folded_into q = cr_id r" for r q
    using that by (auto simp: fail_map_def folded_under_def is_active_def
        split: if_splits folded_sibling_outcome.splits)
qed

lemma update_none:
  assumes "\<And>r. r \<in> set (st_requests st) \<Longrightarrow> \<not> P r"
  shows "rows_affected P (st_requests st) = 0" "st\<lparr>st_requests := update_where P f (st_requests st)\<rparr> = st"
  using assms by (simp_all add: rows_affected_zero update_where_id)

lemma listFolded_after_fail:
  "listFoldedCardRequests rid
     (st\<lparr>st_requests := update_where (failable rid') (fail_row now err) (st_requests st)\<rparr>) =
   listFoldedCardRequests rid st"
proof -
  have "filter (folded_under rid) (update_where (failable rid') (fail_row now err) rows) =
      filter (folded_under rid) rows" for rows
    by (induction rows) (auto simp: update_where_def folded_under_def failable_iff is_open_def)
  then show ?thesis by (simp add: listFoldedCardRequests_def select_order_def)
qed

lemma fail_eq:
  assumes inv: "ledger_inv st" and rid: "rid \<noteq> []"
  shows "failCardRequest now rid err sib st =
     (case find (\<lambda>r. cr_id r = rid) (st_requests st) of
        None \<Rightarrow> Inl ErrCardRequestNotFound
      | Some row \<Rightarrow>
          if is_open row then
            Inr (case sib of FoldedSiblingsRequeue \<Rightarrow> [] | FoldedSiblingsFail \<Rightarrow> listFoldedCardRequests rid st,
                 st\<lparr>st_requests := map (fail_map now rid err sib) (st_requests st)\<rparr>)
          else Inl ErrCardRequestInvalidTransition)"
proof -
  note d = rows_invD [OF inv [unfolded ledger_inv_def, THEN conjunct1]]
  let ?st1 = "st\<lparr>st_requests := update_where (failable rid) (fail_row now err) (st_requests st)\<rparr>"
  have u1: "exec_update (failable rid) (fail_row now err) st =
      Inr (rows_affected (failable rid) (st_requests st), ?st1)"
    by (rule exec_update_shrinks [OF d(2,3)]) (auto simp: failable_iff is_open_def)
  then have i1: "slot_index (st_requests ?st1)" "cause_index (st_requests ?st1)"
    by (auto simp: exec_update_Inr)
  have u2: "exec_update (folded_under rid) (sibling_map now rid err sib) ?st1 =
      Inr (rows_affected (folded_under rid) (st_requests ?st1),
        ?st1\<lparr>st_requests := update_where (folded_under rid) (sibling_map now rid err sib) (st_requests ?st1)\<rparr>)"
    by (rule exec_update_shrinks [OF i1]) (auto simp: folded_under_def)
  show ?thesis
  proof (cases "find (\<lambda>r. cr_id r = rid) (st_requests st)")
    case None
    then have "\<not> failable rid r" if "r \<in> set (st_requests st)" for r
      using that by (auto simp: find_None_iff failable_iff)
    note none = update_none [of st "failable rid", OF this]
    with u1 None rid show ?thesis
      by (simp add: failCardRequest_def rowsAffectedOrNotFoundOrInvalid_def GetCardRequest_def)
  next
    case (Some row)
    then have row: "row \<in> set (st_requests st)" "cr_id row = rid" by (auto dest: find_SomeD)
    have one: "r = row" if "r \<in> set (st_requests st)" "cr_id r = rid" for r
      using row_by_id [OF d(1) that(1) row(1)] that(2) row(2) by simp
    show ?thesis
    proof (cases "is_open row")
      case True
      then have aff: "0 < rows_affected (failable rid) (st_requests st)"
        using row by (auto simp: rows_affected_pos failable_iff)
      have map: "update_where (folded_under rid) (sibling_map now rid err sib) (st_requests ?st1) =
          map (fail_map now rid err sib) (st_requests st)"
        using True by (auto simp: update_where_def fail_map_def failable_iff folded_under_def is_open_def dest: one)
      show ?thesis
        using True Some u1 u2 aff map rid
        by (cases sib)
           (simp_all add: failCardRequest_def rowsAffectedOrNotFoundOrInvalid_def
             sibling_map_def [abs_def] Let_def listFolded_after_fail)
    next
      case False
      then have "\<not> failable rid r" if "r \<in> set (st_requests st)" for r
        using that by (auto simp: failable_iff dest: one)
      note none = update_none [of st "failable rid", OF this]
      with u1 Some False rid show ?thesis
        by (simp add: failCardRequest_def rowsAffectedOrNotFoundOrInvalid_def GetCardRequest_def)
    qed
  qed
qed

lemma failCardRequest_Inr:
  assumes inv: "ledger_inv st" and ok: "failCardRequest now rid err sib st = Inr (sibs, st')"
  obtains row where "row \<in> set (st_requests st)" "cr_id row = rid" "is_open row"
    "st' = st\<lparr>st_requests := map (fail_map now rid err sib) (st_requests st)\<rparr>"
    "sibs = (case sib of FoldedSiblingsRequeue \<Rightarrow> [] | FoldedSiblingsFail \<Rightarrow> listFoldedCardRequests rid st)"
proof -
  have rid: "rid \<noteq> []" using ok by (auto simp: failCardRequest_def)
  from ok that show ?thesis
    unfolding fail_eq [OF inv rid] by (auto split: option.splits if_splits dest: find_SomeD)
qed

lemma failCardRequest_inv [inv_intros]:
  assumes inv: "ledger_inv st" and ok: "failCardRequest now rid err sib st = Inr (sibs, st')"
  shows "ledger_inv st'"
proof -
  obtain row where row: "row \<in> set (st_requests st)" "cr_id row = rid" "is_open row"
    and st': "st' = st\<lparr>st_requests := map (fail_map now rid err sib) (st_requests st)\<rparr>"
    using failCardRequest_Inr [OF inv ok] by metis
  show ?thesis
    unfolding st'
    by (rule ledger_inv_map [OF inv])
       (use fail_map_inv row inv in \<open>auto simp: ledger_inv_def fail_map_def\<close>)
qed

lemma FailCardRequest_inv [inv_intros]:
  "ledger_inv st \<Longrightarrow> FailCardRequest uid now rid err st = Inr st' \<Longrightarrow> ledger_inv st'"
  by (auto simp: FailCardRequest_def recordCardRequestTerminalOutcome_def
      intro: record_inv failCardRequest_inv)

lemma ForceReleaseCardRequest_inv [inv_intros]:
  assumes "ledger_inv st" and "ForceReleaseCardRequest uid now rid reason st = Inr (sibs, st')"
  shows "ledger_inv st'"
proof -
  from assms(2) obtain st1 st2 c where
    s: "failCardRequest now rid (if reason = [] then ''force-released by operator'' else reason)
          FoldedSiblingsFail st = Inr (sibs, st1)"
      "SetCardForceReleaseBarrier now c st1 = Inr st2"
    and rec: "recordCardRequestOutcome uid now rid ''command_force_released'' [] []
          (if reason = [] then ''force-released by operator'' else reason) sibs st2 = Inr st'"
    by (auto simp: ForceReleaseCardRequest_def Let_def)
  have "ledger_inv st2"
    using SetBarrier_frame [OF s(2)] failCardRequest_inv [OF assms(1) s(1)] by auto
  with rec show ?thesis by (rule record_inv)
qed

section \<open>Closing an open request always succeeds\<close>

lemma finish_ok:
  assumes inv: "ledger_inv st" and row: "row \<in> set (st_requests st)" "cr_status row = RAttached"
    and uid: "uid \<notin> ac_id ` set (st_actions st)"
  obtains new where "FinishCardRequest uid now (cr_id row) result st =
      Inr (st\<lparr>st_requests := map (finish_map now result row) (st_requests st),
              st_actions := st_actions st @ new\<rparr>)" "ac_id ` set new \<subseteq> {uid}"
proof -
  let ?st = "st\<lparr>st_requests := map (finish_map now result row) (st_requests st)\<rparr>"
  have inv': "ledger_inv ?st"
    by (rule ledger_inv_map [OF inv])
       (use finish_map_inv row inv in \<open>auto simp: ledger_inv_def finish_map_def\<close>)
  have "finish_map now result row row \<in> set (st_requests ?st)" using row by simp
  from record_ok [OF inv' this, of uid now "''command_finished''" result "[]" "[]" "[]"] uid obtain st' where
    st': "recordCardRequestTerminalOutcome uid now (cr_id row) ''command_finished'' result [] ?st = Inr st'"
    by (auto simp: recordCardRequestTerminalOutcome_def finish_map_def is_ok_iff)
  then obtain new where "st' = ?st\<lparr>st_actions := st_actions ?st @ new\<rparr>" "ac_id ` set new \<subseteq> {uid}"
    by (auto simp: recordCardRequestTerminalOutcome_def dest!: record_frame)
  with st' finish_eq [OF inv row] that show ?thesis by auto
qed

lemma fail_ok:
  assumes inv: "ledger_inv st" and row: "row \<in> set (st_requests st)" "is_open row"
    and uid: "uid \<notin> ac_id ` set (st_actions st)"
  obtains new where "FailCardRequest uid now (cr_id row) err st =
      Inr (st\<lparr>st_requests := map (fail_map now (cr_id row) err FoldedSiblingsRequeue) (st_requests st),
              st_actions := st_actions st @ new\<rparr>)" "ac_id ` set new \<subseteq> {uid}"
proof -
  let ?g = "fail_map now (cr_id row) err FoldedSiblingsRequeue"
  let ?st = "st\<lparr>st_requests := map ?g (st_requests st)\<rparr>"
  note d = rows_invD [OF inv [unfolded ledger_inv_def, THEN conjunct1]]
  have "find (\<lambda>r. cr_id r = cr_id row) (st_requests st) = Some row" by (rule find_distinct_key [OF d(1) row(1)])
  moreover have "cr_id row \<noteq> []" using d(4) [OF row(1)] by (simp add: row_ok_def)
  ultimately have f: "failCardRequest now (cr_id row) err FoldedSiblingsRequeue st = Inr ([], ?st)"
    using fail_eq [OF inv] row by simp
  from failCardRequest_inv [OF inv f] have inv': "ledger_inv ?st" .
  have "?g row \<in> set (st_requests ?st)" using row by simp
  from record_ok [OF inv' this, of uid now "''command_failed''" "[]" err "[]" "[]"] uid obtain st' where
    st': "recordCardRequestTerminalOutcome uid now (cr_id row) ''command_failed'' [] err ?st = Inr st'"
    by (auto simp: recordCardRequestTerminalOutcome_def fail_map_def is_ok_iff)
  then obtain new where "st' = ?st\<lparr>st_actions := st_actions ?st @ new\<rparr>" "ac_id ` set new \<subseteq> {uid}"
    by (auto simp: recordCardRequestTerminalOutcome_def dest!: record_frame)
  with st' f that show ?thesis by (auto simp: FailCardRequest_def)
qed

section \<open>Retry and ingest\<close>

lemma RetryCardRequest_inv [inv_intros]:
  assumes inv: "ledger_inv st" and ok: "RetryCardRequest now rid st = Inr st'"
  shows "ledger_inv st'"
proof -
  let ?P = "\<lambda>r. cr_id r = rid \<and> cr_status r = RFailed"
  note d = rows_invD [OF inv [unfolded ledger_inv_def, THEN conjunct1]]
  from ok obtain n st1 c where up: "exec_update ?P (retry_row now) st = Inr (n, st1)"
    and st': "st' = ClearCardForceReleaseBarrier c st1"
    by (auto simp: RetryCardRequest_def)
  have "ledger_inv st1"
    by (rule ledger_inv_update [OF inv up]; (rule folded_ok_update [OF d(5)])?)
       (use d(4) in \<open>auto simp: row_ok_def is_active_def\<close>)
  then show ?thesis by (simp add: st' ClearCardForceReleaseBarrier_def)
qed

lemma IngestCardEventRequest_inv [inv_intros]:
  assumes "ledger_inv st" and "uid \<noteq> []" and "IngestCardEventRequest uid now w a rs st = Inr st'"
  shows "ledger_inv st'"
proof -
  from assms(3) have "st' = st \<or> (\<exists>req row. CreateCardRequest uid now None req st = Inr (row, st'))"
    by (auto simp: IngestCardEventRequest_def
        split: option.splits if_splits sum.splits cr_error.splits prod.splits)
  with assms(1,2) show ?thesis using CreateCardRequest_inv by blast
qed

lemma CreateAction_inv [inv_intros]:
  assumes "ledger_inv st" and "ruid \<noteq> []" and "CreateAction uid ruid now w a rs st = Inr (a', st')"
  shows "ledger_inv st'"
proof -
  from assms(3) obtain x st1 where "insert_action x st = Inr st1"
    and ing: "IngestCardEventRequest ruid now w x rs st1 = Inr st'"
    by (auto simp: CreateAction_def Let_def)
  then have "ledger_inv st1" using assms(1) by (auto simp: insert_action_Inr)
  then show ?thesis using assms(2) ing by (rule IngestCardEventRequest_inv)
qed

end
