(* ===== verification/Card_Release.thy ===== *)
theory Card_Release
  imports Card_Outcome_Facts
begin

text \<open>
  \<open>card_request_release.go\<close>, \<open>card_request_dispatch.go\<close> and \<open>GCCardRequests\<close> of
  \<open>store.go\<close>: the passes that free slots whose work has ended, the startup recovery, the guarded
  claim of the automatic dispatcher with its repository wrapper, and the garbage collection.

  A pass lists its rows once and then handles each row in a transaction of its own; a row whose
  transaction fails is skipped. \<open>gen\<close> gives the identifier that \<open>uuid.New()\<close> yields for the
  record of each request.
\<close>

section \<open>Passes over listed rows\<close>

record slot_outcome =
  so_request_id :: string
  so_status :: string

fun per_row_pass ::
  "(card_request \<Rightarrow> orch_store \<Rightarrow> cr_error + (slot_outcome option \<times> orch_store))
   \<Rightarrow> card_request list \<Rightarrow> orch_store \<Rightarrow> slot_outcome list \<times> orch_store" where
  "per_row_pass body [] st = ([], st)"
| "per_row_pass body (req # reqs) st =
     (case in_tx st (body req st) of
        (Inl _, st1) \<Rightarrow> per_row_pass body reqs st1
      | (Inr outcome, st1) \<Rightarrow>
          (case per_row_pass body reqs st1 of
             (os, st2) \<Rightarrow> ((case outcome of None \<Rightarrow> os | Some x \<Rightarrow> x # os), st2)))"

text \<open>The result pairs \<open>finished\<close> with \<open>ok\<close>: \<open>ok\<close> is false while the work is still live.\<close>

definition continuationTerminalOutcome :: "card_request \<Rightarrow> orch_store \<Rightarrow> bool \<times> bool" where
  "continuationTerminalOutcome req st =
     (if cr_target_kind req = CardRequestTargetKindTask then
        (case GetTaskStatus (cr_target_id req) st of
           None \<Rightarrow> (False, True)
         | Some status \<Rightarrow>
             if \<not> IsTerminalStatus status then (False, False) else (status = Done, True))
      else if cr_target_kind req = CardRequestTargetKindSession then
        (case find (\<lambda>j. jb_id j = cr_target_id req) (st_jobs st) of
           None \<Rightarrow> (False, True)
         | Some j \<Rightarrow>
             if jb_status j = ''completed'' then (True, True)
             else if jb_status j = ''failed'' then (False, True)
             else (False, False))
      else (False, False))"

definition reconcile_slot_row ::
  "(string \<Rightarrow> string) \<Rightarrow> time \<Rightarrow> card_request \<Rightarrow> orch_store \<Rightarrow> cr_error + (slot_outcome option \<times> orch_store)" where
  "reconcile_slot_row gen now req st =
     (case continuationTerminalOutcome req st of
        (finished, terminal) \<Rightarrow>
          if \<not> terminal then Inr (None, st)
          else if finished then
            and_then (FinishCardRequest (gen (cr_id req)) now (cr_id req)
              ''continuation reached a terminal successful state'' st) (\<lambda>st'.
            Inr (Some \<lparr>so_request_id = cr_id req, so_status = ''finished''\<rparr>, st'))
          else
            and_then (FailCardRequest (gen (cr_id req)) now (cr_id req)
              ''continuation ended without success'' st) (\<lambda>st'.
            Inr (Some \<lparr>so_request_id = cr_id req, so_status = ''failed''\<rparr>, st')))"

definition ReconcileCardRequestSlots ::
  "(string \<Rightarrow> string) \<Rightarrow> time \<Rightarrow> orch_store \<Rightarrow> slot_outcome list \<times> orch_store" where
  "ReconcileCardRequestSlots gen now st =
     per_row_pass (reconcile_slot_row gen now)
       (select_order cr_created_at (\<lambda>r. cr_status r = RAttached) (st_requests st)) st"

definition launcherJobRowCreationGrace :: duration where
  "launcherJobRowCreationGrace = 60 * 1000000000"

definition launcherJobTerminalOrGone :: "time \<Rightarrow> string \<Rightarrow> time \<Rightarrow> orch_store \<Rightarrow> bool" where
  "launcherJobTerminalOrGone now launcherJobID updatedAt st =
     (case find (\<lambda>j. jb_id j = launcherJobID) (st_jobs st) of
        None \<Rightarrow> now - updatedAt \<ge> launcherJobRowCreationGrace
      | Some j \<Rightarrow> jb_status j = ''completed'' \<or> jb_status j = ''failed'')"

definition attachFoundContinuationOrFail ::
  "(string \<Rightarrow> string) \<Rightarrow> time \<Rightarrow> card_request \<Rightarrow> string \<Rightarrow> orch_store \<Rightarrow> cr_error + (slot_outcome \<times> orch_store)" where
  "attachFoundContinuationOrFail gen now req failReason st =
     (case select_order jb_created_at
        (\<lambda>j. jb_card_request_id j = cr_id req \<and> jb_card_request_id j \<noteq> []
             \<and> jb_id j \<noteq> cr_launcher_job_id req \<and> jb_role j = ''session''
             \<and> jb_created_at j \<ge> cr_updated_at req) (st_jobs st) of
        [] \<Rightarrow>
          and_then (FailCardRequest (gen (cr_id req)) now (cr_id req) failReason st) (\<lambda>st'.
          Inr (\<lparr>so_request_id = cr_id req, so_status = ''failed''\<rparr>, st'))
      | j # _ \<Rightarrow>
          and_then (AttachCardRequest now (cr_id req) CardRequestTargetKindSession (jb_id j) st) (\<lambda>(_, st').
          Inr (\<lparr>so_request_id = cr_id req, so_status = ''attached''\<rparr>, st')))"

definition reconcile_launching_row ::
  "(string \<Rightarrow> string) \<Rightarrow> time \<Rightarrow> card_request \<Rightarrow> orch_store \<Rightarrow> cr_error + (slot_outcome option \<times> orch_store)" where
  "reconcile_launching_row gen now req st =
     (if \<not> launcherJobTerminalOrGone now (cr_launcher_job_id req) (cr_updated_at req) st then Inr (None, st)
      else and_then (attachFoundContinuationOrFail gen now req
        ''launcher exited without creating a continuation'' st) (\<lambda>(o', st'). Inr (Some o', st')))"

definition ReconcileLaunchingCardRequests ::
  "(string \<Rightarrow> string) \<Rightarrow> time \<Rightarrow> orch_store \<Rightarrow> slot_outcome list \<times> orch_store" where
  "ReconcileLaunchingCardRequests gen now st =
     per_row_pass (reconcile_launching_row gen now)
       (filter (\<lambda>r. cr_command_key r \<noteq> CardRequestCommandKeyGo)
         (select_order cr_created_at (\<lambda>r. cr_status r = RLaunching) (st_requests st))) st"

definition recover_launching_row ::
  "(string \<Rightarrow> string) \<Rightarrow> time \<Rightarrow> card_request \<Rightarrow> orch_store \<Rightarrow> cr_error + (slot_outcome option \<times> orch_store)" where
  "recover_launching_row gen now req st =
     and_then (attachFoundContinuationOrFail gen now req
       ''launcher exited before creating a continuation (daemon restart recovery)'' st)
       (\<lambda>(o', st'). Inr (Some o', st'))"

definition RecoverLaunchingCardRequests ::
  "(string \<Rightarrow> string) \<Rightarrow> time \<Rightarrow> orch_store \<Rightarrow> slot_outcome list \<times> orch_store" where
  "RecoverLaunchingCardRequests gen now st =
     per_row_pass (recover_launching_row gen now)
       (select_order cr_created_at (\<lambda>r. cr_status r = RLaunching) (st_requests st)) st"

definition ReleaseCardRequestForTerminalTargetWithCard ::
  "string \<Rightarrow> time \<Rightarrow> string \<Rightarrow> string \<Rightarrow> bool \<Rightarrow> orch_store \<Rightarrow> cr_error + (string option \<times> orch_store)" where
  "ReleaseCardRequestForTerminalTargetWithCard uid now targetKind targetID success st =
     (case find (\<lambda>r. cr_target_kind r = targetKind \<and> cr_target_id r = targetID \<and> cr_status r = RAttached)
        (st_requests st) of
        None \<Rightarrow> Inr (None, st)
      | Some row \<Rightarrow>
          and_then
            (if success
             then FinishCardRequest uid now (cr_id row) ''continuation reached a terminal successful state'' st
             else FailCardRequest uid now (cr_id row) ''continuation ended without success'' st) (\<lambda>st'.
          Inr (Some (cr_card_id row), st')))"

section \<open>The guarded claim of the automatic dispatcher\<close>

definition IsCardRequestDispatchSkip :: "cr_error \<Rightarrow> bool" where
  "IsCardRequestDispatchSkip e \<longleftrightarrow>
     e \<in> {ErrNoQueuedCardRequests, ErrCardRequestSlotOccupied, ErrCardNotEligibleForDispatch,
          ErrCardForceReleaseBarrierActive, ErrCardRequestCommandKeyChanged}"

definition PeekOldestQueuedCardRequest :: "string \<Rightarrow> orch_store \<Rightarrow> cr_error + (string \<times> string)" where
  "PeekOldestQueuedCardRequest cardID st =
     (case select_order request_order (queued_of cardID) (st_requests st) of
        [] \<Rightarrow> Inl ErrNoQueuedCardRequests
      | r # _ \<Rightarrow> Inr (cr_id r, cr_command_key r))"

definition failAllQueuedCardRequests ::
  "time \<Rightarrow> string \<Rightarrow> string \<Rightarrow> orch_store \<Rightarrow> cr_error + (nat \<times> orch_store)" where
  "failAllQueuedCardRequests now cardID reason st =
     map_err ErrSql (exec_update (queued_of cardID) (fail_row now reason) st)"

text \<open>The drain survives the error it is reported with, so the result is paired with the tables.\<close>

definition ClaimQueuedCardRequestsForDispatch ::
  "time \<Rightarrow> string \<Rightarrow> string \<Rightarrow> string \<Rightarrow> card_request_definition \<Rightarrow> orch_store
   \<Rightarrow> (cr_error + (card_request \<times> card_request list)) \<times> orch_store" where
  "ClaimQueuedCardRequestsForDispatch now cardID launcherJobID expectedCommandKey def st =
     (let drain = (\<lambda>reason.
        (case failAllQueuedCardRequests now cardID reason st of
           Inl e \<Rightarrow> (Inl e, st)
         | Inr (_, st') \<Rightarrow> (Inl ErrCardNotEligibleForDispatch, st')))
      in case GetTaskStatus cardID st of
        None \<Rightarrow> drain ''card no longer exists''
      | Some status \<Rightarrow>
          if status \<noteq> Parked \<and> status \<noteq> Working
          then drain (''card is \"'' @ status_string status @ ''\", not parked or working'')
          else if HasCardForceReleaseBarrier cardID st then (Inl ErrCardForceReleaseBarrierActive, st)
          else case PeekOldestQueuedCardRequest cardID st of
            Inl e \<Rightarrow> (Inl e, st)
          | Inr (_, headCommandKey) \<Rightarrow>
              if headCommandKey \<noteq> expectedCommandKey then (Inl ErrCardRequestCommandKeyChanged, st)
              else in_tx st (ClaimQueuedCardRequests now cardID launcherJobID def st))"

text \<open>\<open>TaskRepository.ClaimQueuedCardRequestsForDispatch\<close>: a skip commits, any other error rolls back.\<close>

definition repo_claim_for_dispatch ::
  "time \<Rightarrow> string \<Rightarrow> string \<Rightarrow> string \<Rightarrow> card_request_definition \<Rightarrow> orch_store
   \<Rightarrow> (cr_error + (card_request \<times> card_request list)) \<times> orch_store" where
  "repo_claim_for_dispatch now cardID launcherJobID expectedCommandKey def st =
     (case ClaimQueuedCardRequestsForDispatch now cardID launcherJobID expectedCommandKey def st of
        (Inl e, st') \<Rightarrow> if IsCardRequestDispatchSkip e then (Inl e, st') else (Inl e, st)
      | (Inr r, st') \<Rightarrow> (Inr r, st'))"

definition ListCardIDsWithQueuedCardRequests :: "orch_store \<Rightarrow> string list" where
  "ListCardIDsWithQueuedCardRequests st =
     sort (remdups (map cr_card_id (filter (\<lambda>r. cr_status r = RQueued) (st_requests st))))"

section \<open>Garbage collection\<close>

definition gc_collectable :: "time \<Rightarrow> duration \<Rightarrow> card_request \<Rightarrow> bool" where
  "gc_collectable now olderThan r \<longleftrightarrow>
     (cr_status r = RFinished \<or> cr_status r = RFailed)
     \<and> (olderThan > 0 \<longrightarrow> cr_updated_at r < now - olderThan)"

definition preserve_destination :: "card_request \<Rightarrow> op_result \<Rightarrow> op_result" where
  "preserve_destination r x =
     (let accepted = op_result x = ''accepted'' \<and> op_reason_code x = ''request_accepted'' in
      x\<lparr>op_target_task_id := (if cr_target_kind r = ''task'' then cr_target_id r else op_target_task_id x),
        op_target_session_id :=
          (if cr_target_kind r = ''session'' then cr_target_id r else op_target_session_id x),
        op_current_phase :=
          (if accepted \<and> cr_status r = RFailed then ''request_failed''
           else if accepted \<and> cr_status r = RFinished then ''target_started''
           else op_current_phase x)\<rparr>)"

definition GCCardRequests :: "time \<Rightarrow> duration \<Rightarrow> bool \<Rightarrow> orch_store \<Rightarrow> nat \<times> orch_store" where
  "GCCardRequests now olderThan dryRun st =
     (let doomed = filter (gc_collectable now olderThan) (st_requests st) in
      if dryRun then (length doomed, st)
      else (length doomed,
            st\<lparr>st_op_results :=
                 map (\<lambda>x. case find (\<lambda>r. cr_id r = op_target_request_id x) doomed of
                            None \<Rightarrow> x | Some r \<Rightarrow> preserve_destination r x) (st_op_results st),
               st_requests := delete_where (gc_collectable now olderThan) (st_requests st)\<rparr>))"

end
