(* ===== verification/Card_Release_Facts.thy ===== *)
theory Card_Release_Facts
  imports Card_Release
begin

text \<open>
  The passes of \<open>card_request_release.go\<close> free exactly the slots they may free. The three passes
  share one shape, captured by the locale \<open>row_pass\<close>: a row is either kept, and then nothing
  happens, or closed, and then it leaves the status the pass looks at while every other row of that
  status stays as it is.
\<close>

definition same_world :: "orch_store \<Rightarrow> orch_store \<Rightarrow> bool" where
  "same_world st st' \<longleftrightarrow> st_tasks st' = st_tasks st \<and> st_jobs st' = st_jobs st"

definition rows_with :: "request_status \<Rightarrow> orch_store \<Rightarrow> card_request set" where
  "rows_with s st = {r \<in> set (st_requests st). cr_status r = s}"

definition closes :: "request_status \<Rightarrow> string \<Rightarrow> card_request \<Rightarrow> orch_store \<Rightarrow> orch_store \<Rightarrow> bool" where
  "closes s uid req st st' \<longleftrightarrow>
     ledger_inv st' \<and> same_world st st' \<and> rows_with s st' = rows_with s st - {req}
     \<and> ac_id ` set (st_actions st') \<subseteq> insert uid (ac_id ` set (st_actions st))"

locale row_pass =
  fixes body :: "card_request \<Rightarrow> orch_store \<Rightarrow> cr_error + (slot_outcome option \<times> orch_store)"
    and keep :: "card_request \<Rightarrow> orch_store \<Rightarrow> bool"
    and world_ok :: "orch_store \<Rightarrow> bool"
    and status :: request_status
    and gen :: "string \<Rightarrow> string"
  assumes keep_world: "same_world st st' \<Longrightarrow> keep req st' = keep req st"
    and world_ok_world: "same_world st st' \<Longrightarrow> world_ok st' = world_ok st"
    and body_keep: "keep req st \<Longrightarrow> body req st = Inr (None, st)"
    and body_close: "\<lbrakk>world_ok st; ledger_inv st; req \<in> rows_with status st; \<not> keep req st;
        gen (cr_id req) \<notin> ac_id ` set (st_actions st)\<rbrakk>
      \<Longrightarrow> \<exists>o' st'. body req st = Inr (Some o', st') \<and> closes status (gen (cr_id req)) req st st'"
begin

lemma pass_exact:
  assumes "world_ok st" "ledger_inv st" "set reqs \<subseteq> rows_with status st" "distinct reqs"
    and "inj_on (\<lambda>r. gen (cr_id r)) (set reqs)" "(\<lambda>r. gen (cr_id r)) ` set reqs \<inter> ac_id ` set (st_actions st) = {}"
  shows "ledger_inv (snd (per_row_pass body reqs st)) \<and> same_world st (snd (per_row_pass body reqs st))
       \<and> rows_with status (snd (per_row_pass body reqs st))
         = rows_with status st - {r \<in> set reqs. \<not> keep r st}"
  using assms
proof (induction reqs arbitrary: st)
  case Nil
  then show ?case by (simp add: same_world_def)
next
  case (Cons req reqs)
  show ?case
  proof (cases "keep req st")
    case True
    with Cons body_keep [OF True] show ?thesis by (auto simp: in_tx_def split: prod.splits)
  next
    case False
    with Cons.prems body_close [of st req] obtain o' st' where b: "body req st = Inr (Some o', st')"
      and c: "closes status (gen (cr_id req)) req st st'" by auto
    have w: "same_world st st'" using c by (simp add: closes_def)
    have "world_ok st'" "ledger_inv st'" "set reqs \<subseteq> rows_with status st'" "distinct reqs"
      "inj_on (\<lambda>r. gen (cr_id r)) (set reqs)"
      using Cons.prems c world_ok_world [OF w] by (auto simp: closes_def)
    moreover have "(\<lambda>r. gen (cr_id r)) ` set reqs \<inter> ac_id ` set (st_actions st') = {}"
    proof -
      have "gen (cr_id req) \<notin> (\<lambda>r. gen (cr_id r)) ` set reqs" using Cons.prems(4,5) by (auto simp: inj_on_def)
      moreover have "ac_id ` set (st_actions st') \<subseteq> insert (gen (cr_id req)) (ac_id ` set (st_actions st))"
        using c by (simp add: closes_def)
      moreover have "(\<lambda>r. gen (cr_id r)) ` set reqs \<inter> ac_id ` set (st_actions st) = {}"
        using Cons.prems(6) by (simp add: Int_insert_left split: if_splits)
      ultimately show ?thesis by (rule disjoint_insert_subset)
    qed
    ultimately have "ledger_inv (snd (per_row_pass body reqs st')) \<and> same_world st' (snd (per_row_pass body reqs st'))
       \<and> rows_with status (snd (per_row_pass body reqs st'))
         = rows_with status st' - {r \<in> set reqs. \<not> keep r st'}"
      by (rule Cons.IH)
    moreover have "snd (per_row_pass body (req # reqs) st) = snd (per_row_pass body reqs st')"
      using b by (simp add: in_tx_def split: prod.splits)
    moreover have "rows_with status st' - {r \<in> set reqs. \<not> keep r st'} =
        rows_with status st - {r \<in> set (req # reqs). \<not> keep r st}"
      using c False keep_world [OF w] by (auto simp: closes_def)
    ultimately show ?thesis using w by (simp add: same_world_def)
  qed
qed

end

section \<open>Closing one row\<close>

lemma rows_with_map:
  assumes "\<And>r. r \<in> set (st_requests st) \<Longrightarrow> r \<noteq> req \<Longrightarrow> cr_status r = s \<Longrightarrow> g r = r"
    and "\<And>r. r \<in> set (st_requests st) \<Longrightarrow> cr_status (g r) = s \<Longrightarrow> r \<noteq> req \<and> g r = r"
  shows "rows_with s (st\<lparr>st_requests := map g (st_requests st)\<rparr>) = rows_with s st - {req}"
proof (rule set_eqI)
  fix x
  have "x \<in> g ` set (st_requests st) \<and> cr_status x = s \<longleftrightarrow>
      x \<in> set (st_requests st) \<and> cr_status x = s \<and> x \<noteq> req"
  proof
    assume l: "x \<in> g ` set (st_requests st) \<and> cr_status x = s"
    then obtain r where "r \<in> set (st_requests st)" "x = g r" by auto
    with l assms(2) [of r] show "x \<in> set (st_requests st) \<and> cr_status x = s \<and> x \<noteq> req" by auto
  next
    assume r: "x \<in> set (st_requests st) \<and> cr_status x = s \<and> x \<noteq> req"
    with assms(1) [of x] have "g x = x" by auto
    with r show "x \<in> g ` set (st_requests st) \<and> cr_status x = s" by (auto intro: image_eqI [of x g x])
  qed
  then show "x \<in> rows_with s (st\<lparr>st_requests := map g (st_requests st)\<rparr>) \<longleftrightarrow> x \<in> rows_with s st - {req}"
    by (auto simp: rows_with_def)
qed

lemma finish_closes:
  assumes inv: "ledger_inv st" and req: "req \<in> rows_with RAttached st"
    and uid: "uid \<notin> ac_id ` set (st_actions st)"
  shows "\<exists>st'. FinishCardRequest uid now (cr_id req) result st = Inr st' \<and> closes RAttached uid req st st'"
proof -
  have r: "req \<in> set (st_requests st)" "cr_status req = RAttached" using req by (auto simp: rows_with_def)
  note d = rows_invD [OF inv [unfolded ledger_inv_def, THEN conjunct1]]
  obtain new where f: "FinishCardRequest uid now (cr_id req) result st =
      Inr (st\<lparr>st_requests := map (finish_map now result req) (st_requests st),
              st_actions := st_actions st @ new\<rparr>)" and new: "ac_id ` set new \<subseteq> {uid}"
    using finish_ok [OF inv r uid] .
  have "rows_with RAttached (st\<lparr>st_requests := map (finish_map now result req) (st_requests st)\<rparr>) =
      rows_with RAttached st - {req}"
    by (rule rows_with_map)
       (auto simp: finish_map_def folded_under_def absorbable_def split: if_splits dest: row_by_id [OF d(1) _ r(1)])
  then show ?thesis
    using f new FinishCardRequest_inv [OF inv f]
    by (auto simp: closes_def same_world_def rows_with_def)
qed

lemma fail_closes:
  assumes inv: "ledger_inv st" and req: "req \<in> rows_with s st" and s: "s = RLaunching \<or> s = RAttached"
    and uid: "uid \<notin> ac_id ` set (st_actions st)"
  shows "\<exists>st'. FailCardRequest uid now (cr_id req) err st = Inr st' \<and> closes s uid req st st'"
proof -
  have r: "req \<in> set (st_requests st)" "is_open req" using req s by (auto simp: rows_with_def is_open_def)
  note d = rows_invD [OF inv [unfolded ledger_inv_def, THEN conjunct1]]
  let ?g = "fail_map now (cr_id req) err FoldedSiblingsRequeue"
  obtain new where f: "FailCardRequest uid now (cr_id req) err st =
      Inr (st\<lparr>st_requests := map ?g (st_requests st), st_actions := st_actions st @ new\<rparr>)"
    and new: "ac_id ` set new \<subseteq> {uid}"
    using fail_ok [OF inv r uid] .
  have "rows_with s (st\<lparr>st_requests := map ?g (st_requests st)\<rparr>) = rows_with s st - {req}"
    by (rule rows_with_map)
       (use s in \<open>auto simp: fail_map_def folded_under_def split: if_splits dest: row_by_id [OF d(1) _ r(1)]\<close>)
  then show ?thesis
    using f new FailCardRequest_inv [OF inv f] by (auto simp: closes_def same_world_def rows_with_def)
qed

lemma attach_closes:
  assumes inv: "ledger_inv st" and req: "req \<in> rows_with RLaunching st" and j: "j \<noteq> []"
  shows "\<exists>st'. AttachCardRequest now (cr_id req) CardRequestTargetKindSession j st = Inr ((), st')
      \<and> closes RLaunching uid req st st'"
proof -
  have r: "req \<in> set (st_requests st)" "cr_status req = RLaunching" using req by (auto simp: rows_with_def)
  note d = rows_invD [OF inv [unfolded ledger_inv_def, THEN conjunct1]]
  let ?P = "\<lambda>r. cr_id r = cr_id req \<and> cr_status r = RLaunching"
  let ?st = "st\<lparr>st_requests := update_where ?P (attach_to now CardRequestTargetKindSession j) (st_requests st)\<rparr>"
  have up: "exec_update ?P (attach_to now CardRequestTargetKindSession j) st =
      Inr (rows_affected ?P (st_requests st), ?st)" and inv': "ledger_inv ?st"
    using attach_update [OF inv _ _ j, of ?P CardRequestTargetKindSession now] by auto
  have "0 < rows_affected ?P (st_requests st)" using r by (auto simp: rows_affected_pos)
  moreover have "cr_id req \<noteq> []" using d(4) [OF r(1)] by (simp add: row_ok_def)
  ultimately have "AttachCardRequest now (cr_id req) CardRequestTargetKindSession j st = Inr ((), ?st)"
    using up j by (simp add: AttachCardRequest_def validateAttachArgs_def rowsAffectedOrNotFoundOrInvalid_def)
  moreover have "rows_with RLaunching ?st = rows_with RLaunching st - {req}"
    unfolding update_where_def
    by (rule rows_with_map)
       (use r in \<open>auto split: if_splits dest: row_by_id [OF d(1) _ r(1)]\<close>)
  ultimately show ?thesis using inv' by (auto simp: closes_def same_world_def)
qed

definition job_ids_ok :: "orch_store \<Rightarrow> bool" where
  "job_ids_ok st \<longleftrightarrow> (\<forall>j \<in> set (st_jobs st). jb_id j \<noteq> [])"

lemma attach_or_fail_closes:
  assumes inv: "ledger_inv st" and req: "req \<in> rows_with RLaunching st"
    and jobs: "job_ids_ok st"
    and uid: "gen (cr_id req) \<notin> ac_id ` set (st_actions st)"
  shows "\<exists>o' st'. attachFoundContinuationOrFail gen now req reason st = Inr (o', st')
      \<and> closes RLaunching (gen (cr_id req)) req st st'"
proof -
  let ?jobs = "select_order jb_created_at (\<lambda>j. jb_card_request_id j = cr_id req \<and> jb_card_request_id j \<noteq> []
      \<and> jb_id j \<noteq> cr_launcher_job_id req \<and> jb_role j = ''session''
      \<and> jb_created_at j \<ge> cr_updated_at req) (st_jobs st)"
  show ?thesis
  proof (cases ?jobs)
    case Nil
    obtain st' where "FailCardRequest (gen (cr_id req)) now (cr_id req) reason st = Inr st'"
      "closes RLaunching (gen (cr_id req)) req st st'"
      using fail_closes [OF inv req _ uid] by blast
    with Nil show ?thesis by (simp add: attachFoundContinuationOrFail_def)
  next
    case (Cons j js)
    then have "j \<in> set ?jobs" by simp
    then have "jb_id j \<noteq> []" using jobs by (auto simp: job_ids_ok_def)
    then obtain st' where "AttachCardRequest now (cr_id req) CardRequestTargetKindSession (jb_id j) st = Inr ((), st')"
      "closes RLaunching (gen (cr_id req)) req st st'"
      using attach_closes [OF inv req] by blast
    with Cons show ?thesis by (simp add: attachFoundContinuationOrFail_def)
  qed
qed

section \<open>The three passes\<close>

definition continuation_live :: "card_request \<Rightarrow> orch_store \<Rightarrow> bool" where
  "continuation_live req st \<longleftrightarrow> \<not> snd (continuationTerminalOutcome req st)"

definition launcher_live :: "time \<Rightarrow> card_request \<Rightarrow> orch_store \<Rightarrow> bool" where
  "launcher_live now req st \<longleftrightarrow>
     \<not> launcherJobTerminalOrGone now (cr_launcher_job_id req) (cr_updated_at req) st"

interpretation slots: row_pass "reconcile_slot_row gen now" continuation_live "\<lambda>_. True" RAttached gen
  for gen now
proof
  show "continuation_live req st' = continuation_live req st" if "same_world st st'" for st st' req
    using that by (simp add: continuation_live_def continuationTerminalOutcome_def same_world_def GetTaskStatus_def)
  show "reconcile_slot_row gen now req st = Inr (None, st)" if "continuation_live req st" for req st
    using that by (auto simp: continuation_live_def reconcile_slot_row_def split: prod.splits)
  show "\<exists>o' st'. reconcile_slot_row gen now req st = Inr (Some o', st') \<and> closes RAttached (gen (cr_id req)) req st st'"
    if "ledger_inv st" "req \<in> rows_with RAttached st" "\<not> continuation_live req st"
      "gen (cr_id req) \<notin> ac_id ` set (st_actions st)" for st req
    using finish_closes [OF that(1,2,4)] fail_closes [OF that(1,2) _ that(4)] that(3)
    by (fastforce simp: reconcile_slot_row_def continuation_live_def split: prod.splits)
qed simp

interpretation launching: row_pass "reconcile_launching_row gen now" "launcher_live now" job_ids_ok RLaunching gen
  for gen now
proof
  show "launcher_live now req st' = launcher_live now req st" if "same_world st st'" for st st' req
    using that by (simp add: launcher_live_def launcherJobTerminalOrGone_def same_world_def)
  show "job_ids_ok st' = job_ids_ok st" if "same_world st st'" for st st'
    using that by (simp add: job_ids_ok_def same_world_def)
  show "reconcile_launching_row gen now req st = Inr (None, st)" if "launcher_live now req st" for req st
    using that by (simp add: launcher_live_def reconcile_launching_row_def)
  show "\<exists>o' st'. reconcile_launching_row gen now req st = Inr (Some o', st')
      \<and> closes RLaunching (gen (cr_id req)) req st st'"
    if "job_ids_ok st" "ledger_inv st" "req \<in> rows_with RLaunching st" "\<not> launcher_live now req st"
      "gen (cr_id req) \<notin> ac_id ` set (st_actions st)" for st req
  proof -
    note a = that
    obtain o' st' where "attachFoundContinuationOrFail gen now req
        ''launcher exited without creating a continuation'' st = Inr (o', st')"
      "closes RLaunching (gen (cr_id req)) req st st'"
      using attach_or_fail_closes [where gen = gen, OF a(2,3,1,5)] by blast
    with a(4) show ?thesis by (auto simp: reconcile_launching_row_def launcher_live_def)
  qed
qed

interpretation recover: row_pass "recover_launching_row gen now" "\<lambda>_ _. False" job_ids_ok RLaunching gen
  for gen now
proof
  show "job_ids_ok st' = job_ids_ok st" if "same_world st st'" for st st'
    using that by (simp add: job_ids_ok_def same_world_def)
  show "\<exists>o' st'. recover_launching_row gen now req st = Inr (Some o', st')
      \<and> closes RLaunching (gen (cr_id req)) req st st'"
    if "job_ids_ok st" "ledger_inv st" "req \<in> rows_with RLaunching st"
      "gen (cr_id req) \<notin> ac_id ` set (st_actions st)" for st req
  proof -
    note a = that
    obtain o' st' where "attachFoundContinuationOrFail gen now req
        ''launcher exited before creating a continuation (daemon restart recovery)'' st = Inr (o', st')"
      "closes RLaunching (gen (cr_id req)) req st st'"
      using attach_or_fail_closes [where gen = gen, OF a(2,3,1,4)] by blast
    then show ?thesis by (auto simp: recover_launching_row_def)
  qed
qed simp_all

text \<open>The identifiers a pass draws are new and pairwise different.\<close>

definition gen_fresh :: "(string \<Rightarrow> string) \<Rightarrow> orch_store \<Rightarrow> bool" where
  "gen_fresh gen st \<longleftrightarrow>
     inj_on gen (cr_id ` set (st_requests st))
     \<and> gen ` cr_id ` set (st_requests st) \<inter> ac_id ` set (st_actions st) = {}"

lemma gen_fresh_rows:
  assumes "ledger_inv st" "gen_fresh gen st" "set reqs \<subseteq> set (st_requests st)"
  shows "inj_on (\<lambda>r. gen (cr_id r)) (set reqs)"
    "(\<lambda>r. gen (cr_id r)) ` set reqs \<inter> ac_id ` set (st_actions st) = {}"
proof -
  have "inj_on cr_id (set (st_requests st))"
    using assms(1) by (simp add: ledger_inv_def rows_inv_def distinct_map)
  then have "inj_on (gen \<circ> cr_id) (set (st_requests st))"
    using assms(2) by (intro comp_inj_on) (auto simp: gen_fresh_def)
  then show "inj_on (\<lambda>r. gen (cr_id r)) (set reqs)"
    using assms(3) by (auto simp: comp_def intro: inj_on_subset)
  show "(\<lambda>r. gen (cr_id r)) ` set reqs \<inter> ac_id ` set (st_actions st) = {}"
    using assms(2,3) unfolding gen_fresh_def by blast
qed

lemma distinct_select: "ledger_inv st \<Longrightarrow> distinct (select_order k P (st_requests st))"
  using distinct_map_select_order [of cr_id "st_requests st" k P]
  by (simp add: ledger_inv_def rows_inv_def distinct_map)

text \<open>
  C12. A reconcile pass over the attached requests frees a slot exactly when its continuation has
  ended: the attached requests afterwards are, unchanged, those whose task or session was still
  live, the ledger invariant holds, and no task or job was touched.
\<close>

theorem reconcile_slots_exact:
  assumes "ledger_inv st" and "gen_fresh gen st"
  shows "let st' = snd (ReconcileCardRequestSlots gen now st)
     in ledger_inv st' \<and> st_tasks st' = st_tasks st \<and> st_jobs st' = st_jobs st
        \<and> {r \<in> set (st_requests st'). cr_status r = RAttached} =
          {r \<in> set (st_requests st). cr_status r = RAttached \<and> \<not> snd (continuationTerminalOutcome r st)}"
proof -
  let ?L = "select_order cr_created_at (\<lambda>r. cr_status r = RAttached) (st_requests st)"
  have L: "set ?L = rows_with RAttached st" by (auto simp: rows_with_def)
  have sub: "set ?L \<subseteq> set (st_requests st)" by auto
  have "ledger_inv (snd (per_row_pass (reconcile_slot_row gen now) ?L st))
      \<and> same_world st (snd (per_row_pass (reconcile_slot_row gen now) ?L st))
      \<and> rows_with RAttached (snd (per_row_pass (reconcile_slot_row gen now) ?L st)) =
        rows_with RAttached st - {r \<in> set ?L. \<not> continuation_live r st}"
    by (rule slots.pass_exact)
       (use assms L gen_fresh_rows [OF assms sub] distinct_select in auto)
  then show ?thesis
    using L by (auto simp: ReconcileCardRequestSlots_def same_world_def rows_with_def continuation_live_def Let_def)
qed

text \<open>
  C13. The periodic pass over the launching requests keeps, unchanged, exactly those whose launcher
  may still be running and the reservations of a Go, which it skips; every other one has left
  launching.
\<close>

theorem reconcile_launching_exact:
  assumes "ledger_inv st" and "gen_fresh gen st" and "\<forall>j \<in> set (st_jobs st). jb_id j \<noteq> []"
  shows "let st' = snd (ReconcileLaunchingCardRequests gen now st)
     in ledger_inv st' \<and> st_tasks st' = st_tasks st \<and> st_jobs st' = st_jobs st
        \<and> {r \<in> set (st_requests st'). cr_status r = RLaunching} =
          {r \<in> set (st_requests st). cr_status r = RLaunching
             \<and> (cr_command_key r = CardRequestCommandKeyGo
                \<or> \<not> launcherJobTerminalOrGone now (cr_launcher_job_id r) (cr_updated_at r) st)}"
proof -
  let ?L = "filter (\<lambda>r. cr_command_key r \<noteq> CardRequestCommandKeyGo)
      (select_order cr_created_at (\<lambda>r. cr_status r = RLaunching) (st_requests st))"
  let ?st' = "snd (per_row_pass (reconcile_launching_row gen now) ?L st)"
  have sub: "set ?L \<subseteq> set (st_requests st)" by auto
  have "ledger_inv ?st' \<and> same_world st ?st' \<and>
      rows_with RLaunching ?st' = rows_with RLaunching st - {r \<in> set ?L. \<not> launcher_live now r st}"
    by (rule launching.pass_exact)
       (use assms gen_fresh_rows [OF assms(1,2) sub]
          distinct_select [OF assms(1), of cr_created_at "\<lambda>r. cr_status r = RLaunching"] in
         \<open>auto simp: job_ids_ok_def rows_with_def\<close>)
  then show ?thesis
    by (auto simp: ReconcileLaunchingCardRequests_def same_world_def rows_with_def launcher_live_def Let_def)
qed

text \<open>
  C14. The startup recovery leaves no request in launching: each is attached to the session job that
  was created for it or failed, so no slot stays blocked by a launcher that died with the daemon.
\<close>

theorem recover_clears_launching:
  assumes "ledger_inv st" and "gen_fresh gen st" and "\<forall>j \<in> set (st_jobs st). jb_id j \<noteq> []"
  shows "let st' = snd (RecoverLaunchingCardRequests gen now st)
     in ledger_inv st' \<and> (\<forall>r \<in> set (st_requests st'). cr_status r \<noteq> RLaunching)"
proof -
  let ?L = "select_order cr_created_at (\<lambda>r. cr_status r = RLaunching) (st_requests st)"
  let ?st' = "snd (per_row_pass (recover_launching_row gen now) ?L st)"
  have sub: "set ?L \<subseteq> set (st_requests st)" by auto
  have "ledger_inv ?st' \<and> same_world st ?st' \<and>
      rows_with RLaunching ?st' = rows_with RLaunching st - {r \<in> set ?L. \<not> False}"
    by (rule recover.pass_exact)
       (use assms gen_fresh_rows [OF assms(1,2) sub]
          distinct_select [OF assms(1), of cr_created_at "\<lambda>r. cr_status r = RLaunching"] in
         \<open>auto simp: job_ids_ok_def rows_with_def\<close>)
  then show ?thesis
    by (auto simp: RecoverLaunchingCardRequests_def rows_with_def Let_def)
qed

end
