(* ===== verification/Single_Flight.thy ===== *)
theory Single_Flight
  imports Boid_Prelude
begin

text \<open>
  The contract of a single-flight ledger: per key at most one holder, taken only when free and free
  again only after its holder let go. The card requests (one slot per card) and the trigger runs
  (one run in flight per trigger) both keep it.
\<close>

datatype ('k, 'h) flight_event = Acquire 'k 'h | Release 'h | Other

text \<open>The runs of a ledger whose steps are labelled with what they do to the holders.\<close>

inductive flight_run :: "('s \<Rightarrow> ('k, 'h) flight_event \<Rightarrow> 's \<Rightarrow> bool) \<Rightarrow> 's \<Rightarrow> ('k, 'h) flight_event list \<Rightarrow> 's \<Rightarrow> bool"
  for step where
  flight_nil: "flight_run step s [] s"
| flight_cons: "step s e s' \<Longrightarrow> flight_run step s' es s'' \<Longrightarrow> flight_run step s (e # es) s''"

inductive_simps flight_run_nil: "flight_run step s [] s'"
inductive_simps flight_run_cons: "flight_run step s (e # es) s'"
inductive_cases flight_consE: "flight_run step s (e # es) s'"

lemma flight_run_append:
  "flight_run step s (es @ fs) s'' \<longleftrightarrow> (\<exists>s'. flight_run step s es s' \<and> flight_run step s' fs s'')"
  by (induction es arbitrary: s) (auto simp: flight_run_nil flight_run_cons)

locale single_flight =
  fixes inv :: "'s \<Rightarrow> bool"
    and holder :: "'s \<Rightarrow> 'k \<Rightarrow> 'h option"
    and step :: "'s \<Rightarrow> ('k, 'h) flight_event \<Rightarrow> 's \<Rightarrow> bool"
  assumes step_inv: "inv s \<Longrightarrow> step s e s' \<Longrightarrow> inv s'"
    and acquire: "inv s \<Longrightarrow> step s (Acquire k h) s' \<Longrightarrow> holder s k = None \<and> holder s' = (holder s)(k \<mapsto> h)"
    and release: "inv s \<Longrightarrow> step s (Release h) s' \<Longrightarrow>
      \<exists>k. holder s k = Some h \<and> holder s' = (holder s)(k := None)"
    and other: "inv s \<Longrightarrow> step s Other s' \<Longrightarrow> holder s' = holder s"
begin

lemma run_inv: "flight_run step s es s' \<Longrightarrow> inv s \<Longrightarrow> inv s'"
  by (induction rule: flight_run.induct) (auto dest: step_inv)

text \<open>A holder stays until it is released.\<close>

lemma held_until_released:
  "flight_run step s es s' \<Longrightarrow> inv s \<Longrightarrow> holder s k = Some h \<Longrightarrow> Release h \<notin> set es \<Longrightarrow> holder s' k = Some h"
proof (induction rule: flight_run.induct)
  case (flight_nil s)
  then show ?case by simp
next
  case (flight_cons s e s' es s'')
  have "holder s' k = Some h"
  proof (cases e)
    case (Acquire k' h')
    with flight_cons acquire [of s k' h' s'] show ?thesis by auto
  next
    case (Release h')
    with flight_cons release [of s h' s'] show ?thesis by auto
  next
    case Other
    with flight_cons other [of s s'] show ?thesis by simp
  qed
  with flight_cons step_inv show ?case by auto
qed

text \<open>Two acquisitions of one key have the first holder's release between them.\<close>

lemma no_overlap:
  assumes "flight_run step s (pre @ Acquire k h # mid @ Acquire k h' # post) s'" and "inv s"
  shows "Release h \<in> set mid"
proof (rule ccontr)
  assume no: "Release h \<notin> set mid"
  from assms(1) obtain s1 s2 where r1: "flight_run step s pre s1" and st1: "step s1 (Acquire k h) s2"
    and rest: "flight_run step s2 (mid @ Acquire k h' # post) s'"
    by (auto simp: flight_run_append elim!: flight_consE)
  from rest obtain s3 s4 where mid: "flight_run step s2 mid s3" and st2: "step s3 (Acquire k h') s4"
    by (auto simp: flight_run_append elim!: flight_consE)
  have i1: "inv s1" using run_inv [OF r1 assms(2)] .
  then have i2: "inv s2" and h: "holder s2 k = Some h" using step_inv st1 acquire [OF i1 st1] by auto
  have "holder s3 k = Some h" using held_until_released [OF mid i2 h no] .
  moreover have "holder s3 k = None" using acquire [OF run_inv [OF mid i2] st2] by simp
  ultimately show False by simp
qed

end

section \<open>Ledgers that record their holders as pairs\<close>

definition pair_effect :: "('k, 'h) flight_event \<Rightarrow> ('k \<times> 'h) set \<Rightarrow> ('k \<times> 'h) set \<Rightarrow> bool" where
  "pair_effect e P P' =
     (case e of
        Acquire k h \<Rightarrow> P' = insert (k, h) P \<and> (\<forall>h'. (k, h') \<notin> P)
      | Release h \<Rightarrow> (\<exists>k. (k, h) \<in> P \<and> P' = P - {(k, h)})
      | Other \<Rightarrow> P' = P)"

text \<open>
  A table keeps one row per holder; what a statement does to the pairs of key and holder in it says
  what it does to the holders.
\<close>

locale paired_flight =
  fixes inv :: "'s \<Rightarrow> bool"
    and pairs :: "'s \<Rightarrow> ('k \<times> 'h) set"
    and holder :: "'s \<Rightarrow> 'k \<Rightarrow> 'h option"
    and step :: "'s \<Rightarrow> ('k, 'h) flight_event \<Rightarrow> 's \<Rightarrow> bool"
  assumes pair_step_inv: "inv s \<Longrightarrow> step s e s' \<Longrightarrow> inv s'"
    and holder_iff: "inv s \<Longrightarrow> holder s k = Some h \<longleftrightarrow> (k, h) \<in> pairs s"
    and effect: "inv s \<Longrightarrow> step s e s' \<Longrightarrow> pair_effect e (pairs s) (pairs s')"
begin

lemma holder_eqI:
  assumes "inv s'" "\<And>k h. f k = Some h \<longleftrightarrow> (k, h) \<in> pairs s'"
  shows "holder s' = f"
proof
  fix k
  have "holder s' k = Some h \<longleftrightarrow> f k = Some h" for h using holder_iff [OF assms(1)] assms(2) by simp
  then show "holder s' k = f k" by (cases "f k"; cases "holder s' k") auto
qed

lemma holder_none: "inv s \<Longrightarrow> holder s k = None \<longleftrightarrow> (\<forall>h. (k, h) \<notin> pairs s)"
  using holder_iff [of s k] by (metis not_None_eq)

end

sublocale paired_flight \<subseteq> single_flight inv holder step
proof
  show "inv s'" if "inv s" "step s e s'" for s e s' using that by (rule pair_step_inv)
  show "holder s k = None \<and> holder s' = (holder s)(k \<mapsto> h)" if "inv s" "step s (Acquire k h) s'" for s k h s'
  proof -
    have e: "pairs s' = insert (k, h) (pairs s)" "\<forall>h'. (k, h') \<notin> pairs s"
      using effect [OF that] by (simp_all add: pair_effect_def)
    have "holder s' = (holder s)(k \<mapsto> h)"
      using e holder_iff [OF that(1)] by (intro holder_eqI [OF pair_step_inv [OF that]]) auto
    then show ?thesis using holder_none [OF that(1)] e by blast
  qed
  show "\<exists>k. holder s k = Some h \<and> holder s' = (holder s)(k := None)" if "inv s" "step s (Release h) s'" for s h s'
  proof -
    note st = that
    obtain k where e: "(k, h) \<in> pairs s" "pairs s' = pairs s - {(k, h)}"
      using effect [OF st] by (auto simp: pair_effect_def)
    have k: "holder s k = Some h" using holder_iff [OF st(1)] e(1) by blast
    have "((holder s)(k := None)) k' = Some h' \<longleftrightarrow> (k', h') \<in> pairs s'" for k' h'
      using k holder_iff [OF st(1), of k' h'] e(2) by (cases "k' = k") auto
    then have "holder s' = (holder s)(k := None)" by (rule holder_eqI [OF pair_step_inv [OF st]])
    then show ?thesis using k by blast
  qed
  show "holder s' = holder s" if "inv s" "step s Other s'" for s s'
    using effect [OF that] holder_iff [OF that(1)] holder_eqI [OF pair_step_inv [OF that], of "holder s"]
    by (simp add: pair_effect_def)
qed

end
