(* ===== verification/Card_System.thy ===== *)
theory Card_System
  imports Card_Release_Facts Single_Flight
begin

text \<open>
  The card-request ledger as a transition system. A step is one committed transaction of the
  daemon: a request created, claimed, attached, finished, failed, retried or force-released, an
  action recorded with its event ingest, a row handled by one of the passes, a garbage collection,
  or a change of the world around the ledger (tasks and jobs change, a card is deleted with its
  rows). Each step is labelled with what it does to the card's slot.
\<close>

section \<open>Steps\<close>

definition slot_event :: "string \<Rightarrow> orch_store \<Rightarrow> (string, string) flight_event" where
  "slot_event rid st =
     (if \<exists>r \<in> set (st_requests st). cr_id r = rid \<and> is_active r then Release rid else Other)"

definition holder_of :: "orch_store \<Rightarrow> string \<Rightarrow> string option" where
  "holder_of st cardID =
     map_option cr_id (find (\<lambda>r. is_active r \<and> cr_card_id r = cardID) (st_requests st))"

text \<open>\<open>ON DELETE CASCADE\<close> of the requests and the barrier of a card.\<close>

definition delete_card :: "string \<Rightarrow> orch_store \<Rightarrow> orch_store" where
  "delete_card cardID st =
     st\<lparr>st_tasks := delete_where (\<lambda>t. t_id t = cardID) (st_tasks st),
        st_requests := delete_where (\<lambda>r. cr_card_id r = cardID) (st_requests st),
        st_barriers := delete_where (\<lambda>b. fst b = cardID) (st_barriers st)\<rparr>"

definition cascade_event :: "string \<Rightarrow> orch_store \<Rightarrow> (string, string) flight_event" where
  "cascade_event cardID st = (case holder_of st cardID of None \<Rightarrow> Other | Some h \<Rightarrow> Release h)"

inductive ledger_step :: "orch_store \<Rightarrow> (string, string) flight_event \<Rightarrow> orch_store \<Rightarrow> bool" where
  create_queued: "\<lbrakk>uid \<noteq> []; CreateCardRequest uid now None req st = Inr (row, st')\<rbrakk>
    \<Longrightarrow> ledger_step st Other st'"
| create_launching: "\<lbrakk>uid \<noteq> []; CreateCardRequest uid now (Some RLaunching) req st = Inr (row, st')\<rbrakk>
    \<Longrightarrow> ledger_step st (Acquire (cr_card_id row) (cr_id row)) st'"
| claim: "ClaimQueuedCardRequests now cardID launcher def st = Inr ((p, fs), st')
    \<Longrightarrow> ledger_step st (Acquire cardID (cr_id p)) st'"
| dispatch: "repo_claim_for_dispatch now cardID launcher key def st = (Inr (p, fs), st')
    \<Longrightarrow> ledger_step st (Acquire cardID (cr_id p)) st'"
| dispatch_skip: "repo_claim_for_dispatch now cardID launcher key def st = (Inl e, st')
    \<Longrightarrow> ledger_step st Other st'"
| attach: "AttachCardRequest now rid kind tid st = Inr ((), st') \<Longrightarrow> ledger_step st Other st'"
| attach_owned: "AttachCardRequestOwned now rid owner kind tid st = Inr ((), st')
    \<Longrightarrow> ledger_step st Other st'"
| finish: "FinishCardRequest uid now rid result st = Inr st' \<Longrightarrow> ledger_step st (Release rid) st'"
| fail: "FailCardRequest uid now rid err st = Inr st' \<Longrightarrow> ledger_step st (slot_event rid st) st'"
| force_release: "ForceReleaseCardRequest uid now rid reason st = Inr (sibs, st')
    \<Longrightarrow> ledger_step st (slot_event rid st) st'"
| retry: "RetryCardRequest now rid st = Inr st' \<Longrightarrow> ledger_step st Other st'"
| record_action: "\<lbrakk>ruid \<noteq> []; CreateAction uid ruid now w a rs st = Inr (a', st')\<rbrakk> \<Longrightarrow> ledger_step st Other st'"
| clear_barrier: "ledger_step st Other (ClearCardForceReleaseBarrier cardID st)"
| gc: "GCCardRequests now olderThan dryRun st = (n, st') \<Longrightarrow> ledger_step st Other st'"
| world: "\<lbrakk>set (map t_id (st_tasks st)) \<subseteq> set (map t_id ts); st' = st\<lparr>st_tasks := ts, st_jobs := js\<rparr>\<rbrakk>
    \<Longrightarrow> ledger_step st Other st'"
| delete: "ledger_step st (cascade_event cardID st) (delete_card cardID st)"

inductive_cases ledger_stepE: "ledger_step st e st'"

section \<open>Preservation of the invariant\<close>

lemma failAll_update:
  assumes inv: "ledger_inv st"
  shows "failAllQueuedCardRequests now c reason st =
      Inr (rows_affected (queued_of c) (st_requests st),
        st\<lparr>st_requests := update_where (queued_of c) (fail_row now reason) (st_requests st)\<rparr>)
    \<and> ledger_inv (st\<lparr>st_requests := update_where (queued_of c) (fail_row now reason) (st_requests st)\<rparr>)"
proof -
  note d = rows_invD [OF inv [unfolded ledger_inv_def, THEN conjunct1]]
  have up: "exec_update (queued_of c) (fail_row now reason) st =
      Inr (rows_affected (queued_of c) (st_requests st),
        st\<lparr>st_requests := update_where (queued_of c) (fail_row now reason) (st_requests st)\<rparr>)"
    by (rule exec_update_shrinks [OF d(2,3)]) auto
  have "ledger_inv (st\<lparr>st_requests := update_where (queued_of c) (fail_row now reason) (st_requests st)\<rparr>)"
    by (rule ledger_inv_update [OF inv up]; (rule folded_ok_update [OF d(5)])?)
       (use d(4) in \<open>auto simp: row_ok_def queued_of_def is_active_def\<close>)
  with up show ?thesis by (simp add: failAllQueuedCardRequests_def)
qed

text \<open>The automatic claim either claims as \<open>ClaimQueuedCardRequests\<close> does, drains, or does nothing.\<close>

lemma repo_claim_cases:
  assumes inv: "ledger_inv st"
    and r: "repo_claim_for_dispatch now c launcher key def st = (res, st')"
  obtains (claimed) p fs where "res = Inr (p, fs)" "ClaimQueuedCardRequests now c launcher def st = Inr ((p, fs), st')"
      "\<not> HasCardForceReleaseBarrier c st" "GetTaskStatus c st \<in> {Some Parked, Some Working}"
    | (drained) reason where "res = Inl ErrCardNotEligibleForDispatch"
      "st' = st\<lparr>st_requests := update_where (queued_of c) (fail_row now reason) (st_requests st)\<rparr>"
      "GetTaskStatus c st \<notin> {Some Parked, Some Working}"
    | (skipped) e where "res = Inl e" "st' = st"
proof (cases "GetTaskStatus c st \<in> {Some Parked, Some Working}")
  case False
  then obtain reason where
    "ClaimQueuedCardRequestsForDispatch now c launcher key def st =
       (case failAllQueuedCardRequests now c reason st of
          Inl e \<Rightarrow> (Inl e, st) | Inr (_, st') \<Rightarrow> (Inl ErrCardNotEligibleForDispatch, st'))"
    by (cases "GetTaskStatus c st") (auto simp: ClaimQueuedCardRequestsForDispatch_def Let_def)
  then show ?thesis
    using r False drained [of reason] failAll_update [OF inv, of now c reason]
    by (auto simp: repo_claim_for_dispatch_def IsCardRequestDispatchSkip_def)
next
  case True
  then have el: "ClaimQueuedCardRequestsForDispatch now c launcher key def st =
      (if HasCardForceReleaseBarrier c st then (Inl ErrCardForceReleaseBarrierActive, st)
       else case PeekOldestQueuedCardRequest c st of
         Inl e \<Rightarrow> (Inl e, st)
       | Inr (_, headCommandKey) \<Rightarrow>
           if headCommandKey \<noteq> key then (Inl ErrCardRequestCommandKeyChanged, st)
           else in_tx st (ClaimQueuedCardRequests now c launcher def st))"
    by (auto simp: ClaimQueuedCardRequestsForDispatch_def Let_def)
  show ?thesis
  proof (cases "\<exists>a s. ClaimQueuedCardRequestsForDispatch now c launcher key def st = (Inr a, s)")
    case True
    then obtain p fs s where "ClaimQueuedCardRequestsForDispatch now c launcher key def st = (Inr (p, fs), s)"
      by auto
    moreover from this el have "\<not> HasCardForceReleaseBarrier c st"
      "ClaimQueuedCardRequests now c launcher def st = Inr ((p, fs), s)"
      by (auto simp: in_tx_def split: if_splits sum.splits)
    ultimately show ?thesis
      using r claimed [of p fs] \<open>GetTaskStatus c st \<in> {Some Parked, Some Working}\<close>
      by (auto simp: repo_claim_for_dispatch_def)
  next
    case False
    then obtain e s where "ClaimQueuedCardRequestsForDispatch now c launcher key def st = (Inl e, s)"
      by (metis surj_pair sum.exhaust)
    moreover from this el have "s = st" by (auto simp: in_tx_def split: if_splits sum.splits)
    ultimately show ?thesis using r skipped [of e] by (auto simp: repo_claim_for_dispatch_def split: if_splits)
  qed
qed

lemma gc_inv:
  assumes inv: "ledger_inv st"
  shows "ledger_inv (snd (GCCardRequests now olderThan dryRun st))"
proof -
  let ?Q = "gc_collectable now olderThan"
  note d = rows_invD [OF inv [unfolded ledger_inv_def, THEN conjunct1]]
  have "slot_index (delete_where ?Q (st_requests st))" "cause_index (delete_where ?Q (st_requests st))"
    using d(2,3) by (auto simp: slot_index_def cause_index_def intro: uniq_on_delete)
  moreover have "distinct (map cr_id (delete_where ?Q (st_requests st)))"
    using d(1) by (simp add: delete_where_def distinct_map_filter)
  moreover have "folded_ok (delete_where ?Q (st_requests st))"
    unfolding folded_ok_def
  proof (intro ballI impI)
    fix r assume r: "r \<in> set (delete_where ?Q (st_requests st))" "cr_status r = RFolded"
    with d(5) obtain p where p: "p \<in> set (st_requests st)" "cr_id p = cr_folded_into r"
        "cr_card_id p = cr_card_id r" "is_active p" by (auto simp: folded_ok_def)
    then have "p \<in> set (delete_where ?Q (st_requests st))" by (auto simp: gc_collectable_def is_active_def)
    with p show "\<exists>p \<in> set (delete_where ?Q (st_requests st)).
        cr_id p = cr_folded_into r \<and> cr_card_id p = cr_card_id r \<and> is_active p" by blast
  qed
  ultimately show ?thesis
    using inv d(4) by (auto simp: GCCardRequests_def Let_def ledger_inv_def rows_inv_def)
qed

lemma delete_card_inv:
  assumes inv: "ledger_inv st"
  shows "ledger_inv (delete_card c st)"
proof -
  let ?Q = "\<lambda>r. cr_card_id r = c"
  note d = rows_invD [OF inv [unfolded ledger_inv_def, THEN conjunct1]]
  have "slot_index (delete_where ?Q (st_requests st))" "cause_index (delete_where ?Q (st_requests st))"
    using d(2,3) by (auto simp: slot_index_def cause_index_def intro: uniq_on_delete)
  moreover have "distinct (map cr_id (delete_where ?Q (st_requests st)))"
    using d(1) by (simp add: delete_where_def distinct_map_filter)
  moreover have "folded_ok (delete_where ?Q (st_requests st))"
    using d(5) unfolding folded_ok_def by (metis (no_types, lifting) mem_Collect_eq set_delete_where)
  ultimately show ?thesis
    using inv d(4) by (auto simp: delete_card_def ledger_inv_def rows_inv_def)
qed

lemma ledger_step_inv:
  assumes "ledger_step st e st'" and inv: "ledger_inv st"
  shows "ledger_inv st'"
  using assms(1)
proof (cases rule: ledger_step.cases)
  case (create_queued uid now req row)
  then show ?thesis using CreateCardRequest_inv [OF inv] by blast
next
  case (create_launching uid now req row)
  then show ?thesis using CreateCardRequest_inv [OF inv] by blast
next
  case (claim now cardID launcher def p fs)
  then show ?thesis using ClaimQueuedCardRequests_inv [OF inv] by blast
next
  case (dispatch now cardID launcher key def p fs)
  then show ?thesis
    by (cases rule: repo_claim_cases [OF inv dispatch(2)]) (use ClaimQueuedCardRequests_inv [OF inv] in auto)
next
  case (dispatch_skip now cardID launcher key def e)
  show ?thesis
    by (cases rule: repo_claim_cases [OF inv dispatch_skip(2)])
       (use failAll_update [OF inv] inv in auto)
next
  case (attach now rid kind tid)
  then show ?thesis using AttachCardRequest_inv [OF inv] by blast
next
  case (attach_owned now rid owner kind tid)
  then show ?thesis using AttachCardRequestOwned_inv [OF inv] by blast
next
  case (finish uid now rid result)
  then show ?thesis using FinishCardRequest_inv [OF inv] by blast
next
  case (fail uid now rid err)
  then show ?thesis using FailCardRequest_inv [OF inv] by blast
next
  case (force_release uid now rid reason sibs)
  then show ?thesis using ForceReleaseCardRequest_inv [OF inv] by blast
next
  case (retry now rid)
  then show ?thesis using RetryCardRequest_inv [OF inv] by blast
next
  case (record_action ruid uid now w a rs a')
  then show ?thesis using CreateAction_inv [OF inv] by blast
next
  case (clear_barrier cardID)
  then show ?thesis using inv by (simp add: ClearCardForceReleaseBarrier_def)
next
  case (gc now olderThan dryRun n)
  then show ?thesis using gc_inv [OF inv, of now olderThan dryRun] by simp
next
  case (world ts js)
  then show ?thesis using inv by (auto simp: ledger_inv_def)
next
  case (delete cardID)
  then show ?thesis using delete_card_inv [OF inv] by simp
qed

section \<open>Holders\<close>

definition active_pairs :: "orch_store \<Rightarrow> (string \<times> string) set" where
  "active_pairs st = {(c, h). \<exists>r \<in> set (st_requests st). is_active r \<and> cr_card_id r = c \<and> cr_id r = h}"

lemma holder_of_iff:
  assumes "ledger_inv st"
  shows "holder_of st c = Some h \<longleftrightarrow> (c, h) \<in> active_pairs st"
proof
  assume "holder_of st c = Some h"
  then show "(c, h) \<in> active_pairs st" by (auto simp: holder_of_def active_pairs_def dest: find_SomeD)
next
  assume "(c, h) \<in> active_pairs st"
  then obtain r where r: "r \<in> set (st_requests st)" "is_active r" "cr_card_id r = c" "cr_id r = h"
    by (auto simp: active_pairs_def)
  then obtain r' where f: "find (\<lambda>r. is_active r \<and> cr_card_id r = c) (st_requests st) = Some r'"
    using find_is_Some [of r "st_requests st" "\<lambda>r. is_active r \<and> cr_card_id r = c"] by auto
  then have "r' \<in> set (st_requests st)" "is_active r'" "cr_card_id r' = c" by (auto dest: find_SomeD)
  with r assms have "r' = r" using slot_holder_unique by (auto simp: ledger_inv_def)
  with f r show "holder_of st c = Some h" by (simp add: holder_of_def)
qed

lemma holder_of_None:
  assumes "ledger_inv st"
  shows "holder_of st c = None \<longleftrightarrow> (\<forall>h. (c, h) \<notin> active_pairs st)"
  using holder_of_iff [OF assms, of c] by (metis not_None_eq)

lemma active_pairs_map:
  assumes "\<And>r. r \<in> set (st_requests st) \<Longrightarrow>
      cr_id (g r) = cr_id r \<and> cr_card_id (g r) = cr_card_id r"
  shows "active_pairs (st\<lparr>st_requests := map g (st_requests st)\<rparr>) =
    {(c, h). \<exists>r \<in> set (st_requests st). is_active (g r) \<and> cr_card_id r = c \<and> cr_id r = h}"
  using assms by (auto simp: active_pairs_def)

lemma active_pairs_frame [simp]:
  "active_pairs (st\<lparr>st_actions := as\<rparr>) = active_pairs st"
  "active_pairs (st\<lparr>st_barriers := bs\<rparr>) = active_pairs st"
  "active_pairs (st\<lparr>st_requests := rs, st_actions := as\<rparr>) = active_pairs (st\<lparr>st_requests := rs\<rparr>)"
  by (simp_all add: active_pairs_def)

text \<open>Closing a row by id takes its pair away and no other.\<close>

lemma closed_pairs:
  assumes inv: "ledger_inv st" and row: "row \<in> set (st_requests st)"
    and g: "\<And>r. r \<in> set (st_requests st) \<Longrightarrow> cr_id (g r) = cr_id r \<and> cr_card_id (g r) = cr_card_id r
      \<and> (is_active (g r) \<longleftrightarrow> is_active r \<and> cr_id r \<noteq> cr_id row)"
  shows "active_pairs (st\<lparr>st_requests := map g (st_requests st)\<rparr>) =
    active_pairs st - {(cr_card_id row, cr_id row)}"
proof -
  note d = rows_invD [OF inv [unfolded ledger_inv_def, THEN conjunct1]]
  have "cr_id r \<noteq> cr_id row \<longleftrightarrow> (cr_card_id r, cr_id r) \<noteq> (cr_card_id row, cr_id row)"
    if "r \<in> set (st_requests st)" for r
    using row_by_id [OF d(1) that row] by auto
  then show ?thesis
    using g by (subst active_pairs_map) (auto simp: active_pairs_def)
qed

section \<open>What each step does to the holders\<close>

definition flight_effect :: "(string, string) flight_event \<Rightarrow> orch_store \<Rightarrow> orch_store \<Rightarrow> bool" where
  "flight_effect e st st' =
     (case e of
        Acquire c h \<Rightarrow> active_pairs st' = insert (c, h) (active_pairs st) \<and> (\<forall>h'. (c, h') \<notin> active_pairs st)
      | Release h \<Rightarrow> (\<exists>c. (c, h) \<in> active_pairs st \<and> active_pairs st' = active_pairs st - {(c, h)})
      | Other \<Rightarrow> active_pairs st' = active_pairs st)"

lemma create_effect:
  assumes inv: "ledger_inv st" and ok: "CreateCardRequest uid now s req st = Inr (row, st')"
  shows "flight_effect (if is_active row then Acquire (cr_card_id row) (cr_id row) else Other) st st'"
proof -
  have st': "st' = st\<lparr>st_requests := st_requests st @ [row]\<rparr>" and "slot_index (st_requests st @ [row])"
    using CreateCardRequest_Inr [OF ok] by (auto simp: insert_request_Inr)
  then show ?thesis
    by (auto simp: flight_effect_def active_pairs_def slot_index_def uniq_on_snoc)
qed

lemma claim_effect:
  assumes inv: "ledger_inv st" and ok: "ClaimQueuedCardRequests now c l def st = Inr ((p, fs), st')"
  shows "flight_effect (Acquire c (cr_id p)) st st'"
proof -
  obtain h rest where q: "queue_of c st = h # rest" and free: "\<not> slot_taken c st"
    and p: "p = promote_to_launching now l def h"
    and st': "st' = st\<lparr>st_requests := update_where (queued_of c) (claim_row now l def (cr_id h)) (st_requests st)\<rparr>"
    using claim_Inr [OF inv ok] by metis
  note h = queue_head [OF q]
  note d = rows_invD [OF inv [unfolded ledger_inv_def, THEN conjunct1]]
  let ?g = "\<lambda>r. if queued_of c r then claim_row now l def (cr_id h) r else r"
  have act: "is_active (?g r) \<longleftrightarrow> is_active r \<or> r = h" if "r \<in> set (st_requests st)" for r
    using that h row_by_id [OF d(1) that h(1)] by (auto simp: is_active_def queued_of_def split: if_splits)
  have "active_pairs (st\<lparr>st_requests := map ?g (st_requests st)\<rparr>) = insert (c, cr_id p) (active_pairs st)"
    by (subst active_pairs_map) (use act h p in \<open>auto simp: active_pairs_def queued_of_def\<close>)
  then show ?thesis
    using free st' by (auto simp: flight_effect_def update_where_def slot_taken_def active_pairs_def)
qed

lemma finish_effect:
  assumes inv: "ledger_inv st" and ok: "FinishCardRequest uid now rid result st = Inr st'"
  shows "flight_effect (Release rid) st st'"
proof -
  obtain row where row: "row \<in> set (st_requests st)" "cr_id row = rid" "cr_status row = RAttached"
    using FinishCardRequest_cases [OF ok inv] .
  have "active_pairs st' = active_pairs (st\<lparr>st_requests := map (finish_map now result row) (st_requests st)\<rparr>)"
    using ok finish_eq [OF inv row(1,3)] row(2)
    by (auto simp: recordCardRequestTerminalOutcome_def dest!: record_frame)
  also have "\<dots> = active_pairs st - {(cr_card_id row, cr_id row)}"
    by (rule closed_pairs [OF inv row(1)])
       (auto simp: finish_map_def folded_under_def absorbable_def is_active_def)
  finally show ?thesis using row by (auto simp: flight_effect_def active_pairs_def is_active_def)
qed

lemma fail_effect:
  assumes inv: "ledger_inv st" and ok: "failCardRequest now rid err sib st = Inr (sibs, st')"
  shows "flight_effect (slot_event rid st) st st'"
proof -
  obtain row where row: "row \<in> set (st_requests st)" "cr_id row = rid" "is_open row"
    and st': "st' = st\<lparr>st_requests := map (fail_map now rid err sib) (st_requests st)\<rparr>"
    using failCardRequest_Inr [OF inv ok] by metis
  note d = rows_invD [OF inv [unfolded ledger_inv_def, THEN conjunct1]]
  have "active_pairs st' = active_pairs st - {(cr_card_id row, cr_id row)}"
    unfolding st'
    by (rule closed_pairs [OF inv row(1)])
       (use row(2) in \<open>auto simp: fail_map_def folded_under_def is_active_def split: folded_sibling_outcome.splits\<close>)
  moreover have "(cr_card_id row, cr_id row) \<in> active_pairs st \<longleftrightarrow> is_active row"
    using row(1) row_by_id [OF d(1) _ row(1)] by (auto simp: active_pairs_def)
  moreover have "slot_event rid st = (if is_active row then Release rid else Other)"
  proof -
    have "r = row" if "r \<in> set (st_requests st)" "cr_id r = rid" for r
      using row_by_id [OF d(1) that(1) row(1)] that(2) row(2) by simp
    then have "(\<exists>r \<in> set (st_requests st). cr_id r = rid \<and> is_active r) \<longleftrightarrow> is_active row"
      using row(1,2) by blast
    then show ?thesis by (simp add: slot_event_def)
  qed
  ultimately show ?thesis using row(2) by (auto simp: flight_effect_def)
qed

lemma force_effect:
  assumes inv: "ledger_inv st" and ok: "ForceReleaseCardRequest uid now rid reason st = Inr (sibs, st')"
  shows "flight_effect (slot_event rid st) st st'"
proof -
  obtain st1 err where f: "failCardRequest now rid err FoldedSiblingsFail st = Inr (sibs, st1)"
    and "active_pairs st' = active_pairs st1"
    using ok by (auto simp: ForceReleaseCardRequest_def Let_def dest!: record_frame SetBarrier_frame)
  with fail_effect [OF inv f] show ?thesis by (simp add: flight_effect_def split: flight_event.splits)
qed

lemma update_effect:
  assumes "\<And>r. r \<in> set (st_requests st) \<Longrightarrow> P r \<Longrightarrow>
      cr_id (f r) = cr_id r \<and> cr_card_id (f r) = cr_card_id r \<and> (is_active (f r) \<longleftrightarrow> is_active r)"
  shows "flight_effect Other st (st\<lparr>st_requests := update_where P f (st_requests st)\<rparr>)"
proof -
  let ?g = "\<lambda>r. if P r then f r else r"
  have "active_pairs (st\<lparr>st_requests := map ?g (st_requests st)\<rparr>) = active_pairs st"
    by (subst active_pairs_map) (use assms in \<open>auto simp: active_pairs_def\<close>)
  then show ?thesis by (simp add: flight_effect_def update_where_def)
qed

lemma gc_effect: "flight_effect Other st (snd (GCCardRequests now olderThan dryRun st))"
  by (auto simp: flight_effect_def active_pairs_def GCCardRequests_def Let_def gc_collectable_def is_active_def)

lemma delete_effect:
  assumes inv: "ledger_inv st"
  shows "flight_effect (cascade_event c st) st (delete_card c st)"
proof (cases "holder_of st c")
  case None
  then show ?thesis
    using holder_of_None [OF inv, of c]
    by (auto simp: cascade_event_def flight_effect_def active_pairs_def delete_card_def)
next
  case (Some h)
  then have h: "(c, h) \<in> active_pairs st" using holder_of_iff [OF inv] by simp
  have "(c, h') \<in> active_pairs st \<Longrightarrow> h' = h" for h'
    using holder_of_iff [OF inv, of c h'] Some by simp
  then have "active_pairs (delete_card c st) = active_pairs st - {(c, h)}"
    by (auto simp: active_pairs_def delete_card_def)
  with h Some show ?thesis by (auto simp: cascade_event_def flight_effect_def)
qed

lemma record_effect:
  assumes "ledger_inv st" and "CreateAction uid ruid now w a rs st = Inr (a', st')"
  shows "flight_effect Other st st'"
proof -
  from assms(2) obtain x st1 where st1: "insert_action x st = Inr st1"
    and ing: "IngestCardEventRequest ruid now w x rs st1 = Inr st'"
    by (auto simp: CreateAction_def Let_def)
  have inv1: "ledger_inv st1" and ap: "active_pairs st1 = active_pairs st"
    using st1 assms(1) by (auto simp: insert_action_Inr)
  have "flight_effect Other st1 st'"
  proof (cases "st' = st1")
    case True
    then show ?thesis by (simp add: flight_effect_def)
  next
    case False
    then obtain req row where c: "CreateCardRequest ruid now None req st1 = Inr (row, st')"
      using ing by (auto simp: IngestCardEventRequest_def
          split: option.splits if_splits sum.splits cr_error.splits prod.splits)
    then have "\<not> is_active row" by (auto simp: CreateCardRequest_def Let_def is_active_def)
    with create_effect [OF inv1 c] show ?thesis by simp
  qed
  with ap show ?thesis by (simp add: flight_effect_def)
qed

lemma ledger_step_effect:
  assumes "ledger_step st e st'" and inv: "ledger_inv st"
  shows "flight_effect e st st'"
  using assms(1)
proof (cases rule: ledger_step.cases)
  case (create_queued uid now req row)
  then have "\<not> is_active row" by (auto simp: CreateCardRequest_def Let_def is_active_def)
  with create_effect [OF inv create_queued(3)] create_queued(1) show ?thesis by simp
next
  case (create_launching uid now req row)
  then have "is_active row" by (auto simp: CreateCardRequest_def Let_def is_active_def split: if_splits)
  with create_effect [OF inv create_launching(3)] create_launching(1) show ?thesis by simp
next
  case (claim now cardID launcher def p fs)
  then show ?thesis using claim_effect [OF inv] by blast
next
  case (dispatch now cardID launcher key def p fs)
  show ?thesis
    by (cases rule: repo_claim_cases [OF inv dispatch(2)]) (use dispatch(1) claim_effect [OF inv] in auto)
next
  case (dispatch_skip now cardID launcher key def e')
  show ?thesis
  proof (cases rule: repo_claim_cases [OF inv dispatch_skip(2)])
    case (2 reason)
    then show ?thesis
      using dispatch_skip(1) update_effect [of st "queued_of cardID" "fail_row now reason"]
      by (auto simp: queued_of_def is_active_def)
  qed (use dispatch_skip(1) in \<open>auto simp: flight_effect_def\<close>)
next
  case (attach now rid kind tid)
  then show ?thesis
    using update_effect [of st "\<lambda>r. cr_id r = rid \<and> cr_status r = RLaunching" "attach_to now kind tid"]
    by (auto simp: AttachCardRequest_def exec_update_Inr is_active_def)
next
  case (attach_owned now rid owner kind tid)
  then show ?thesis
    using update_effect [of st "\<lambda>r. cr_id r = rid \<and> cr_status r = RLaunching \<and> cr_launcher_job_id r = owner"
        "attach_to now kind tid"]
    by (auto simp: AttachCardRequestOwned_def exec_update_Inr is_active_def split: if_splits)
next
  case (finish uid now rid result)
  then show ?thesis using finish_effect [OF inv] by blast
next
  case (fail uid now rid err)
  then obtain st1 where f: "failCardRequest now rid err FoldedSiblingsRequeue st = Inr ([], st1)"
    and "active_pairs st' = active_pairs st1"
    using failCardRequest_Inr [OF inv]
    by (auto simp: FailCardRequest_def recordCardRequestTerminalOutcome_def dest!: record_frame) fastforce
  with fail_effect [OF inv f] fail(1) show ?thesis by (simp add: flight_effect_def split: flight_event.splits)
next
  case (force_release uid now rid reason sibs)
  then show ?thesis using force_effect [OF inv] by blast
next
  case (retry now rid)
  then obtain c where "st' = ClearCardForceReleaseBarrier c
      (st\<lparr>st_requests := update_where (\<lambda>r. cr_id r = rid \<and> cr_status r = RFailed) (retry_row now) (st_requests st)\<rparr>)"
    by (auto simp: RetryCardRequest_def exec_update_Inr)
  with retry(1) update_effect [of st "\<lambda>r. cr_id r = rid \<and> cr_status r = RFailed" "retry_row now"]
  show ?thesis by (auto simp: flight_effect_def ClearCardForceReleaseBarrier_def is_active_def)
next
  case (record_action ruid uid now w a rs a')
  then show ?thesis using record_effect [OF inv] by blast
next
  case (clear_barrier cardID)
  then show ?thesis by (simp add: flight_effect_def ClearCardForceReleaseBarrier_def)
next
  case (gc now olderThan dryRun n)
  then show ?thesis using gc_effect [of st now olderThan dryRun] by simp
next
  case (world ts js)
  then show ?thesis by (auto simp: flight_effect_def active_pairs_def)
next
  case (delete cardID)
  then show ?thesis using delete_effect [OF inv] by simp
qed

interpretation card_slot: paired_flight ledger_inv active_pairs holder_of ledger_step
  using ledger_step_inv holder_of_iff ledger_step_effect
  by unfold_locales (auto simp: flight_effect_def pair_effect_def)

end
