(* ===== verification/Card_Properties.thy ===== *)
theory Card_Properties
  imports Card_System
begin

text \<open>
  The properties of the card-request ledger: its invariant over every run, the single slot per card,
  claims, closings, ownership and the force-release barrier.
\<close>

section \<open>Barriers\<close>

text \<open>
  The steps that may lift the barrier of a card: a human command or Go on it, a retry of one of its requests, its
  deletion.
\<close>

definition lifts_barrier :: "string \<Rightarrow> orch_store \<Rightarrow> orch_store \<Rightarrow> bool" where
  "lifts_barrier c st st' \<longleftrightarrow>
     st' = ClearCardForceReleaseBarrier c st \<or> st' = delete_card c st
     \<or> (\<exists>now r. r \<in> set (st_requests st) \<and> cr_card_id r = c \<and> RetryCardRequest now (cr_id r) st = Inr st')"

definition unattended_step :: "string \<Rightarrow> orch_store \<Rightarrow> orch_store \<Rightarrow> bool" where
  "unattended_step c st st' \<longleftrightarrow> (\<exists>e. ledger_step st e st') \<and> \<not> lifts_barrier c st st'"

lemma record_barriers:
  "recordCardRequestOutcome uid now rid ty res err reason sibs st = Inr st' \<Longrightarrow> st_barriers st' = st_barriers st"
  by (auto dest!: record_frame)

lemma create_barriers:
  "CreateCardRequest uid now s req st = Inr (row, st') \<Longrightarrow> st_barriers st' = st_barriers st"
  by (auto dest!: CreateCardRequest_Inr simp: insert_request_Inr)

lemma fail_barriers:
  "failCardRequest now rid err sib st = Inr (sibs, st') \<Longrightarrow> st_barriers st' = st_barriers st"
  by (auto simp: failCardRequest_def exec_update_Inr Let_def split: folded_sibling_outcome.splits)

lemma claim_barriers:
  assumes "ledger_inv st" and "ClaimQueuedCardRequests now c l def st = Inr ((p, fs), st')"
  shows "st_barriers st' = st_barriers st"
  by (rule claim_Inr [OF assms]) simp

lemma action_barriers:
  assumes "CreateAction uid ruid now w a rs st = Inr (a', st')"
  shows "st_barriers st' = st_barriers st"
proof -
  from assms obtain x st1 where "insert_action x st = Inr st1"
    and ing: "IngestCardEventRequest ruid now w x rs st1 = Inr st'"
    by (auto simp: CreateAction_def Let_def)
  moreover have "st_barriers st' = st_barriers st1"
    using ing by (auto simp: IngestCardEventRequest_def create_barriers
        split: option.splits if_splits sum.splits cr_error.splits prod.splits)
  ultimately show ?thesis by (auto simp: insert_action_Inr)
qed

text \<open>A retry clears the barrier of the card of its request and no other.\<close>

lemma retry_barriers:
  assumes "RetryCardRequest now rid st = Inr st'"
  obtains r where "r \<in> set (st_requests st)" "cr_id r = rid"
    "st_barriers st' = delete_where (\<lambda>b. fst b = cr_card_id r) (st_barriers st)"
proof -
  obtain row st1 where st1: "st1 = st\<lparr>st_requests := update_where (\<lambda>r. cr_id r = rid \<and> cr_status r = RFailed) (retry_row now) (st_requests st)\<rparr>"
      and g: "GetCardRequest rid st1 = Inr row" and st': "st' = ClearCardForceReleaseBarrier (cr_card_id row) st1"
    using assms by (auto simp: RetryCardRequest_def exec_update_Inr)
  from g have row: "row \<in> set (st_requests st1)" "cr_id row = rid" by (auto dest: GetCardRequest_Inr)
  from row(1) have "row \<in> set (update_where (\<lambda>r. cr_id r = rid \<and> cr_status r = RFailed) (retry_row now) (st_requests st))"
    by (simp add: st1)
  then have "\<exists>r \<in> set (st_requests st). cr_id r = rid \<and> cr_card_id r = cr_card_id row"
    by (rule in_update_whereE) (use row(2) in \<open>auto simp: retry_row_def\<close>)
  then obtain r where "r \<in> set (st_requests st)" "cr_id r = rid" "cr_card_id r = cr_card_id row" by blast
  then show thesis using that [of r] by (simp add: st1 st' ClearCardForceReleaseBarrier_def)
qed

lemma step_barriers:
  assumes "ledger_step st e st'" and inv: "ledger_inv st"
    and b: "HasCardForceReleaseBarrier c st" and "\<not> lifts_barrier c st st'"
  shows "HasCardForceReleaseBarrier c st'"
  using assms(1)
proof (cases rule: ledger_step.cases)
  case (claim now cardID launcher def p fs)
  then show ?thesis using b claim_barriers [OF inv] by (simp add: HasCardForceReleaseBarrier_def)
next
  case (dispatch now cardID launcher key def p fs)
  show ?thesis
  proof (cases rule: repo_claim_cases [OF inv dispatch(2)])
    case (1 p fs)
    then show ?thesis using b claim_barriers [OF inv 1(2)] by (simp add: HasCardForceReleaseBarrier_def)
  qed auto
next
  case (dispatch_skip now cardID launcher key def e')
  show ?thesis
    by (cases rule: repo_claim_cases [OF inv dispatch_skip(2)])
       (use b in \<open>auto simp: HasCardForceReleaseBarrier_def\<close>)
next
  case (finish uid now rid result)
  then show ?thesis
    using b by (auto simp: FinishCardRequest_def Let_def exec_update_Inr HasCardForceReleaseBarrier_def
        recordCardRequestTerminalOutcome_def dest!: record_barriers)
next
  case (fail uid now rid err)
  then show ?thesis
    using b by (auto simp: FailCardRequest_def HasCardForceReleaseBarrier_def
        recordCardRequestTerminalOutcome_def dest!: record_barriers fail_barriers)
next
  case (force_release uid now rid reason sibs)
  then obtain st1 st2 c' where "st_barriers st1 = st_barriers st"
      and s: "SetCardForceReleaseBarrier now c' st1 = Inr st2" and "st_barriers st' = st_barriers st2"
    by (auto simp: ForceReleaseCardRequest_def Let_def dest!: record_barriers fail_barriers)
  moreover note SetBarrier_keys [OF s]
  ultimately show ?thesis using b by (simp add: HasCardForceReleaseBarrier_def)
next
  case (clear_barrier cardID)
  with assms(4) have "cardID \<noteq> c" by (auto simp: lifts_barrier_def)
  then show ?thesis
    using b clear_barrier by (auto simp: HasCardForceReleaseBarrier_def ClearCardForceReleaseBarrier_def image_iff)
next
  case (retry now rid)
  obtain r where "r \<in> set (st_requests st)" "cr_id r = rid"
      "st_barriers st' = delete_where (\<lambda>b. fst b = cr_card_id r) (st_barriers st)"
    using retry_barriers [OF retry(2)] .
  moreover from this retry(2) have "cr_card_id r \<noteq> c" using assms(4) by (auto simp: lifts_barrier_def)
  ultimately show ?thesis using b by (auto simp: HasCardForceReleaseBarrier_def image_iff)
next
  case (gc now olderThan dryRun n)
  then show ?thesis using b by (auto simp: HasCardForceReleaseBarrier_def GCCardRequests_def Let_def split: if_splits)
next
  case (delete cardID)
  with assms(4) have "cardID \<noteq> c" by (auto simp: lifts_barrier_def)
  then show ?thesis
    using b delete by (auto simp: HasCardForceReleaseBarrier_def delete_card_def image_iff)
next
  case (record_action ruid uid now w a rs a')
  then show ?thesis using b by (auto simp: HasCardForceReleaseBarrier_def dest!: action_barriers)
qed (use b in \<open>auto simp: HasCardForceReleaseBarrier_def AttachCardRequest_def AttachCardRequestOwned_def
      exec_update_Inr dest!: create_barriers split: if_splits\<close>)

lemma unattended_keeps_barrier:
  assumes "(unattended_step c)\<^sup>*\<^sup>* st st'" "ledger_inv st" "HasCardForceReleaseBarrier c st"
  shows "ledger_inv st' \<and> HasCardForceReleaseBarrier c st'"
  using assms
proof (induction rule: rtranclp_induct)
  case (step st1 st2)
  then obtain e where "ledger_step st1 e st2" "\<not> lifts_barrier c st1 st2" by (auto simp: unattended_step_def)
  with step ledger_step_inv step_barriers show ?case by blast
qed simp

lemma force_release_barrier:
  assumes "ForceReleaseCardRequest uid now rid reason st = Inr (sibs, st')" and inv: "ledger_inv st"
  obtains row where "row \<in> set (st_requests st)" "cr_id row = rid" "HasCardForceReleaseBarrier (cr_card_id row) st'"
proof -
  from assms(1) obtain st1 st2 err row1 where f: "failCardRequest now rid err FoldedSiblingsFail st = Inr (sibs, st1)"
    and g: "GetCardRequest rid st1 = Inr row1" and s: "SetCardForceReleaseBarrier now (cr_card_id row1) st1 = Inr st2"
    and b: "st_barriers st' = st_barriers st2"
    by (auto simp: ForceReleaseCardRequest_def Let_def dest!: record_barriers)
  obtain row where row: "row \<in> set (st_requests st)" "cr_id row = rid"
    and st1: "st1 = st\<lparr>st_requests := map (fail_map now rid err FoldedSiblingsFail) (st_requests st)\<rparr>"
    using failCardRequest_Inr [OF inv f] by metis
  from g have "row1 \<in> set (st_requests st1)" "cr_id row1 = rid" by (auto dest: GetCardRequest_Inr)
  then obtain r0 where r0: "r0 \<in> set (st_requests st)" "row1 = fail_map now rid err FoldedSiblingsFail r0"
    using st1 by auto
  then have "cr_id r0 = rid" "cr_card_id row1 = cr_card_id r0"
    using \<open>cr_id row1 = rid\<close> by (simp_all add: fail_map_def split: if_splits)
  with row r0(1) inv have "cr_card_id row1 = cr_card_id row"
    using row_by_id [of "st_requests st" r0 row] by (simp add: ledger_inv_def rows_inv_def)
  with SetBarrier_keys [OF s] b have "HasCardForceReleaseBarrier (cr_card_id row) st'"
    by (simp add: HasCardForceReleaseBarrier_def)
  with row that show ?thesis by blast
qed

section \<open>Closing frees the slot\<close>

lemma slot_free_map:
  assumes "\<And>r. r \<in> set (st_requests st) \<Longrightarrow> cr_card_id (g r) = cr_card_id r"
    and "\<And>r. r \<in> set (st_requests st) \<Longrightarrow> cr_card_id r = c \<Longrightarrow> \<not> is_active (g r)"
  shows "\<not> slot_taken c (st\<lparr>st_requests := map g (st_requests st), st_actions := as\<rparr>)"
proof
  assume "slot_taken c (st\<lparr>st_requests := map g (st_requests st), st_actions := as\<rparr>)"
  then obtain r where "r \<in> set (st_requests st)" "is_active (g r)" "cr_card_id (g r) = c"
    by (auto simp: slot_taken_def)
  with assms show False by metis
qed

lemma slot_holder_sole:
  assumes "ledger_inv st" "row \<in> set (st_requests st)" "is_active row"
    "r \<in> set (st_requests st)" "cr_card_id r = cr_card_id row"
  shows "is_active r \<longleftrightarrow> cr_id r = cr_id row"
proof -
  note i = assms(1) [unfolded ledger_inv_def, THEN conjunct1]
  show ?thesis
    using slot_holder_unique [OF i assms(4,2) _ assms(3) assms(5)]
      row_by_id [OF rows_invD(1) [OF i] assms(4,2)] assms(3) by auto
qed

lemma folded_not_self:
  assumes "ledger_inv st" "row \<in> set (st_requests st)" "is_active row"
    "r \<in> set (st_requests st)" "folded_under (cr_id row) r"
  shows "cr_id r \<noteq> cr_id row"
  using row_by_id [OF rows_invD(1) [OF assms(1) [unfolded ledger_inv_def, THEN conjunct1]] assms(4,2)] assms(3,5)
  by (auto simp: folded_under_def is_active_def)

lemma finish_frees:
  assumes inv: "ledger_inv st" and row: "row \<in> set (st_requests st)" "is_active row" "cr_status row = RAttached"
    and uid: "uid \<notin> ac_id ` set (st_actions st)"
  shows "\<exists>st'. FinishCardRequest uid now (cr_id row) text st = Inr st' \<and> \<not> slot_taken (cr_card_id row) st'
        \<and> (\<forall>r \<in> set (st_requests st). folded_under (cr_id row) r \<longrightarrow>
             absorb_row now (''absorbed by '' @ cr_id row) r \<in> set (st_requests st'))"
proof -
  let ?g = "finish_map now text row"
  obtain new where f: "FinishCardRequest uid now (cr_id row) text st =
      Inr (st\<lparr>st_requests := map ?g (st_requests st), st_actions := st_actions st @ new\<rparr>)"
    using finish_ok [OF inv row(1,3) uid] by metis
  have "\<not> slot_taken (cr_card_id row) (st\<lparr>st_requests := map ?g (st_requests st), st_actions := st_actions st @ new\<rparr>)"
  proof (rule slot_free_map)
    show "\<not> is_active (?g r)" if "r \<in> set (st_requests st)" "cr_card_id r = cr_card_id row" for r
      using slot_holder_sole [OF inv row(1,2) that] by (auto simp: finish_map_def)
  qed (simp add: finish_map_def)
  moreover have "absorb_row now (''absorbed by '' @ cr_id row) r \<in> ?g ` set (st_requests st)"
    if "r \<in> set (st_requests st)" "folded_under (cr_id row) r" for r
    using folded_not_self [OF inv row(1,2) that] that by (intro image_eqI [of _ _ r]) (simp_all add: finish_map_def)
  ultimately show ?thesis using f by simp
qed

lemma fail_frees:
  assumes inv: "ledger_inv st" and row: "row \<in> set (st_requests st)" "is_active row" "is_open row"
    and uid: "uid \<notin> ac_id ` set (st_actions st)"
  shows "\<exists>st'. FailCardRequest uid now (cr_id row) text st = Inr st' \<and> \<not> slot_taken (cr_card_id row) st'
        \<and> (\<forall>r \<in> set (st_requests st). folded_under (cr_id row) r \<longrightarrow> requeue_folded now r \<in> set (st_requests st'))"
proof -
  let ?g = "fail_map now (cr_id row) text FoldedSiblingsRequeue"
  obtain new where f: "FailCardRequest uid now (cr_id row) text st =
      Inr (st\<lparr>st_requests := map ?g (st_requests st), st_actions := st_actions st @ new\<rparr>)"
    using fail_ok [OF inv row(1,3) uid] by metis
  have "\<not> slot_taken (cr_card_id row) (st\<lparr>st_requests := map ?g (st_requests st), st_actions := st_actions st @ new\<rparr>)"
  proof (rule slot_free_map)
    show "\<not> is_active (?g r)" if "r \<in> set (st_requests st)" "cr_card_id r = cr_card_id row" for r
      using slot_holder_sole [OF inv row(1,2) that] by (auto simp: fail_map_def)
  qed (simp add: fail_map_def)
  moreover have "requeue_folded now r \<in> ?g ` set (st_requests st)"
    if "r \<in> set (st_requests st)" "folded_under (cr_id row) r" for r
    using folded_not_self [OF inv row(1,2) that] that
    by (intro image_eqI [of _ _ r]) (simp_all add: fail_map_def sibling_map_def)
  ultimately show ?thesis using f by simp
qed

section \<open>Samples\<close>

definition sample_request :: "string \<Rightarrow> string \<Rightarrow> request_status \<Rightarrow> time \<Rightarrow> card_request" where
  "sample_request rid cause s created =
     (event_request ''c1'' ''review'' cause)\<lparr>cr_id := rid, cr_status := s, cr_created_at := created,
        cr_updated_at := created\<rparr>"

definition sample_store :: "card_request list \<Rightarrow> job list \<Rightarrow> orch_store" where
  "sample_store rows jobs =
     \<lparr>st_tasks = [\<lparr>t_id = ''c1'', t_type = TaskTypeCard, t_project_id = ''p'', t_workspace_id = ''w'',
        t_remote_id = [], t_title = [], t_description = [], t_status = Parked, t_ref = [],
        t_parent_id = [], t_idempotency_key = [], t_created_at = 0, t_updated_at = 0,
        t_card = None, t_exec = None, t_total_child_count = 0, t_done_child_count = 0,
        t_aborted_child_count = 0, t_open_child_count = 0, t_awaiting_child_count = 0, t_blocked = False\<rparr>],
      st_jobs = jobs, st_requests = rows, st_barriers = [], st_actions = [], st_op_results = []\<rparr>"

definition two_queued :: orch_store where
  "two_queued = sample_store [sample_request ''r2'' ''e2'' RQueued 2, sample_request ''r1'' [] RQueued 1] []"

definition one_attached :: orch_store where
  "one_attached = sample_store
     [(sample_request ''r1'' [] RAttached 1)\<lparr>cr_launcher_job_id := ''j0'', cr_target_kind := ''session'',
        cr_target_id := ''j1''\<rparr>,
      (sample_request ''r2'' ''e2'' RFolded 2)\<lparr>cr_folded_into := ''r1''\<rparr>]
     [\<lparr>jb_id = ''j1'', jb_status = ''completed'', jb_role = ''session'', jb_card_request_id = ''r1'',
       jb_created_at = 1\<rparr>]"

definition one_launching :: orch_store where
  "one_launching = sample_store
     [(sample_request ''r1'' [] RLaunching 1)\<lparr>cr_launcher_job_id := ''j0''\<rparr>]
     [\<lparr>jb_id = ''j1'', jb_status = ''running'', jb_role = ''session'', jb_card_request_id = ''r1'',
       jb_created_at = 1\<rparr>]"

lemmas sample_defs = two_queued_def one_attached_def one_launching_def sample_store_def sample_request_def
  event_request_def

lemma sample_invs: "ledger_inv two_queued" "ledger_inv one_attached" "ledger_inv one_launching"
  by code_simp+

section \<open>Properties\<close>

text \<open>
  C1. The ledger stays consistent: from a consistent ledger, whatever transactions commit in
  whatever order, the invariant holds and no card ever has more than one request in its slot.
\<close>

theorem ledger_always_consistent:
  assumes "ledger_inv st" and "flight_run ledger_step st es st'"
  shows "ledger_inv st' \<and> CountActiveCardRequests cardID st' \<le> 1"
proof -
  have inv: "ledger_inv st'" using card_slot.run_inv [OF assms(2,1)] .
  note d = rows_invD [OF inv [unfolded ledger_inv_def, THEN conjunct1]]
  let ?F = "filter (\<lambda>r. cr_card_id r = cardID \<and> is_active r) (st_requests st')"
  have "length ?F \<le> 1"
  proof (rule length_le_one)
    show "distinct ?F" using d(6) by simp
    show "a = b" if "a \<in> set ?F" "b \<in> set ?F" for a b
      using slot_holder_unique [OF inv [unfolded ledger_inv_def, THEN conjunct1], of a b] that by simp
  qed
  with inv show ?thesis by (simp add: CountActiveCardRequests_def rows_affected_def)
qed

theorem ledger_always_consistent_witness:
  "\<exists>st'. flight_run ledger_step one_attached [Release ''r1''] st' \<and> CountActiveCardRequests ''c1'' st' \<le> 1"
proof -
  have "is_ok (FinishCardRequest ''a1'' 5 ''r1'' ''ok'' one_attached)" by code_simp
  then obtain st' where "FinishCardRequest ''a1'' 5 ''r1'' ''ok'' one_attached = Inr st'"
    by (auto simp: is_ok_iff)
  then have run: "flight_run ledger_step one_attached [Release ''r1''] st'"
    by (blast intro: flight_cons flight_nil finish)
  from ledger_always_consistent [OF sample_invs(2) run, of "''c1''"] run show ?thesis by blast
qed

text \<open>
  C3. Executions of a card never overlap: if in some run of the system a card's slot is taken twice,
  by a claim, an automatic dispatch or a reservation, then the first taker let go of it in between.
\<close>

theorem slot_never_overlaps:
  assumes "ledger_inv st"
    and "flight_run ledger_step st (pre @ Acquire cardID h # mid @ Acquire cardID h' # post) st'"
  shows "Release h \<in> set mid"
  using card_slot.no_overlap [of st pre cardID h mid h' post st'] assms by blast

text \<open>A claim, the failure of its request, and the claim that follows.\<close>

definition claim_fail_claim :: "orch_store \<Rightarrow> (orch_store \<times> orch_store \<times> orch_store) option" where
  "claim_fail_claim st =
     (case ClaimQueuedCardRequests 5 ''c1'' ''j0'' blank_definition st of
        Inr ((p, _), st1) \<Rightarrow>
          (case FailCardRequest ''a1'' 6 (cr_id p) ''x'' st1 of
             Inr st2 \<Rightarrow>
               (case ClaimQueuedCardRequests 7 ''c1'' ''j2'' blank_definition st2 of
                  Inr (_, st3) \<Rightarrow> Some (st1, st2, st3) | Inl _ \<Rightarrow> None)
           | Inl _ \<Rightarrow> None)
      | Inl _ \<Rightarrow> None)"

theorem slot_never_overlaps_witness:
  "\<exists>st' h'. flight_run ledger_step two_queued [Acquire ''c1'' ''r1'', Release ''r1'', Acquire ''c1'' h'] st'
     \<and> Release ''r1'' \<in> set [Release ''r1'' :: (string, string) flight_event]"
proof -
  have "claim_fail_claim two_queued \<noteq> None" by code_simp
  moreover have head: "case ClaimQueuedCardRequests 5 ''c1'' ''j0'' blank_definition two_queued of
      Inl _ \<Rightarrow> False | Inr ((p, _), st1) \<Rightarrow> cr_id p = ''r1'' \<and> slot_event ''r1'' st1 = Release ''r1''"
    by code_simp
  ultimately obtain p fs st1 st2 q gs st3 where
    c1: "ClaimQueuedCardRequests 5 ''c1'' ''j0'' blank_definition two_queued = Inr ((p, fs), st1)"
    and f: "FailCardRequest ''a1'' 6 (cr_id p) ''x'' st1 = Inr st2"
    and c2: "ClaimQueuedCardRequests 7 ''c1'' ''j2'' blank_definition st2 = Inr ((q, gs), st3)"
    by (auto simp: claim_fail_claim_def split: sum.splits prod.splits)
  have p: "cr_id p = ''r1''" "slot_event ''r1'' st1 = Release ''r1''" using head c1 by auto
  have s1: "ledger_step two_queued (Acquire ''c1'' ''r1'') st1" using claim [OF c1] p(1) by simp
  have s2: "ledger_step st1 (Release ''r1'') st2" using fail [OF f] p by simp
  have s3: "ledger_step st2 (Acquire ''c1'' (cr_id q)) st3" by (rule claim [OF c2])
  have run: "flight_run ledger_step two_queued
      ([] @ Acquire ''c1'' ''r1'' # [Release ''r1''] @ Acquire ''c1'' (cr_id q) # []) st3"
    using s1 s2 s3 by (auto intro!: flight_cons flight_nil)
  from slot_never_overlaps [OF sample_invs(1) run] run show ?thesis by auto
qed

text \<open>
  C10. What a claim does, on every branch: without queued requests or with the slot taken it is
  refused; otherwise the oldest queued request (by creation, then id) takes the slot with its
  launcher and definition recorded, every other queued request of the card folds into it, and no
  other row changes.
\<close>

theorem claim_takes_oldest:
  assumes "ledger_inv st" and "cardID \<noteq> []" and "launcher \<noteq> []"
  shows "case ClaimQueuedCardRequests now cardID launcher def st of
      Inl e \<Rightarrow> e = (if \<exists>r \<in> set (st_requests st). queued_of cardID r
                  then ErrCardRequestSlotOccupied else ErrNoQueuedCardRequests)
        \<and> ((\<exists>r \<in> set (st_requests st). queued_of cardID r) \<longrightarrow> slot_taken cardID st)
    | Inr ((p, fs), st') \<Rightarrow> \<not> slot_taken cardID st \<and>
        (\<exists>h \<in> set (st_requests st). queued_of cardID h
          \<and> (\<forall>r \<in> set (st_requests st). queued_of cardID r \<longrightarrow> request_order h \<le> request_order r)
          \<and> p = promote_to_launching now launcher def h
          \<and> st' = st\<lparr>st_requests := map (\<lambda>r. if \<not> queued_of cardID r then r
                else if cr_id r = cr_id h then promote_to_launching now launcher def r
                else fold_into now (cr_id h) r) (st_requests st)\<rparr>)"
proof (cases "queue_of cardID st")
  case Nil
  then have "set (queue_of cardID st) = {}" by simp
  then have "\<not> (\<exists>r \<in> set (st_requests st). queued_of cardID r)" by (auto simp: queue_of_def)
  with Nil show ?thesis by (simp add: claim_unfold [OF assms])
next
  case (Cons h rest)
  note h = queue_head [OF Cons]
  have rows: "update_where (queued_of cardID) (claim_row now launcher def (cr_id h)) (st_requests st) =
      map (\<lambda>r. if \<not> queued_of cardID r then r
        else if cr_id r = cr_id h then promote_to_launching now launcher def r
        else fold_into now (cr_id h) r) (st_requests st)"
    by (auto simp: update_where_def claim_row_def)
  show ?thesis
    using h Cons by (auto simp: claim_unfold [OF assms] rows)
qed

theorem claim_takes_oldest_witness:
  "case ClaimQueuedCardRequests 5 ''c1'' ''j0'' blank_definition two_queued of
      Inl e \<Rightarrow> False
    | Inr ((p, fs), st') \<Rightarrow> cr_id p = ''r1'' \<and> \<not> slot_taken ''c1'' two_queued"
proof -
  have "\<exists>p fs st'. ClaimQueuedCardRequests 5 ''c1'' ''j0'' blank_definition two_queued = Inr ((p, fs), st')
      \<and> cr_id p = ''r1''"
  proof -
    have "case ClaimQueuedCardRequests 5 ''c1'' ''j0'' blank_definition two_queued of
        Inl e \<Rightarrow> False | Inr ((p, fs), st') \<Rightarrow> cr_id p = ''r1''" by code_simp
    then show ?thesis by (auto split: sum.splits prod.splits)
  qed
  with claim_takes_oldest [OF sample_invs(1), of "''c1''" "''j0''" 5 blank_definition]
  show ?thesis by auto
qed

text \<open>
  C16. Closing is never refused: an attached request can always be finished and an open one always
  failed, whatever else is in the ledger, and both free the card's slot. Finishing closes the folded
  requests with it; failing returns them to the queue.
\<close>

theorem closing_never_refused:
  assumes "ledger_inv st" and "row \<in> set (st_requests st)" and "uid \<notin> ac_id ` set (st_actions st)"
    and "is_active row"
  shows "(cr_status row = RAttached \<longrightarrow>
      (\<exists>st'. FinishCardRequest uid now (cr_id row) text st = Inr st' \<and> \<not> slot_taken (cr_card_id row) st'
        \<and> (\<forall>r \<in> set (st_requests st). folded_under (cr_id row) r \<longrightarrow>
             absorb_row now (''absorbed by '' @ cr_id row) r \<in> set (st_requests st'))))
    \<and> (\<exists>st'. FailCardRequest uid now (cr_id row) text st = Inr st' \<and> \<not> slot_taken (cr_card_id row) st'
        \<and> (\<forall>r \<in> set (st_requests st). folded_under (cr_id row) r \<longrightarrow>
             requeue_folded now r \<in> set (st_requests st')))"
proof -
  have "is_open row" using assms(4) by (auto simp: is_open_def is_active_def)
  then show ?thesis
    using finish_frees [OF assms(1,2,4) _ assms(3)] fail_frees [OF assms(1,2,4) _ assms(3)] by blast
qed

theorem closing_never_refused_witness:
  "\<exists>st'. FinishCardRequest ''a1'' 5 ''r1'' ''ok'' one_attached = Inr st' \<and> \<not> slot_taken ''c1'' st'"
proof -
  obtain row where row: "row = hd (st_requests one_attached)" by blast
  have facts: "row \<in> set (st_requests one_attached)" "is_active row" "cr_status row = RAttached"
    "cr_id row = ''r1''" "cr_card_id row = ''c1''" "''a1'' \<notin> ac_id ` set (st_actions one_attached)"
    unfolding row by (simp_all add: sample_defs is_active_def)
  from closing_never_refused [OF sample_invs(2) facts(1,6,2), of 5 "''ok''"] facts(3-5) show ?thesis by auto
qed

text \<open>
  C17. An attach asserted by a launcher never takes another's request: for valid arguments it
  succeeds exactly when the request exists, is launching and is owned by the caller, writes that one
  row, and otherwise reports not found, a foreign owner or a wrong status and writes nothing.
\<close>

theorem attach_owned_never_steals:
  assumes "ledger_inv st" and "owner \<noteq> []" and "validateAttachArgs rid kind tid = Inr ()"
  shows "AttachCardRequestOwned now rid owner kind tid st =
     (case GetCardRequest rid st of
        Inl e \<Rightarrow> Inl ErrCardRequestNotFound
      | Inr row \<Rightarrow>
          if cr_launcher_job_id row \<noteq> owner then Inl ErrCardRequestOwnerMismatch
          else if cr_status row \<noteq> RLaunching then Inl ErrCardRequestInvalidTransition
          else Inr ((), st\<lparr>st_requests := map (\<lambda>r. if r = row then attach_to now kind tid r else r)
                            (st_requests st)\<rparr>))"
proof (cases "GetCardRequest rid st")
  case (Inl e)
  then show ?thesis using GetCardRequest_Inl [OF Inl] by (simp add: AttachCardRequestOwned_eq [OF assms])
next
  case (Inr row)
  note d = rows_invD [OF assms(1) [unfolded ledger_inv_def, THEN conjunct1]]
  have row: "row \<in> set (st_requests st)" "cr_id row = rid" using GetCardRequest_Inr [OF Inr] by auto
  have "update_where (\<lambda>r. cr_id r = rid) (attach_to now kind tid) (st_requests st) =
      map (\<lambda>r. if r = row then attach_to now kind tid r else r) (st_requests st)"
    unfolding update_where_def
  proof (rule map_cong [OF refl])
    fix r assume "r \<in> set (st_requests st)"
    then have "cr_id r = rid \<longleftrightarrow> r = row" using row_by_id [OF d(1) _ row(1), of r] row(2) by auto
    then show "(if cr_id r = rid then attach_to now kind tid r else r) =
        (if r = row then attach_to now kind tid r else r)" by simp
  qed
  with Inr show ?thesis by (simp add: AttachCardRequestOwned_eq [OF assms])
qed

theorem attach_owned_never_steals_witness:
  "AttachCardRequestOwned 5 ''r1'' ''thief'' ''session'' ''j1'' one_launching = Inl ErrCardRequestOwnerMismatch
   \<and> is_ok (AttachCardRequestOwned 5 ''r1'' ''j0'' ''session'' ''j1'' one_launching)"
proof -
  have args: "validateAttachArgs ''r1'' ''session'' ''j1'' = Inr ()" by code_simp
  have get: "GetCardRequest ''r1'' one_launching = Inr (hd (st_requests one_launching))" by code_simp
  have row: "cr_launcher_job_id (hd (st_requests one_launching)) = ''j0''"
    "cr_status (hd (st_requests one_launching)) = RLaunching" by (simp_all add: sample_defs)
  show ?thesis
    using attach_owned_never_steals [OF sample_invs(3) _ args, of "''thief''" 5]
      attach_owned_never_steals [OF sample_invs(3) _ args, of "''j0''" 5] get row by simp
qed

text \<open>
  C11. A force release holds until a human acts on the card: it plants the barrier on the request's card, and
  however the system runs on, retries and commands on other cards included, the automatic dispatcher never
  claims a request of the card until one of its own requests is retried, a human command or Go runs on it, or
  it is deleted.
\<close>

theorem force_release_suppresses_dispatch:
  assumes "ledger_inv st" and "ForceReleaseCardRequest uid now rid reason st = Inr (sibs, st1)"
    and "row \<in> set (st_requests st)" and "cr_id row = rid"
    and "(unattended_step (cr_card_id row))\<^sup>*\<^sup>* st1 st2"
  shows "\<exists>e st3. repo_claim_for_dispatch now2 (cr_card_id row) launcher key def st2 = (Inl e, st3)"
proof -
  obtain row' where row': "row' \<in> set (st_requests st)" "cr_id row' = rid"
      "HasCardForceReleaseBarrier (cr_card_id row') st1"
    using force_release_barrier [OF assms(2,1)] by metis
  have "row' = row"
    using row_by_id [OF rows_invD(1) [OF assms(1) [unfolded ledger_inv_def, THEN conjunct1]] row'(1) assms(3)]
      row'(2) assms(4) by simp
  moreover have "ledger_inv st1" using ForceReleaseCardRequest_inv [OF assms(1,2)] .
  ultimately have b: "ledger_inv st2" "HasCardForceReleaseBarrier (cr_card_id row) st2"
    using unattended_keeps_barrier [OF assms(5)] row'(3) by auto
  obtain res st3 where r: "repo_claim_for_dispatch now2 (cr_card_id row) launcher key def st2 = (res, st3)"
    by (cases "repo_claim_for_dispatch now2 (cr_card_id row) launcher key def st2")
  then show ?thesis by (cases rule: repo_claim_cases [OF b(1) r]) (use b(2) in auto)
qed

theorem force_release_suppresses_dispatch_witness:
  "\<exists>sibs st1 e st3. ForceReleaseCardRequest ''a1'' 5 ''r1'' [] two_queued = Inr (sibs, st1)
     \<and> repo_claim_for_dispatch 6 ''c1'' ''j9'' ''review'' blank_definition st1 = (Inl e, st3)"
proof -
  have "is_ok (ForceReleaseCardRequest ''a1'' 5 ''r1'' [] two_queued)" by code_simp
  then obtain sibs st1 where f: "ForceReleaseCardRequest ''a1'' 5 ''r1'' [] two_queued = Inr (sibs, st1)"
    by (auto simp: is_ok_iff)
  obtain row where row: "row = (st_requests two_queued) ! 1" by blast
  have r: "row \<in> set (st_requests two_queued)" "cr_id row = ''r1''" "cr_card_id row = ''c1''"
    unfolding row by (simp_all add: sample_defs)
  from force_release_suppresses_dispatch [OF sample_invs(1) f r(1,2) rtranclp.rtrancl_refl,
      of 6 "''j9''" "''review''" blank_definition] f r(3)
  show ?thesis by auto
qed

end
