(* ===== verification/Card_Contracts.thy ===== *)
theory Card_Contracts
  imports Card_Properties
begin

text \<open>
  The contracts the other parts of the daemon rely on: the reconcile passes at concrete ledgers, the
  ingest of card events, and the garbage collection that keeps the receipts of the requests it
  removes.
\<close>

section \<open>The reconcile passes on concrete ledgers\<close>

definition sample_gen :: "string \<Rightarrow> string" where
  "sample_gen s = ''u-'' @ s"

lemma sample_gen_fresh: "gen_fresh sample_gen one_attached" "gen_fresh sample_gen one_launching"
  by (simp_all add: gen_fresh_def sample_gen_def inj_on_def sample_defs)

lemma sample_jobs: "\<forall>j \<in> set (st_jobs one_launching). jb_id j \<noteq> []"
  by (simp add: sample_defs)

text \<open>The session of the attached request has completed, so the pass empties the slot.\<close>

theorem reconcile_slots_exact_witness:
  "{r \<in> set (st_requests (snd (ReconcileCardRequestSlots sample_gen 9 one_attached))). cr_status r = RAttached} = {}"
proof -
  have "continuationTerminalOutcome r one_attached = (True, True)"
    if "r \<in> set (st_requests one_attached)" "cr_status r = RAttached" for r
    using that by (auto simp: sample_defs continuationTerminalOutcome_def CardRequestTargetKindTask_def
        CardRequestTargetKindSession_def)
  then show ?thesis
    using reconcile_slots_exact [OF sample_invs(2) sample_gen_fresh(1), of 9]
    by (auto simp: Let_def)
qed

text \<open>The launcher of the sample has no job row and is past the grace period only at the later time.\<close>

theorem reconcile_launching_exact_witness:
  "{r \<in> set (st_requests (snd (ReconcileLaunchingCardRequests sample_gen 2 one_launching))). cr_status r = RLaunching}
     = set (st_requests one_launching)
   \<and> {r \<in> set (st_requests (snd (ReconcileLaunchingCardRequests sample_gen 10000000000000 one_launching))).
        cr_status r = RLaunching} = {}"
proof -
  have "\<forall>r \<in> set (st_requests one_launching). cr_status r = RLaunching
      \<and> \<not> launcherJobTerminalOrGone 2 (cr_launcher_job_id r) (cr_updated_at r) one_launching
      \<and> launcherJobTerminalOrGone 10000000000000 (cr_launcher_job_id r) (cr_updated_at r) one_launching
      \<and> cr_command_key r \<noteq> CardRequestCommandKeyGo"
    by code_simp
  then show ?thesis
    using reconcile_launching_exact [OF sample_invs(3) sample_gen_fresh(2) sample_jobs, of 2]
      reconcile_launching_exact [OF sample_invs(3) sample_gen_fresh(2) sample_jobs, of 10000000000000]
    by (auto simp: Let_def)
qed

theorem recover_clears_launching_witness:
  "filter (\<lambda>r. cr_status r = RLaunching)
     (st_requests (snd (RecoverLaunchingCardRequests sample_gen 2 one_launching))) = []"
  using recover_clears_launching [OF sample_invs(3) sample_gen_fresh(2) sample_jobs, of 2]
  by (simp add: Let_def filter_empty_conv)

section \<open>Ingest of card events\<close>

text \<open>The guards the ingest passes before it queues a request for the action.\<close>

definition ingest_applies :: "string option \<Rightarrow> action \<Rightarrow> card_event_resolver \<Rightarrow> orch_store \<Rightarrow> string \<Rightarrow> bool" where
  "ingest_applies writer a rs st key \<longleftrightarrow>
     ac_task_id a \<noteq> [] \<and> ac_type a \<in> set cardEventIngestActionTypes
     \<and> (\<exists>project status. cardEventTaskContext (ac_task_id a) st = Some (TaskTypeCard, project, status)
          \<and> status \<in> {Parked, Working} \<and> resolve_event_command rs (ac_task_id a) project st = Inr (key, True))
     \<and> key \<noteq> [] \<and> \<not> writerHoldsCardsLiveRequest writer (ac_task_id a) st"

lemma ingest_unfold:
  assumes "ingest_applies writer a rs st key"
  shows "IngestCardEventRequest uid now writer a (Some rs) st =
     (case CreateCardRequest uid now None (event_request (ac_task_id a) key (ac_id a)) st of
        Inl ErrCardRequestDuplicateCause \<Rightarrow> Inr st | Inl e \<Rightarrow> Inl e | Inr (_, st') \<Rightarrow> Inr st')"
  using assms by (auto simp: ingest_applies_def IngestCardEventRequest_def)

lemma ingest_skips:
  assumes "\<nexists>key. ingest_applies writer a rs st key"
    and "IngestCardEventRequest uid now writer a (Some rs) st = Inr st'"
  shows "st' = st"
  using assms
  by (fastforce simp: ingest_applies_def IngestCardEventRequest_def and_then_def
      split: option.splits if_splits sum.splits)

lemma context_task: "cardEventTaskContext cardID st = Some x \<Longrightarrow> cardID \<in> t_id ` set (st_tasks st)"
  by (auto simp: cardEventTaskContext_def find_Some_iff)

lemma create_event_request:
  assumes "ledger_inv st" and "uid \<notin> cr_id ` set (st_requests st)"
    and "cardID \<noteq> []" and "cardID \<in> t_id ` set (st_tasks st)" and "cause \<noteq> []"
  shows "CreateCardRequest uid now None (event_request cardID key cause) st =
    (if \<exists>r \<in> set (st_requests st). has_live_cause r \<and> cr_cause_id r = cause
     then Inl ErrCardRequestDuplicateCause
     else let row = (event_request cardID key cause)\<lparr>cr_id := uid, cr_created_at := now, cr_updated_at := now\<rparr>
          in Inr (row, st\<lparr>st_requests := st_requests st @ [row]\<rparr>))"
proof -
  note d = rows_invD [OF assms(1) [unfolded ledger_inv_def, THEN conjunct1]]
  let ?row = "(event_request cardID key cause)\<lparr>cr_id := uid, cr_created_at := now, cr_updated_at := now\<rparr>"
  have slot: "slot_index (st_requests st @ [?row])"
    using d(2) by (simp add: slot_index_def uniq_on_snoc is_active_def event_request_def)
  have cause: "cause_index (st_requests st @ [?row]) \<longleftrightarrow>
      \<not> (\<exists>r \<in> set (st_requests st). has_live_cause r \<and> cr_cause_id r = cause)"
    using d(3) assms(5) by (auto simp: cause_index_def uniq_on_snoc event_request_def has_live_cause_def)
  have row: "(event_request cardID key cause)\<lparr>cr_id := uid, cr_status := RQueued, cr_created_at := now,
      cr_updated_at := now\<rparr> = ?row"
    by (simp add: event_request_def)
  have zero: "cr_created_at (event_request cardID key cause) = zero_time"
    "cr_id (event_request cardID key cause) = []" "cr_card_id (event_request cardID key cause) = cardID"
    "cr_target_kind (event_request cardID key cause) = []"
    by (simp_all add: event_request_def)
  show ?thesis
    using slot cause assms(2-4)
    by (simp add: CreateCardRequest_def insert_request_def write_requests_def and_then_def map_err_def
        guard_def Let_def create_error_def zero row)
qed

text \<open>
  C15. A card event is queued exactly once: when the guards of the ingest hold, it succeeds and
  afterwards exactly one live request carries the action as its cause, the ledger having gained at
  most that one queued row; when a guard fails the ledger is left as it was.
\<close>

theorem ingest_exactly_once:
  assumes "ledger_inv st" and "uid \<notin> cr_id ` set (st_requests st)" and "ac_id a \<noteq> []"
  shows "if \<exists>key. ingest_applies writer a rs st key
     then \<exists>st' new. IngestCardEventRequest uid now writer a (Some rs) st = Inr st'
        \<and> st' = st\<lparr>st_requests := st_requests st @ new\<rparr> \<and> length new \<le> 1
        \<and> (\<forall>r \<in> set new. cr_status r = RQueued \<and> cr_card_id r = ac_task_id a)
        \<and> length (filter (\<lambda>r. cr_cause_id r = ac_id a \<and> cr_status r \<noteq> RFailed) (st_requests st')) = 1
     else is_ok (IngestCardEventRequest uid now writer a (Some rs) st)
        \<longrightarrow> IngestCardEventRequest uid now writer a (Some rs) st = Inr st"
proof (cases "\<exists>key. ingest_applies writer a rs st key")
  case False
  then show ?thesis using ingest_skips [OF False] by (auto simp: is_ok_iff)
next
  case True
  then obtain key where key: "ingest_applies writer a rs st key" ..
  then have card: "ac_task_id a \<noteq> []" "ac_task_id a \<in> t_id ` set (st_tasks st)"
    using context_task by (fastforce simp: ingest_applies_def)+
  let ?live = "\<lambda>r. cr_cause_id r = ac_id a \<and> cr_status r \<noteq> RFailed"
  note d = rows_invD [OF assms(1) [unfolded ledger_inv_def, THEN conjunct1]]
  note eq = ingest_unfold [OF key, of uid now] create_event_request [OF assms(1,2) card assms(3), of now key]
  have live: "has_live_cause r \<and> cr_cause_id r = ac_id a \<longleftrightarrow> ?live r" for r
    using assms(3) by (auto simp: has_live_cause_def)
  show ?thesis
  proof (cases "\<exists>r \<in> set (st_requests st). ?live r")
    case dup: True
    have "length (filter ?live (st_requests st)) \<le> 1"
    proof (rule length_le_one)
      show "distinct (filter ?live (st_requests st))" using d(6) by simp
      show "x = y" if "x \<in> set (filter ?live (st_requests st))" "y \<in> set (filter ?live (st_requests st))" for x y
        using uniq_onD [OF d(3) [unfolded cause_index_def] d(6), of x y] that assms(3)
        by (auto simp: has_live_cause_def)
    qed
    moreover have "filter ?live (st_requests st) \<noteq> []" using dup by (auto simp: filter_empty_conv)
    ultimately have "length (filter ?live (st_requests st)) = 1"
      by (cases "filter ?live (st_requests st)") auto
    then show ?thesis using True dup eq by (auto simp: live intro!: exI [of _ "[]"])
  next
    case False
    then have "filter ?live (st_requests st) = []" by (auto simp: filter_empty_conv)
    then show ?thesis using True False eq by (auto simp: live Let_def event_request_def)
  qed
qed

text \<open>An ingestible note on the sample card, whose resolver maps every project to one command.\<close>

definition sample_note :: action where
  "sample_note = \<lparr>ac_id = ''n1'', ac_task_id = ''c1'', ac_type = ''noted'', ac_payload = RawEmpty,
     ac_from_status = None, ac_to_status = None, ac_created_at = 3, ac_actor = ''human''\<rparr>"

definition sample_resolver :: card_event_resolver where
  "sample_resolver = \<lparr>cev_command = (\<lambda>_. (''review'', True)), cev_command_in_tx = None,
     cev_workspace_command_in_tx = None\<rparr>"

theorem ingest_exactly_once_witness:
  "\<exists>st'. IngestCardEventRequest ''r3'' 7 None sample_note (Some sample_resolver) two_queued = Inr st'
     \<and> length (filter (\<lambda>r. cr_cause_id r = ''n1'' \<and> cr_status r \<noteq> RFailed) (st_requests st')) = 1"
proof -
  have a: "ingest_applies None sample_note sample_resolver two_queued ''review''"
    by (auto simp: ingest_applies_def sample_note_def sample_resolver_def cardEventIngestActionTypes_def
        cardEventTaskContext_def resolve_event_command_def writerHoldsCardsLiveRequest_def sample_defs)
  have b: "''r3'' \<notin> cr_id ` set (st_requests two_queued)" "ac_id sample_note \<noteq> []" "ac_id sample_note = ''n1''"
    by (simp_all add: sample_defs sample_note_def)
  show ?thesis
    using ingest_exactly_once [OF sample_invs(1) b(1,2), of None sample_resolver 7] a b(3)
    by (simp only: if_P [OF exI [of _ "''review''"]]) blast
qed

section \<open>Garbage collection\<close>

lemma find_filter_imp: "(\<And>x. P x \<Longrightarrow> Q x) \<Longrightarrow> find P (filter Q xs) = find P xs"
  by (induction xs) auto

lemma select_order_filter_imp:
  "(\<And>x. P x \<Longrightarrow> Q x) \<Longrightarrow> select_order key P (filter Q xs) = select_order key P xs"
  by (auto simp: select_order_def intro!: arg_cong [where f = "sort_key key"] filter_cong)

lemma find_kept_by_id:
  assumes "distinct (map cr_id rows)" "r \<in> set rows" "P r"
  shows "find (\<lambda>x. cr_id x = cr_id r) (filter P rows) = Some r"
  using assms by (induction rows) (auto simp: image_iff)

text \<open>
  C18. Garbage collection removes only requests that ended and are older than the cut-off, keeps the
  ledger consistent and every slot, queue and barrier as it was, and writes the destination of each
  removed request into the receipts that point to it; a dry run only counts.
\<close>

theorem gc_keeps_live_and_receipts:
  assumes "ledger_inv st" and "GCCardRequests now olderThan False st = (n, st')"
  shows "ledger_inv st'
    \<and> st_requests st' = filter (\<lambda>r. \<not> gc_collectable now olderThan r) (st_requests st)
    \<and> n + length (st_requests st') = length (st_requests st)
    \<and> (\<forall>r \<in> set (st_requests st). cr_status r \<notin> {RFinished, RFailed} \<longrightarrow> r \<in> set (st_requests st'))
    \<and> holder_of st' = holder_of st \<and> queue_of cardID st' = queue_of cardID st
    \<and> map op_target_request_id (st_op_results st') = map op_target_request_id (st_op_results st)
    \<and> (\<forall>i < length (st_op_results st). \<forall>r \<in> set (st_requests st).
         gc_collectable now olderThan r \<and> op_target_request_id (st_op_results st ! i) = cr_id r
         \<longrightarrow> st_op_results st' ! i = preserve_destination r (st_op_results st ! i))
    \<and> GCCardRequests now olderThan True st = (n, st)"
proof -
  note d = rows_invD [OF assms(1) [unfolded ledger_inv_def, THEN conjunct1]]
  let ?keep = "\<lambda>r. \<not> gc_collectable now olderThan r"
  let ?doomed = "filter (gc_collectable now olderThan) (st_requests st)"
  let ?f = "\<lambda>x. case find (\<lambda>r. cr_id r = op_target_request_id x) ?doomed of
      None \<Rightarrow> x | Some r \<Rightarrow> preserve_destination r x"
  have st': "st' = st\<lparr>st_op_results := map ?f (st_op_results st), st_requests := filter ?keep (st_requests st)\<rparr>"
    and n: "n = length ?doomed" and dry: "GCCardRequests now olderThan True st = (n, st)"
    using assms(2) by (auto simp: GCCardRequests_def Let_def delete_where_def)
  have "ledger_inv st'" using gc_inv [OF assms(1), of now olderThan False] assms(2) by simp
  moreover have "n + length (st_requests st') = length (st_requests st)"
    using sum_length_filter_compl [of "gc_collectable now olderThan"] by (simp add: n st')
  moreover have "holder_of st' = holder_of st"
  proof
    fix c
    have "find (\<lambda>r. is_active r \<and> cr_card_id r = c) (filter ?keep (st_requests st)) =
        find (\<lambda>r. is_active r \<and> cr_card_id r = c) (st_requests st)"
      by (rule find_filter_imp) (auto simp: gc_collectable_def is_active_def)
    then show "holder_of st' c = holder_of st c" by (simp add: holder_of_def st')
  qed
  moreover have "queue_of cardID st' = queue_of cardID st"
  proof -
    have "select_order request_order (queued_of cardID) (filter ?keep (st_requests st)) =
        select_order request_order (queued_of cardID) (st_requests st)"
      by (rule select_order_filter_imp) (auto simp: gc_collectable_def queued_of_def)
    then show ?thesis by (simp add: queue_of_def st')
  qed
  moreover have "op_target_request_id (?f x) = op_target_request_id x" for x
    by (simp add: preserve_destination_def Let_def split: option.split)
  moreover have "?f x = preserve_destination r x"
    if "r \<in> set (st_requests st)" "gc_collectable now olderThan r" "op_target_request_id x = cr_id r" for r x
    using find_kept_by_id [of "st_requests st" r "gc_collectable now olderThan", OF d(1) that(1,2)] that(3) by simp
  ultimately show ?thesis using dry by (simp add: st' comp_def) (simp add: gc_collectable_def)
qed

definition sample_receipts :: orch_store where
  "sample_receipts = (sample_store
     [(sample_request ''r1'' [] RFinished 1)\<lparr>cr_target_kind := ''session'', cr_target_id := ''j1''\<rparr>,
      sample_request ''r2'' [] RQueued 2] [])
     \<lparr>st_op_results := [\<lparr>op_result = ''accepted'', op_reason_code = ''request_accepted'',
        op_target_task_id = [], op_target_session_id = [], op_target_request_id = ''r1'',
        op_current_phase = []\<rparr>]\<rparr>"

theorem gc_keeps_live_and_receipts_witness:
  "\<exists>st'. GCCardRequests 100 10 False sample_receipts = (1, st')
     \<and> map cr_id (st_requests st') = [''r2''] \<and> op_target_session_id (hd (st_op_results st')) = ''j1''"
proof -
  have inv: "ledger_inv sample_receipts" by code_simp
  obtain n st' where gc: "GCCardRequests 100 10 False sample_receipts = (n, st')" by fastforce
  let ?r = "hd (st_requests sample_receipts)" and ?x = "hd (st_op_results sample_receipts)"
  have facts: "?r \<in> set (st_requests sample_receipts)" "gc_collectable 100 10 ?r"
    "op_target_request_id ?x = cr_id ?r" "0 < length (st_op_results sample_receipts)"
    "map cr_id (filter (\<lambda>r. \<not> gc_collectable 100 10 r) (st_requests sample_receipts)) = [''r2'']"
    "op_target_session_id (preserve_destination ?r ?x) = ''j1''" "length (st_requests sample_receipts) = 2"
    by (simp_all add: sample_receipts_def sample_defs gc_collectable_def preserve_destination_def)
  note props = gc_keeps_live_and_receipts [OF inv gc, of "''c1''"]
  have len: "length (st_op_results st') = length (st_op_results sample_receipts)"
    using props by (metis length_map)
  have "st_op_results st' ! 0 = preserve_destination ?r ?x"
    using props facts(1-4) by (metis hd_conv_nth length_greater_0_conv)
  then have "hd (st_op_results st') = preserve_destination ?r ?x"
    using facts(4) len by (cases "st_op_results st'") auto
  moreover have "map cr_id (st_requests st') = [''r2'']" using props facts(5) by simp
  moreover have "length (st_requests st') = 1" using calculation(2) by (metis length_map length_Cons list.size(3) One_nat_def)
  moreover have "n + length (st_requests st') = length (st_requests sample_receipts)" using props by blast
  ultimately show ?thesis using gc facts(6,7) by auto
qed

end
