(* ===== verification/Go_Time.thy ===== *)
theory Go_Time
  imports Boid_Prelude "HOL-Library.Monad_Syntax"
begin

text \<open>
  What the sources use of the package \<open>time\<close> to keep timestamps as text: \<open>time.Parse\<close> with the
  layout \<open>time.RFC3339\<close> and \<open>Time.Format\<close> with the fixed-width layout of \<open>signal_store.go\<close>. A time
  is its number of nanoseconds since 1970-01-01 UTC. The facts at the end are the two the store
  relies on: a formatted time parses back to itself, and formatted times compare as text in the
  order of the times, both for the years 0 to 9999 the layout has four digits for.
\<close>

section \<open>The calendar\<close>

definition is_leap :: "int \<Rightarrow> bool" where
  "is_leap y \<longleftrightarrow> 4 dvd y \<and> (\<not> 100 dvd y \<or> 400 dvd y)"

definition year_len :: "int \<Rightarrow> int" where
  "year_len y = (if is_leap y then 366 else 365)"

text \<open>Leap years in the years from 0 up to \<open>y\<close>, and the number of the first day of \<open>y\<close>.\<close>

definition leaps :: "int \<Rightarrow> int" where
  "leaps y = (y + 3) div 4 - (y + 99) div 100 + (y + 399) div 400"

definition year_start :: "int \<Rightarrow> int" where
  "year_start y = 365 * y + leaps y"

definition month_lens :: "int \<Rightarrow> int list" where
  "month_lens y = [31, if is_leap y then 29 else 28, 31, 30, 31, 30, 31, 31, 30, 31, 30, 31]"

lemma div_bounds:
  fixes n k :: int
  shows "0 < k \<Longrightarrow> k * (n div k) \<le> n \<and> n < k * (n div k) + k"
  using pos_mod_sign [of k n] pos_mod_bound [of k n] mult_div_mod_eq [of k n] by linarith

lemma div_365:
  fixes n :: int
  shows "365 * (n div 365) \<le> n" "n < 365 * (n div 365) + 365" "366 * (n div 366) \<le> n" "n < 366 * (n div 366) + 366"
  using div_bounds [of 365 n] div_bounds [of 366 n] by simp_all

lemma div_step:
  fixes y k k' :: int assumes "0 < k" "k = k' + 1"
  shows "(y + k) div k - (y + k') div k = (if k dvd y then 1 else 0)"
proof -
  define q r where qr: "q = y div k" "r = y mod k"
  have y: "y = r + q * k" by (simp add: qr)
  have r: "0 \<le> r" "r < k" "k dvd y \<longleftrightarrow> r = 0" using assms(1) by (auto simp: qr dvd_eq_mod_eq_0)
  have "y + k = r + (q + 1) * k" by (simp add: y algebra_simps)
  then have a: "(y + k) div k = q + 1" using r(1,2) assms(1) by simp
  show ?thesis
  proof (cases "r = 0")
    case True
    then have e: "y + k' = k' + q * k" by (simp add: y)
    have "(y + k') div k = q + k' div k" unfolding e using assms(1) by simp
    moreover have "k' div k = 0" using assms by simp
    ultimately show ?thesis using True a r(3) by simp
  next
    case False
    have e: "y + k' = (r - 1) + (q + 1) * k" by (simp add: y assms(2) algebra_simps)
    have "(y + k') div k = (q + 1) + (r - 1) div k" unfolding e using assms(1) by simp
    moreover have "(r - 1) div k = 0" using False r(1,2) by simp
    ultimately show ?thesis using False a r(3) by simp
  qed
qed

lemma year_start_Suc: "year_start (y + 1) = year_start y + year_len y"
proof -
  have e: "leaps (y + 1) = (y + 4) div 4 - (y + 100) div 100 + (y + 400) div 400"
    unfolding leaps_def by (simp add: add.assoc)
  have d: "(y + 4) div 4 - (y + 3) div 4 = (if 4 dvd y then 1 else 0)"
    "(y + 100) div 100 - (y + 99) div 100 = (if 100 dvd y then 1 else 0)"
    "(y + 400) div 400 - (y + 399) div 400 = (if 400 dvd y then 1 else 0)"
    by (rule div_step; simp)+
  define a b c where abc: "a \<longleftrightarrow> 4 dvd y" "b \<longleftrightarrow> 100 dvd y" "c \<longleftrightarrow> 400 dvd y"
  have t: "b \<longrightarrow> a" "c \<longrightarrow> b" unfolding abc by (auto elim: dvd_trans [rotated])
  have "leaps (y + 1) - leaps y =
      (if 4 dvd y then 1 else 0) - (if 100 dvd y then 1 else 0) + (if 400 dvd y then 1 else 0)"
    unfolding e using d by (simp only: leaps_def)
  also have "\<dots> = (if is_leap y then 1 else 0)" 
    unfolding is_leap_def abc [symmetric] using t by (cases a; cases b; cases c) simp_all
  finally have "leaps (y + 1) = leaps y + (if is_leap y then 1 else 0)" by simp
  then show ?thesis by (simp add: year_start_def year_len_def algebra_simps)
qed

lemma year_start_pred: "year_start (y - 1) = year_start y - year_len (y - 1)"
  using year_start_Suc [of "y - 1"] by simp

lemma year_len_bounds: "365 \<le> year_len y" "year_len y \<le> 366"
  by (auto simp: year_len_def)

lemma year_start_bounds:
  "0 \<le> y \<Longrightarrow> 365 * y \<le> year_start y \<and> year_start y \<le> 366 * y"
  "y \<le> 0 \<Longrightarrow> 366 * y \<le> year_start y \<and> year_start y \<le> 365 * y"
proof -
  show "365 * y \<le> year_start y \<and> year_start y \<le> 366 * y" if "0 \<le> y"
    using that
  proof (induction rule: int_ge_induct)
    case base then show ?case by (simp add: year_start_def leaps_def)
  next
    case (step i) then show ?case using year_start_Suc [of i] year_len_bounds [of i] by simp
  qed
  show "366 * y \<le> year_start y \<and> year_start y \<le> 365 * y" if "y \<le> 0"
    using that
  proof (induction rule: int_le_induct)
    case base then show ?case by (simp add: year_start_def leaps_def)
  next
    case (step i) then show ?case using year_start_pred [of i] year_len_bounds [of "i - 1"] by simp
  qed
qed

lemma year_start_mono: "a \<le> b \<Longrightarrow> year_start a \<le> year_start b"
proof (induction rule: int_ge_induct)
  case (step i) then show ?case using year_start_Suc [of i] year_len_bounds [of i] by simp
qed simp

text \<open>The year of a day: the search goes down from a year that starts after it.\<close>

function year_down :: "int \<Rightarrow> int \<Rightarrow> int" where
  "year_down y n = (if year_start y \<le> n then y else year_down (y - 1) n)"
  by auto

termination
proof (relation "measure (\<lambda>(y, n). nat (y - min (n div 365) (n div 366)))")
  fix y n :: int
  assume late: "\<not> year_start y \<le> n"
  have "min (n div 365) (n div 366) < y"
  proof (rule ccontr)
    assume "\<not> min (n div 365) (n div 366) < y"
    then have "y \<le> n div 365" "y \<le> n div 366" by auto
    then have "365 * y \<le> n" "366 * y \<le> n"
      using div_365 [of n] by linarith+
    then show False
      using late year_start_bounds(1) [of y] year_start_bounds(2) [of y] by (cases "0 \<le> y") simp_all
  qed
  then show "((y - 1, n), (y, n)) \<in> measure (\<lambda>(y, n). nat (y - min (n div 365) (n div 366)))" by auto
qed simp

declare year_down.simps [simp del]

definition year_of :: "int \<Rightarrow> int" where
  "year_of n = year_down (max (n div 365) (n div 366) + 1) n"

lemma year_down_spec:
  "n < year_start (y + 1) \<Longrightarrow> year_start (year_down y n) \<le> n \<and> n < year_start (year_down y n + 1)"
proof (induction y n rule: year_down.induct)
  case (1 y n)
  then show ?case by (subst (1 2) year_down.simps) auto
qed

lemma year_of_spec: "year_start (year_of n) \<le> n" "n < year_start (year_of n + 1)"
proof -
  define y q q' where y: "y = max (n div 365) (n div 366) + 1" and q: "q = n div 365" "q' = n div 366"
  have m: "q + 1 \<le> y" "q' + 1 \<le> y" by (simp_all add: y q)
  have d: "n < 365 * q + 365" "n < 366 * q' + 366" by (simp_all only: q div_365)
  have "n < year_start (y + 1)"
  proof (cases "0 \<le> y + 1")
    case True
    then show ?thesis using year_start_bounds(1) [OF True] m(1) d(1) by simp
  next
    case False
    then have "y + 1 \<le> 0" by simp
    then show ?thesis using year_start_bounds(2) [of "y + 1"] m(2) d(2) by simp
  qed
  then show "year_start (year_of n) \<le> n" "n < year_start (year_of n + 1)"
    unfolding year_of_def y [symmetric] using year_down_spec by blast+
qed

lemma year_of_eqI: "year_start y \<le> n \<Longrightarrow> n < year_start (y + 1) \<Longrightarrow> year_of n = y"
  using year_of_spec [of n] year_start_mono [of "y + 1" "year_of n"] year_start_mono [of "year_of n + 1" y]
  by linarith

text \<open>The month of a day of the year, counted from 0, and the day in it, counted from 0.\<close>

fun split_month :: "int list \<Rightarrow> int \<Rightarrow> int \<times> int" where
  "split_month [] n = (0, n)"
| "split_month (l # ls) n = (if n < l then (0, n) else (case split_month ls (n - l) of (m, d) \<Rightarrow> (m + 1, d)))"

definition civil :: "int \<Rightarrow> int \<times> int \<times> int" where
  "civil n = (let y = year_of n; (m, d) = split_month (month_lens y) (n - year_start y) in (y, m + 1, d + 1))"

definition days_of :: "int \<Rightarrow> int \<Rightarrow> int \<Rightarrow> int" where
  "days_of y m d = year_start y + sum_list (take (nat (m - 1)) (month_lens y)) + (d - 1)"

definition days_in :: "int \<Rightarrow> int \<Rightarrow> int" where
  "days_in m y = month_lens y ! nat (m - 1)"

lemma split_month_bounds:
  assumes "0 \<le> n" "n < sum_list ls" "\<forall>l \<in> set ls. 0 < l"
  shows "case split_month ls n of (m, d) \<Rightarrow>
    0 \<le> m \<and> m < int (length ls) \<and> 0 \<le> d \<and> d < ls ! nat m \<and> n = sum_list (take (nat m) ls) + d"
  using assms
proof (induction ls n rule: split_month.induct)
  case (2 l ls n)
  show ?case
  proof (cases "n < l")
    case False
    obtain m d where md: "split_month ls (n - l) = (m, d)" by fastforce
    have "0 \<le> m \<and> m < int (length ls) \<and> 0 \<le> d \<and> d < ls ! nat m \<and> n - l = sum_list (take (nat m) ls) + d"
      using "2.IH" [OF False] "2.prems" False md by simp
    then show ?thesis using False md by (simp add: nat_add_distrib)
  qed (use "2.prems" in simp)
qed simp

lemma month_lens_sum: "sum_list (month_lens y) = year_len y"
  by (simp add: month_lens_def year_len_def)

lemma month_lens_length [simp]: "length (month_lens y) = 12"
  by (simp add: month_lens_def)

lemma month_lens_pos: "l \<in> set (month_lens y) \<Longrightarrow> 0 < l"
  by (auto simp: month_lens_def split: if_splits)

lemma month_lens_le: "l \<in> set (month_lens y) \<Longrightarrow> l \<le> 31"
  by (auto simp: month_lens_def split: if_splits)

lemma civil_bounds:
  assumes "civil n = (y, m, d)"
  shows "y = year_of n" "1 \<le> m" "m \<le> 12" "1 \<le> d" "d \<le> days_in m y" "days_in m y \<le> 31" "days_of y m d = n"
proof -
  obtain m0 d0 where s: "split_month (month_lens (year_of n)) (n - year_start (year_of n)) = (m0, d0)"
    by fastforce
  have "0 \<le> m0 \<and> m0 < 12 \<and> 0 \<le> d0 \<and> d0 < month_lens (year_of n) ! nat m0
      \<and> n - year_start (year_of n) = sum_list (take (nat m0) (month_lens (year_of n))) + d0"
    using split_month_bounds [of "n - year_start (year_of n)" "month_lens (year_of n)"] s
      year_of_spec [of n] year_start_Suc [of "year_of n"] month_lens_sum [of "year_of n"]
    by (simp add: month_lens_pos)
  moreover have "y = year_of n" "m = m0 + 1" "d = d0 + 1" using assms s by (auto simp: civil_def Let_def)
  moreover have "month_lens z ! nat i \<le> 31" if "0 \<le> i" "i < 12" for z i
    using that month_lens_le [OF nth_mem [of "nat i" "month_lens z"]] by simp
  ultimately show "y = year_of n" "1 \<le> m" "m \<le> 12" "1 \<le> d" "d \<le> days_in m y" "days_in m y \<le> 31"
    "days_of y m d = n"
    by (auto simp: days_in_def days_of_def)
qed

text \<open>Dates in the order of their days.\<close>

lemma sum_take_mono:
  fixes xs :: "int list"
  assumes "j < k" "k \<le> length xs" "\<And>x. x \<in> set xs \<Longrightarrow> 0 < x"
  shows "sum_list (take j xs) + xs ! j \<le> sum_list (take k xs)"
proof -
  have "take k xs = take (Suc j) xs @ take (k - Suc j) (drop (Suc j) xs)"
    using assms(1) take_add [of "Suc j" "k - Suc j" xs] by simp
  moreover have "0 \<le> sum_list (take (k - Suc j) (drop (Suc j) xs))"
    by (rule sum_list_nonneg) (auto dest!: in_set_takeD in_set_dropD assms(3))
  ultimately show ?thesis using assms(1,2) by (simp add: take_Suc_conv_app_nth)
qed

lemma civil_lessI:
  assumes "civil a = (y, m, d)" "civil b = (y', m', d')"
    and "y < y' \<or> y = y' \<and> (m < m' \<or> m = m' \<and> d < d')"
  shows "a < b"
proof -
  note A = civil_bounds [OF assms(1)] and B = civil_bounds [OF assms(2)]
  consider "y < y'" | "y = y'" "m < m'" | "y = y'" "m = m'" "d < d'" using assms(3) by blast
  then show ?thesis
  proof cases
    case 1
    then have "year_start (y + 1) \<le> year_start y'" by (simp add: year_start_mono)
    then show ?thesis using year_of_spec [of a] year_of_spec [of b] A(1) B(1) by simp
  next
    case 2
    then have "sum_list (take (nat (m - 1)) (month_lens y)) + days_in m y
        \<le> sum_list (take (nat (m' - 1)) (month_lens y))"
      unfolding days_in_def using A(2) B(3) by (intro sum_take_mono) (auto dest: month_lens_pos)
    then show ?thesis using 2 A(5,7) B(4,7) by (simp add: days_of_def)
  next
    case 3
    then show ?thesis using A(7) B(7) by (simp add: days_of_def)
  qed
qed

lemma civil_less_iff:
  assumes "civil a = (y, m, d)" "civil b = (y', m', d')"
  shows "a < b \<longleftrightarrow> y < y' \<or> y = y' \<and> (m < m' \<or> m = m' \<and> d < d')"
proof -
  have eq: "a = b" if "y = y'" "m = m'" "d = d'"
    using civil_bounds(7) [OF assms(1)] civil_bounds(7) [OF assms(2)] that by simp
  consider "y < y' \<or> y = y' \<and> (m < m' \<or> m = m' \<and> d < d')"
    | "y' < y \<or> y' = y \<and> (m' < m \<or> m' = m \<and> d' < d)" | "y = y'" "m = m'" "d = d'"
    by linarith
  then show ?thesis
  proof cases
    case 1 then show ?thesis using civil_lessI [OF assms 1] by simp
  next
    case 2
    from civil_lessI [OF assms(2,1) 2] 2 show ?thesis by linarith
  next
    case 3 then show ?thesis using eq [OF 3] by simp
  qed
qed

section \<open>Formatting\<close>

definition digit :: "int \<Rightarrow> char" where
  "digit d = char_of (48 + nat d)"

fun pad :: "nat \<Rightarrow> int \<Rightarrow> string" where
  "pad 0 n = []"
| "pad (Suc w) n = pad w (n div 10) @ [digit (n mod 10)]"

text \<open>The year is printed with at least four digits, and a sign when it is negative.\<close>

fun digits_needed :: "nat \<Rightarrow> nat" where
  "digits_needed n = (if n < 10 then 1 else Suc (digits_needed (n div 10)))"

declare digits_needed.simps [simp del]

definition format_year :: "int \<Rightarrow> string" where
  "format_year y = (if y < 0 then ''-'' else []) @ pad (max 4 (digits_needed (nat \<bar>y\<bar>))) \<bar>y\<bar>"

definition epoch_day :: int where
  "epoch_day = 719528"

definition ns_per_day :: int where
  "ns_per_day = 86400000000000"

text \<open>\<open>t.UTC().Format("2006-01-02T15:04:05.000000000Z07:00")\<close>.\<close>

definition format_utc :: "time \<Rightarrow> string" where
  "format_utc t =
     (let (y, m, d) = civil (t div ns_per_day + epoch_day);
          r = t mod ns_per_day;
          h = r div 3600000000000; r1 = r mod 3600000000000;
          mi = r1 div 60000000000; r2 = r1 mod 60000000000;
          s = r2 div 1000000000; ns = r2 mod 1000000000
      in format_year y @ ''-'' @ pad 2 m @ ''-'' @ pad 2 d @ ''T'' @ pad 2 h @ '':'' @ pad 2 mi @ '':''
         @ pad 2 s @ ''.'' @ pad 9 ns @ ''Z'')"

section \<open>Parsing\<close>

definition digit_val :: "char \<Rightarrow> int option" where
  "digit_val c = (let n = of_char c :: nat in if 48 \<le> n \<and> n \<le> 57 then Some (int n - 48) else None)"

fun num_of :: "int \<Rightarrow> string \<Rightarrow> int option" where
  "num_of acc [] = Some acc"
| "num_of acc (c # cs) = (case digit_val c of None \<Rightarrow> None | Some d \<Rightarrow> num_of (acc * 10 + d) cs)"

text \<open>\<open>getnum\<close> of the package: two digits, or one when the field is not fixed.\<close>

fun getnum :: "bool \<Rightarrow> string \<Rightarrow> (int \<times> string) option" where
  "getnum fixed [] = None"
| "getnum fixed (c # s) =
     do { d \<leftarrow> digit_val c;
          case s of
            [] \<Rightarrow> (if fixed then None else Some (d, []))
          | c' # s' \<Rightarrow>
              (case digit_val c' of
                 None \<Rightarrow> if fixed then None else Some (d, s)
               | Some d' \<Rightarrow> Some (d * 10 + d', s')) }"

definition year4 :: "string \<Rightarrow> (int \<times> string) option" where
  "year4 s = (if length s < 4 then None else do { y \<leftarrow> num_of 0 (take 4 s); Some (y, drop 4 s) })"

fun literal :: "char \<Rightarrow> string \<Rightarrow> string option" where
  "literal c [] = None"
| "literal c (x # s) = (if x = c then Some s else None)"

definition is_digit :: "char \<Rightarrow> bool" where
  "is_digit c \<longleftrightarrow> digit_val c \<noteq> None"

text \<open>A fraction after the seconds is accepted although the layout has none; nine digits count.\<close>

definition fraction :: "string \<Rightarrow> (int \<times> string) option" where
  "fraction s =
     (case s of
        c # d # _ \<Rightarrow>
          if (c = CHR ''.'' \<or> c = CHR '','') \<and> is_digit d then
            (let ds = takeWhile is_digit (tl s); used = take 9 ds
             in do { n \<leftarrow> num_of 0 used; Some (n * 10 ^ (9 - length used), dropWhile is_digit (tl s)) })
          else Some (0, s)
      | _ \<Rightarrow> Some (0, s))"

text \<open>\<open>Z\<close>, or a signed offset of hours up to 24 and minutes up to 60, in seconds.\<close>

definition zone :: "string \<Rightarrow> (int \<times> string) option" where
  "zone s =
     (case s of
        [] \<Rightarrow> None
      | c # rest \<Rightarrow>
          if c = CHR ''Z'' then Some (0, rest)
          else if length s < 6 \<or> s ! 3 \<noteq> CHR '':'' then None
          else do { (hr, _) \<leftarrow> getnum True (take 2 (drop 1 s));
                    (mm, _) \<leftarrow> getnum True (take 2 (drop 4 s));
                    if hr > 24 \<or> mm > 60 then None
                    else if c = CHR ''+'' then Some ((hr * 60 + mm) * 60, drop 6 s)
                    else if c = CHR ''-'' then Some (- ((hr * 60 + mm) * 60), drop 6 s)
                    else None })"

text \<open>\<open>time.Parse(time.RFC3339, s)\<close>; \<open>None\<close> is its error.\<close>

definition parse_rfc3339 :: "string \<Rightarrow> time option" where
  "parse_rfc3339 s =
     do { (y, s) \<leftarrow> year4 s; s \<leftarrow> literal CHR ''-'' s;
          (m, s) \<leftarrow> getnum True s; s \<leftarrow> literal CHR ''-'' s;
          (d, s) \<leftarrow> getnum True s; s \<leftarrow> literal CHR ''T'' s;
          (h, s) \<leftarrow> getnum False s; s \<leftarrow> literal CHR '':'' s;
          (mi, s) \<leftarrow> getnum True s; s \<leftarrow> literal CHR '':'' s;
          (sec, s) \<leftarrow> getnum True s;
          (ns, s) \<leftarrow> fraction s;
          (off, s) \<leftarrow> zone s;
          if s \<noteq> [] \<or> m < 1 \<or> 12 < m \<or> d < 1 \<or> days_in m y < d \<or> 24 \<le> h \<or> 60 \<le> mi \<or> 60 \<le> sec then None
          else Some ((days_of y m d - epoch_day) * ns_per_day
                     + ((h * 60 + mi) * 60 + sec - off) * 1000000000 + ns) }"

section \<open>Round trip\<close>

lemma of_char_digit: "0 \<le> d \<Longrightarrow> d < 10 \<Longrightarrow> of_char (digit d) = (48 + nat d :: nat)"
  by (simp add: digit_def)

lemma digit_val_digit [simp]: "0 \<le> d \<Longrightarrow> d < 10 \<Longrightarrow> digit_val (digit d) = Some d"
  by (simp add: digit_val_def of_char_digit Let_def)

lemma is_digit_digit [simp]: "0 \<le> d \<Longrightarrow> d < 10 \<Longrightarrow> is_digit (digit d)"
  by (simp add: is_digit_def)

lemma length_pad [simp]: "length (pad w n) = w"
  by (induction w arbitrary: n) simp_all

lemma num_of_append: "num_of acc (xs @ ys) = Option.bind (num_of acc xs) (\<lambda>a. num_of a ys)"
  by (induction xs arbitrary: acc) (auto split: option.splits)

lemma num_of_pad: "0 \<le> n \<Longrightarrow> n < 10 ^ w \<Longrightarrow> num_of acc (pad w n) = Some (acc * 10 ^ w + n)"
proof (induction w arbitrary: n)
  case (Suc w)
  have "n div 10 < 10 ^ w" using Suc.prems by simp
  then have "num_of acc (pad w (n div 10)) = Some (acc * 10 ^ w + n div 10)" using Suc by simp
  then show ?case by (simp add: num_of_append algebra_simps)
qed simp

lemma digits_pad: "c \<in> set (pad w n) \<Longrightarrow> is_digit c"
  by (induction w arbitrary: n) auto

lemma pad_2: "pad 2 n = [digit (n div 10 mod 10), digit (n mod 10)]"
  by (simp add: numeral_2_eq_2)

lemma getnum_pad: "0 \<le> n \<Longrightarrow> n < 100 \<Longrightarrow> getnum b (pad 2 n @ s) = Some (n, s)"
  by (simp add: pad_2 mod_pos_pos_trivial)

lemma year4_pad: "0 \<le> y \<Longrightarrow> y < 10000 \<Longrightarrow> year4 (pad 4 y @ s) = Some (y, s)"
  using num_of_pad [of y 4 0] by (simp add: year4_def)

lemma fraction_pad: "0 \<le> n \<Longrightarrow> n < 1000000000 \<Longrightarrow> fraction (CHR ''.'' # pad 9 n @ ''Z'') = Some (n, ''Z'')"
proof -
  assume n: "0 \<le> n" "n < 1000000000"
  obtain d ds where p: "pad 9 n = d # ds" by (cases "pad 9 n") (auto dest: arg_cong [of _ _ length])
  have dig: "\<forall>c \<in> set (pad 9 n). is_digit c" using digits_pad by blast
  have z: "\<not> is_digit (CHR ''Z'')" by (simp add: is_digit_def digit_val_def)
  have w: "takeWhile is_digit (pad 9 n @ ''Z'') = pad 9 n" "dropWhile is_digit (pad 9 n @ ''Z'') = ''Z''"
    using dig z by (simp_all add: takeWhile_append dropWhile_append)
  have "is_digit d" using dig by (simp add: p)
  then have "fraction (CHR ''.'' # pad 9 n @ ''Z'') =
      do { m \<leftarrow> num_of 0 (take 9 (pad 9 n)); Some (m * 10 ^ (9 - length (take 9 (pad 9 n))), ''Z'') }"
    unfolding fraction_def by (subst (1) p) (simp add: w Let_def)
  then show ?thesis using num_of_pad [of n 9 0] n by simp
qed

lemma digits_needed_le: "n < 10 ^ Suc k \<Longrightarrow> digits_needed n \<le> Suc k"
proof (induction k arbitrary: n)
  case (Suc k)
  have "n div 10 < 10 ^ Suc k" using Suc.prems by (simp add: div_less_iff_less_mult)
  then show ?case using Suc.IH [of "n div 10"] by (subst digits_needed.simps) simp
qed (simp add: digits_needed.simps)

lemma format_year_pad: "0 \<le> y \<Longrightarrow> y < 10000 \<Longrightarrow> format_year y = pad 4 y"
  using digits_needed_le [of "nat y" 3] by (simp add: format_year_def max_def nat_less_iff)

text \<open>The years the layout prints with four digits.\<close>

definition four_digit_year :: "time \<Rightarrow> bool" where
  "four_digit_year t \<longleftrightarrow> 0 \<le> year_of (t div ns_per_day + epoch_day) \<and> year_of (t div ns_per_day + epoch_day) < 10000"

text \<open>The fields of a time, in the order in which they are printed.\<close>

lemma time_fields:
  obtains y m d h mi s ns where
    "civil (t div ns_per_day + epoch_day) = (y, m, d)"
    "format_utc t = format_year y @ ''-'' @ pad 2 m @ ''-'' @ pad 2 d @ ''T'' @ pad 2 h @ '':''
       @ pad 2 mi @ '':'' @ pad 2 s @ ''.'' @ pad 9 ns @ ''Z''"
    "t = (days_of y m d - epoch_day) * ns_per_day + ((h * 60 + mi) * 60 + s) * 1000000000 + ns"
    "1 \<le> m" "m \<le> 12" "1 \<le> d" "d \<le> days_in m y" "d < 100" "0 \<le> h" "h < 24" "0 \<le> mi" "mi < 60"
    "0 \<le> s" "s < 60" "0 \<le> ns" "ns < 1000000000"
    "y = year_of (t div ns_per_day + epoch_day)"
    "t mod ns_per_day = ((h * 60 + mi) * 60 + s) * 1000000000 + ns"
proof -
  obtain y m d where c: "civil (t div ns_per_day + epoch_day) = (y, m, d)" by (metis surj_pair)
  define r h r1 mi r2 s ns where f: "r = t mod ns_per_day" "h = r div 3600000000000" "r1 = r mod 3600000000000"
    "mi = r1 div 60000000000" "r2 = r1 mod 60000000000" "s = r2 div 1000000000" "ns = r2 mod 1000000000"
  note b = civil_bounds [OF c]
  have r: "0 \<le> r" "r < 86400000000000" by (simp_all add: f(1) ns_per_day_def)
  have e1: "r = 3600000000000 * h + r1" "0 \<le> r1" "r1 < 3600000000000" by (simp_all add: f)
  have e2: "r1 = 60000000000 * mi + r2" "0 \<le> r2" "r2 < 60000000000" by (simp_all add: f)
  have e3: "r2 = 1000000000 * s + ns" "0 \<le> ns" "ns < 1000000000" by (simp_all add: f)
  have bounds: "0 \<le> h" "h < 24" "0 \<le> mi" "mi < 60" "0 \<le> s" "s < 60" using r e1 e2 e3 by linarith+
  have rr: "r = ((h * 60 + mi) * 60 + s) * 1000000000 + ns" using e1(1) e2(1) e3(1) by simp
  have t: "t = (t div ns_per_day) * ns_per_day + r" by (simp add: f(1))
  show thesis
  proof (rule that [OF c])
    show "format_utc t = format_year y @ ''-'' @ pad 2 m @ ''-'' @ pad 2 d @ ''T'' @ pad 2 h @ '':''
       @ pad 2 mi @ '':'' @ pad 2 s @ ''.'' @ pad 9 ns @ ''Z''"
      by (simp add: format_utc_def c Let_def f)
    show "t = (days_of y m d - epoch_day) * ns_per_day + ((h * 60 + mi) * 60 + s) * 1000000000 + ns"
      using t rr b(7) by simp
    show "t mod ns_per_day = ((h * 60 + mi) * 60 + s) * 1000000000 + ns" using rr f(1) by simp
  qed (use b bounds e3 in simp_all)
qed

lemma parse_format:
  assumes "four_digit_year t"
  shows "parse_rfc3339 (format_utc t) = Some t"
proof -
  obtain y m d h mi s ns where f: "civil (t div ns_per_day + epoch_day) = (y, m, d)"
    "format_utc t = format_year y @ ''-'' @ pad 2 m @ ''-'' @ pad 2 d @ ''T'' @ pad 2 h @ '':''
       @ pad 2 mi @ '':'' @ pad 2 s @ ''.'' @ pad 9 ns @ ''Z''"
    and t: "t = (days_of y m d - epoch_day) * ns_per_day + ((h * 60 + mi) * 60 + s) * 1000000000 + ns"
    and b: "1 \<le> m" "m \<le> 12" "1 \<le> d" "d \<le> days_in m y" "d < 100" "0 \<le> h" "h < 24" "0 \<le> mi" "mi < 60"
    "0 \<le> s" "s < 60" "0 \<le> ns" "ns < 1000000000"
    and y: "y = year_of (t div ns_per_day + epoch_day)"
    by (rule time_fields)
  have "format_utc t = pad 4 y @ ''-'' @ pad 2 m @ ''-'' @ pad 2 d @ ''T'' @ pad 2 h @ '':''
       @ pad 2 mi @ '':'' @ pad 2 s @ CHR ''.'' # pad 9 ns @ ''Z''"
    using assms f(2) y format_year_pad by (simp add: four_digit_year_def)
  moreover have "0 \<le> y" "y < 10000" using assms y by (simp_all add: four_digit_year_def)
  ultimately have "parse_rfc3339 (format_utc t) =
      Some ((days_of y m d - epoch_day) * ns_per_day + ((h * 60 + mi) * 60 + s - 0) * 1000000000 + ns)"
    using b by (simp add: parse_rfc3339_def year4_pad getnum_pad fraction_pad zone_def)
  then show ?thesis using t by simp
qed

section \<open>Order\<close>

lemma append_less_iff:
  fixes a b c d :: "'a :: linorder list"
  shows "length a = length c \<Longrightarrow> a @ b < c @ d \<longleftrightarrow> a < c \<or> a = c \<and> b < d"
proof (induction a c rule: list_induct2)
  case (Cons x xs y ys)
  then show ?case by (simp only: append_Cons Cons_less_Cons list.inject) blast
qed simp

lemma digit_less_iff: "0 \<le> d \<Longrightarrow> d < 10 \<Longrightarrow> 0 \<le> e \<Longrightarrow> e < 10 \<Longrightarrow> digit d < digit e \<longleftrightarrow> d < e"
  by (auto simp: less_char_def of_char_digit)

lemma div_mod_less_iff:
  fixes a b k :: int
  assumes "0 < k"
  shows "a < b \<longleftrightarrow> a div k < b div k \<or> a div k = b div k \<and> a mod k < b mod k"
proof -
  have mono: "a div k \<le> b div k" if "a \<le> b" for a b using that assms by (rule zdiv_mono1)
  have a: "a = a div k * k + a mod k" and b: "b = b div k * k + b mod k" by simp_all
  have "a < b \<longleftrightarrow> a mod k < b mod k" if "a div k = b div k"
    using a b that by (metis add_less_cancel_left)
  moreover have "a < b \<longleftrightarrow> a div k < b div k" if "a div k \<noteq> b div k"
    using mono [of a b] mono [of b a] that by (cases "a < b") auto
  ultimately show ?thesis by auto
qed

lemma pad_inject:
  assumes "0 \<le> a" "a < 10 ^ w" "0 \<le> b" "b < 10 ^ w"
  shows "pad w a = pad w b \<longleftrightarrow> a = b"
proof
  assume "pad w a = pad w b"
  then have "Some a = Some b"
    using num_of_pad [OF assms(1,2), of 0] num_of_pad [OF assms(3,4), of 0] by (metis mult_zero_left add_0)
  then show "a = b" by simp
qed simp

lemma pad_less_iff:
  "0 \<le> a \<Longrightarrow> a < 10 ^ w \<Longrightarrow> 0 \<le> b \<Longrightarrow> b < 10 ^ w \<Longrightarrow> pad w a < pad w b \<longleftrightarrow> a < b"
proof (induction w arbitrary: a b)
  case 0
  then show ?case by simp
next
  case (Suc w)
  have p: "0 \<le> a div 10" "a div 10 < 10 ^ w" "0 \<le> b div 10" "b div 10 < 10 ^ w" using Suc.prems by simp_all
  have d: "digit (a mod 10) < digit (b mod 10) \<longleftrightarrow> a mod 10 < b mod 10" by (rule digit_less_iff) simp_all
  have "pad (Suc w) a < pad (Suc w) b \<longleftrightarrow>
      a div 10 < b div 10 \<or> a div 10 = b div 10 \<and> a mod 10 < b mod 10"
    unfolding pad.simps append_less_iff [OF trans [OF length_pad length_pad [symmetric]]]
      Suc.IH [OF p] pad_inject [OF p] Cons_less_Cons d by simp
  then show ?case unfolding div_mod_less_iff [of 10 a b, OF zero_less_numeral] .
qed

lemma pad_append_less_iff:
  assumes "0 \<le> a" "a < 10 ^ w" "0 \<le> b" "b < 10 ^ w"
  shows "pad w a @ x < pad w b @ y \<longleftrightarrow> a < b \<or> a = b \<and> x < y"
  using pad_less_iff [OF assms] pad_inject [OF assms] by (simp add: append_less_iff)

text \<open>Two numbers of the form of a time of day.\<close>

lemma clock_less_iff:
  fixes h mi s ns h' mi' s' ns' :: int
  assumes "0 \<le> h" "h < 24" "0 \<le> mi" "mi < 60" "0 \<le> s" "s < 60" "0 \<le> ns" "ns < 1000000000"
    "0 \<le> h'" "h' < 24" "0 \<le> mi'" "mi' < 60" "0 \<le> s'" "s' < 60" "0 \<le> ns'" "ns' < 1000000000"
  shows "((h * 60 + mi) * 60 + s) * 1000000000 + ns < ((h' * 60 + mi') * 60 + s') * 1000000000 + ns' \<longleftrightarrow>
    h < h' \<or> h = h' \<and> (mi < mi' \<or> mi = mi' \<and> (s < s' \<or> s = s' \<and> ns < ns'))"
  using assms by (simp add: algebra_simps) linarith

lemma format_less_iff:
  assumes "four_digit_year t" "four_digit_year u"
  shows "format_utc t < format_utc u \<longleftrightarrow> t < u"
proof -
  obtain y m d h mi s ns where T: "civil (t div ns_per_day + epoch_day) = (y, m, d)"
    "format_utc t = format_year y @ ''-'' @ pad 2 m @ ''-'' @ pad 2 d @ ''T'' @ pad 2 h @ '':''
       @ pad 2 mi @ '':'' @ pad 2 s @ ''.'' @ pad 9 ns @ ''Z''"
    and tb: "1 \<le> m" "m \<le> 12" "1 \<le> d" "d < 100" "0 \<le> h" "h < 24" "0 \<le> mi" "mi < 60" "0 \<le> s" "s < 60"
      "0 \<le> ns" "ns < 1000000000"
    and ty: "y = year_of (t div ns_per_day + epoch_day)"
    and tm: "t mod ns_per_day = ((h * 60 + mi) * 60 + s) * 1000000000 + ns"
    by (rule time_fields [of t]) blast
  obtain y' m' d' h' mi' s' ns' where U: "civil (u div ns_per_day + epoch_day) = (y', m', d')"
    "format_utc u = format_year y' @ ''-'' @ pad 2 m' @ ''-'' @ pad 2 d' @ ''T'' @ pad 2 h' @ '':''
       @ pad 2 mi' @ '':'' @ pad 2 s' @ ''.'' @ pad 9 ns' @ ''Z''"
    and ub: "1 \<le> m'" "m' \<le> 12" "1 \<le> d'" "d' < 100" "0 \<le> h'" "h' < 24" "0 \<le> mi'" "mi' < 60" "0 \<le> s'" "s' < 60"
      "0 \<le> ns'" "ns' < 1000000000"
    and uy: "y' = year_of (u div ns_per_day + epoch_day)"
    and um: "u mod ns_per_day = ((h' * 60 + mi') * 60 + s') * 1000000000 + ns'"
    by (rule time_fields [of u]) blast
  have years: "0 \<le> y" "y < 10000" "0 \<le> y'" "y' < 10000" using assms ty uy by (simp_all add: four_digit_year_def)
  have dates: "t div ns_per_day < u div ns_per_day \<longleftrightarrow> y < y' \<or> y = y' \<and> (m < m' \<or> m = m' \<and> d < d')"
    using civil_less_iff [OF T(1) U(1)] by simp
  have same: "t div ns_per_day = u div ns_per_day \<longleftrightarrow> y = y' \<and> m = m' \<and> d = d'"
    using civil_bounds(7) [OF T(1)] civil_bounds(7) [OF U(1)] T(1) U(1) by auto
  have lex: "format_utc t < format_utc u \<longleftrightarrow>
    y < y' \<or> y = y' \<and> (m < m' \<or> m = m' \<and> (d < d' \<or> d = d' \<and>
      (h < h' \<or> h = h' \<and> (mi < mi' \<or> mi = mi' \<and> (s < s' \<or> s = s' \<and> ns < ns')))))"
    using tb ub years by (simp add: T(2) U(2) format_year_pad pad_append_less_iff)
  have clock: "t mod ns_per_day < u mod ns_per_day \<longleftrightarrow>
      h < h' \<or> h = h' \<and> (mi < mi' \<or> mi = mi' \<and> (s < s' \<or> s = s' \<and> ns < ns'))"
    unfolding tm um using tb ub by (intro clock_less_iff)
  have "0 < ns_per_day" by (simp add: ns_per_day_def)
  from div_mod_less_iff [OF this, of t u] show ?thesis unfolding lex dates same clock by blast
qed

end
