(* ===== verification/Signal_Inbox.thy ===== *)
theory Signal_Inbox
  imports Go_Time Sql_Table "HOL-Library.AList"
begin

text \<open>
  The signal inbox of \<open>signal_store.go\<close>: the \<open>signals\<close> table with its text timestamps and primary
  key, the cursor of each source, and the operations of the store (ingest, list, claim, ack,
  pending check, garbage collection). \<open>content_size.go\<close> bounds what a connector may write.
\<close>

section \<open>Content size\<close>

definition MaxContentBytes :: nat where
  "MaxContentBytes = 64 * 1024"

definition ValidateContentSize :: "nat \<Rightarrow> bool" where
  "ValidateContentSize bytes \<longleftrightarrow> bytes \<le> MaxContentBytes"

lemma ValidateContentSize_code [code]: "ValidateContentSize bytes \<longleftrightarrow> int bytes \<le> 65536"
  by (simp add: ValidateContentSize_def MaxContentBytes_def)

text \<open>
  The number of bytes \<open>json.Marshal\<close> writes for a string: printable ASCII as it is, quotes,
  backslashes and the short escapes as two bytes, other control characters and \<open><\<close>, \<open>>\<close>, \<open>&\<close> as
  six, a valid UTF-8 sequence as it is except for U+2028 and U+2029, an invalid byte as six.
\<close>

definition json_ascii_size :: "nat \<Rightarrow> nat" where
  "json_ascii_size b =
     (if b \<in> {8, 9, 10, 12, 13, 34, 92} then 2
      else if b < 32 \<or> b \<in> {38, 60, 62} then 6 else 1)"

definition tail_byte :: "nat \<Rightarrow> bool" where
  "tail_byte b \<longleftrightarrow> 128 \<le> b \<and> b \<le> 191"

fun utf8_width :: "nat list \<Rightarrow> nat" where
  "utf8_width (a # b # c # d # _) =
     (if 240 \<le> a \<and> a \<le> 244 \<and> tail_byte b \<and> tail_byte c \<and> tail_byte d
         \<and> (a = 240 \<longrightarrow> 144 \<le> b) \<and> (a = 244 \<longrightarrow> b \<le> 143) then 4
      else utf8_width [a, b, c])"
| "utf8_width [a, b, c] =
     (if 224 \<le> a \<and> a \<le> 239 \<and> tail_byte b \<and> tail_byte c
         \<and> (a = 224 \<longrightarrow> 160 \<le> b) \<and> (a = 237 \<longrightarrow> b \<le> 159) then 3
      else utf8_width [a, b])"
| "utf8_width [a, b] = (if 194 \<le> a \<and> a \<le> 223 \<and> tail_byte b then 2 else utf8_width [a])"
| "utf8_width [a] = (if a < 128 then 1 else 0)"
| "utf8_width [] = 0"

function json_body_size :: "nat list \<Rightarrow> nat" where
  "json_body_size [] = 0"
| "json_body_size (b # bs) =
     (if b < 128 then json_ascii_size b + json_body_size bs
      else let w = utf8_width (b # bs) in
           if w = 0 then 6 + json_body_size bs
           else (if take 3 (b # bs) \<in> {[226, 128, 168], [226, 128, 169]} then 6 else w)
                + json_body_size (drop (w - 1) bs))"
  by pat_completeness auto

termination by (relation "measure length") auto

definition json_string_size :: "string \<Rightarrow> nat" where
  "json_string_size s = 2 + json_body_size (map of_char s)"

section \<open>Timestamps\<close>

definition formatSignalTime :: "time \<Rightarrow> string" where
  "formatSignalTime t = format_utc t"

definition parseSignalTime :: "string \<Rightarrow> time option" where
  "parseSignalTime s = parse_rfc3339 s"

section \<open>Rows\<close>

definition MaxSignalAttempts :: int where
  "MaxSignalAttempts = 5"

definition DefaultSignalListLimit :: int where
  "DefaultSignalListLimit = 200"

definition MaxSignalListLimit :: int where
  "MaxSignalListLimit = 1000"

definition ClampSignalListLimit :: "int \<Rightarrow> int" where
  "ClampSignalListLimit requested =
     (if requested \<le> 0 then DefaultSignalListLimit
      else if requested > MaxSignalListLimit then MaxSignalListLimit
      else requested)"

definition resolveMaxAttempts :: "int \<Rightarrow> int" where
  "resolveMaxAttempts maxAttempts = (if maxAttempts \<le> 0 then MaxSignalAttempts else maxAttempts)"

text \<open>A row as stored, with its times as text, and as the callers see it.\<close>

record signal_row =
  sg_workspace_id :: string
  sg_service :: string
  sg_connector :: string
  sg_id :: string
  sg_occurred_at :: string
  sg_identity :: string
  sg_url :: string
  sg_author :: string
  sg_title :: string
  sg_received_at :: string
  sg_attempts :: int
  sg_acked_at :: "string option"

record signal =
  si_workspace_id :: string
  si_service :: string
  si_connector :: string
  si_id :: string
  si_occurred_at :: time
  si_identity :: string
  si_url :: string
  si_author :: string
  si_title :: string
  si_received_at :: time
  si_attempts :: int
  si_acked_at :: "time option"

record signal_ingest_row =
  ir_id :: string
  ir_occurred_at :: string
  ir_identity :: string
  ir_url :: string
  ir_author :: string
  ir_title :: string

type_synonym source_key = "string \<times> string \<times> string"
type_synonym signal_key = "string \<times> string \<times> string \<times> string"

definition key_of :: "signal_row \<Rightarrow> signal_key" where
  "key_of r = (sg_workspace_id r, sg_service r, sg_connector r, sg_id r)"

record signal_inbox =
  in_signals :: "signal_row list"
  in_cursors :: "(source_key \<times> (string \<times> string)) list"

datatype signal_error =
    ErrSignalArgument string
  | ErrSignalTime string
  | ErrSignalSize
  | ErrSignalState string
  | ErrUnknownSignalIDs "string list"

definition scanSignalRow :: "signal_row \<Rightarrow> signal_error + signal" where
  "scanSignalRow r =
     (case parseSignalTime (sg_occurred_at r) of
        None \<Rightarrow> Inl (ErrSignalTime (sg_occurred_at r))
      | Some t \<Rightarrow>
          (case parseSignalTime (sg_received_at r) of
             None \<Rightarrow> Inl (ErrSignalTime (sg_received_at r))
           | Some rt \<Rightarrow>
               and_then
                 (case sg_acked_at r of
                    None \<Rightarrow> Inr None
                  | Some s \<Rightarrow>
                      (case parseSignalTime s of None \<Rightarrow> Inl (ErrSignalTime s) | Some at \<Rightarrow> Inr (Some at)))
                 (\<lambda>acked. Inr
                   \<lparr>si_workspace_id = sg_workspace_id r, si_service = sg_service r,
                    si_connector = sg_connector r, si_id = sg_id r, si_occurred_at = t,
                    si_identity = sg_identity r, si_url = sg_url r, si_author = sg_author r,
                    si_title = sg_title r, si_received_at = rt, si_attempts = sg_attempts r,
                    si_acked_at = acked\<rparr>)))"

fun scanSignals :: "signal_row list \<Rightarrow> signal_error + signal list" where
  "scanSignals [] = Inr []"
| "scanSignals (r # rs) =
     and_then (scanSignalRow r) (\<lambda>s. and_then (scanSignals rs) (\<lambda>ss. Inr (s # ss)))"

section \<open>Cursors\<close>

definition GetSignalCursor :: "source_key \<Rightarrow> signal_inbox \<Rightarrow> string" where
  "GetSignalCursor src ib = (case map_of (in_cursors ib) src of None \<Rightarrow> [] | Some (c, _) \<Rightarrow> c)"

definition setSignalCursor :: "time \<Rightarrow> source_key \<Rightarrow> string \<Rightarrow> signal_inbox \<Rightarrow> signal_inbox" where
  "setSignalCursor now src cursor ib =
     ib\<lparr>in_cursors := AList.update src (cursor, formatSignalTime now) (in_cursors ib)\<rparr>"

section \<open>Ingest\<close>

text \<open>The object \<open>json.Marshal\<close> writes for a row: optional members only when they are not empty.\<close>

definition member_size :: "nat \<Rightarrow> string \<Rightarrow> nat" where
  "member_size name v = 1 + (name + 3) + json_string_size v"

definition optional_size :: "nat \<Rightarrow> string \<Rightarrow> nat" where
  "optional_size name v = (if v = [] then 0 else member_size name v)"

definition encoded_size :: "signal_ingest_row \<Rightarrow> nat" where
  "encoded_size r =
     1 + member_size 2 (ir_id r) + member_size 11 (ir_occurred_at r) + member_size 8 (ir_identity r)
     + optional_size 3 (ir_url r) + optional_size 6 (ir_author r) + optional_size 5 (ir_title r)"

definition new_signal :: "time \<Rightarrow> source_key \<Rightarrow> signal_ingest_row \<Rightarrow> time \<Rightarrow> signal_row" where
  "new_signal now src row occurredAt =
     (case src of (workspaceID, service, connector) \<Rightarrow>
       \<lparr>sg_workspace_id = workspaceID, sg_service = service, sg_connector = connector, sg_id = ir_id row,
        sg_occurred_at = formatSignalTime occurredAt, sg_identity = ir_identity row, sg_url = ir_url row,
        sg_author = ir_author row, sg_title = ir_title row, sg_received_at = formatSignalTime now,
        sg_attempts = 0, sg_acked_at = None\<rparr>)"

definition insert_or_ignore :: "signal_row \<Rightarrow> signal_row list \<Rightarrow> signal_row list" where
  "insert_or_ignore r rows = (if key_of r \<in> set (map key_of rows) then rows else rows @ [r])"

fun ingest_rows ::
  "time \<Rightarrow> source_key \<Rightarrow> signal_ingest_row list \<Rightarrow> time option \<Rightarrow> signal_row list
   \<Rightarrow> signal_error + (time option \<times> signal_row list)" where
  "ingest_rows now src [] maxOccurred table = Inr (maxOccurred, table)"
| "ingest_rows now src (row # rest) maxOccurred table =
     and_then (guard (ir_id row \<noteq> []) (ErrSignalArgument ''row id must not be empty'')) (\<lambda>_.
     and_then (guard (ir_identity row \<noteq> []) (ErrSignalArgument ''identity must not be empty'')) (\<lambda>_.
     case parseSignalTime (ir_occurred_at row) of
       None \<Rightarrow> Inl (ErrSignalTime (ir_occurred_at row))
     | Some occurredAt \<Rightarrow>
         and_then (guard (ValidateContentSize (encoded_size row)) ErrSignalSize) (\<lambda>_.
         ingest_rows now src rest
           (case maxOccurred of
              None \<Rightarrow> Some occurredAt
            | Some t \<Rightarrow> if occurredAt > t then Some occurredAt else Some t)
           (insert_or_ignore (new_signal now src row occurredAt) table))))"

definition IngestSignals ::
  "time \<Rightarrow> source_key \<Rightarrow> signal_ingest_row list \<Rightarrow> signal_inbox \<Rightarrow> signal_error + signal_inbox" where
  "IngestSignals now src rows ib =
     (case src of (workspaceID, service, connector) \<Rightarrow>
        and_then (guard (workspaceID \<noteq> []) (ErrSignalArgument ''workspace id must not be empty'')) (\<lambda>_.
        and_then (guard (connector \<noteq> []) (ErrSignalArgument ''connector must not be empty'')) (\<lambda>_.
        if rows = [] then Inr ib
        else and_then (ingest_rows now src rows None (in_signals ib)) (\<lambda>(maxOccurred, table).
          let ib1 = ib\<lparr>in_signals := table\<rparr> in
          case maxOccurred of
            None \<Rightarrow> Inr ib1
          | Some t \<Rightarrow>
              let current = GetSignalCursor src ib1 in
              and_then
                (if current = [] then Inr True
                 else case parseSignalTime current of
                   None \<Rightarrow> Inl (ErrSignalTime current)
                 | Some currentTime \<Rightarrow> Inr (t > currentTime))
                (\<lambda>advance.
                  Inr (if advance then setSignalCursor now src (formatSignalTime t) ib1 else ib1))))))"

section \<open>Listing\<close>

definition signalStateCondition :: "string \<Rightarrow> int \<Rightarrow> (signal_error + (signal_row \<Rightarrow> bool))" where
  "signalStateCondition state maxAttempts =
     (if state = [] \<or> state = ''pending''
      then Inr (\<lambda>r. sg_acked_at r = None \<and> sg_attempts r < maxAttempts)
      else if state = ''dead'' then Inr (\<lambda>r. sg_acked_at r = None \<and> sg_attempts r \<ge> maxAttempts)
      else if state = ''acked'' then Inr (\<lambda>r. sg_acked_at r \<noteq> None)
      else if state = ''all'' then Inr (\<lambda>r. True)
      else Inl (ErrSignalState state))"

record signal_filter =
  sf_workspace_id :: string
  sf_service :: string
  sf_connector :: string
  sf_state :: string
  sf_limit :: int
  sf_max_attempts :: int

definition signal_order :: "signal_row \<Rightarrow> string \<times> string" where
  "signal_order r = (sg_occurred_at r, sg_id r)"

definition ListSignals :: "signal_filter \<Rightarrow> signal_inbox \<Rightarrow> signal_error + signal list" where
  "ListSignals f ib =
     and_then (guard (sf_workspace_id f \<noteq> []) (ErrSignalArgument ''workspace id must not be empty'')) (\<lambda>_.
     and_then (signalStateCondition (sf_state f) (resolveMaxAttempts (sf_max_attempts f))) (\<lambda>cond.
     scanSignals (take (nat (ClampSignalListLimit (sf_limit f)))
       (select_order signal_order
         (\<lambda>r. sg_workspace_id r = sf_workspace_id f \<and> cond r
              \<and> (sf_service f \<noteq> [] \<longrightarrow> sg_service r = sf_service f)
              \<and> (sf_connector f \<noteq> [] \<longrightarrow> sg_connector r = sf_connector f))
         (in_signals ib)))))"

section \<open>Claim and acknowledge\<close>

definition charge :: "signal_row \<Rightarrow> signal_row" where
  "charge r = r\<lparr>sg_attempts := sg_attempts r + 1\<rparr>"

definition pending :: "int \<Rightarrow> signal_row \<Rightarrow> bool" where
  "pending maxAttempts r \<longleftrightarrow> sg_acked_at r = None \<and> sg_attempts r < maxAttempts"

text \<open>The loop over the selected keys: charge the row, then read it back.\<close>

fun claim_keys :: "signal_key list \<Rightarrow> signal_row list \<Rightarrow> signal_error + (signal list \<times> signal_row list)" where
  "claim_keys [] table = Inr ([], table)"
| "claim_keys (k # ks) table =
     (let table1 = update_where (\<lambda>r. key_of r = k) charge table in
      case find (\<lambda>r. key_of r = k) table1 of
        None \<Rightarrow> Inl (ErrSignalArgument ''re-fetch'')
      | Some r \<Rightarrow>
          and_then (scanSignalRow r) (\<lambda>sig.
          and_then (claim_keys ks table1) (\<lambda>(sigs, table2). Inr (sig # sigs, table2))))"

definition ClaimSignals ::
  "string \<Rightarrow> int \<Rightarrow> int \<Rightarrow> signal_inbox \<Rightarrow> signal_error + (signal list \<times> signal_inbox)" where
  "ClaimSignals workspaceID limit maxAttempts ib =
     and_then (guard (workspaceID \<noteq> []) (ErrSignalArgument ''workspace id must not be empty'')) (\<lambda>_.
     let keys = map key_of (take (nat (ClampSignalListLimit limit))
           (select_order signal_order
             (\<lambda>r. sg_workspace_id r = workspaceID \<and> pending (resolveMaxAttempts maxAttempts) r)
             (in_signals ib)))
     in and_then (claim_keys keys (in_signals ib)) (\<lambda>(sigs, table). Inr (sigs, ib\<lparr>in_signals := table\<rparr>)))"

definition dedupeStringsPreserveOrder :: "string list \<Rightarrow> string list" where
  "dedupeStringsPreserveOrder ss = dedup_seen [] ss"

definition requireSignalIDsExist :: "string \<Rightarrow> string list \<Rightarrow> signal_inbox \<Rightarrow> signal_error + string list" where
  "requireSignalIDsExist workspaceID ids ib =
     (let unique = dedupeStringsPreserveOrder ids;
          existing = map sg_id (filter (\<lambda>r. sg_workspace_id r = workspaceID) (in_signals ib));
          unknown = filter (\<lambda>i. i \<notin> set existing) unique
      in if unknown \<noteq> [] then Inl (ErrUnknownSignalIDs (sort unknown)) else Inr unique)"

definition ClaimSignalIDs :: "string \<Rightarrow> string list \<Rightarrow> signal_inbox \<Rightarrow> signal_error + signal_inbox" where
  "ClaimSignalIDs workspaceID ids ib =
     and_then (guard (workspaceID \<noteq> []) (ErrSignalArgument ''workspace id must not be empty'')) (\<lambda>_.
     if ids = [] then Inr ib
     else and_then (requireSignalIDsExist workspaceID ids ib) (\<lambda>unique.
       Inr (ib\<lparr>in_signals := update_where
         (\<lambda>r. sg_workspace_id r = workspaceID \<and> sg_acked_at r = None \<and> sg_id r \<in> set unique)
         charge (in_signals ib)\<rparr>)))"

definition AckSignals :: "time \<Rightarrow> string \<Rightarrow> string list \<Rightarrow> signal_inbox \<Rightarrow> signal_error + signal_inbox" where
  "AckSignals now workspaceID ids ib =
     and_then (guard (workspaceID \<noteq> []) (ErrSignalArgument ''workspace id must not be empty'')) (\<lambda>_.
     if ids = [] then Inr ib
     else and_then (requireSignalIDsExist workspaceID ids ib) (\<lambda>unique.
       Inr (ib\<lparr>in_signals := update_where
         (\<lambda>r. sg_workspace_id r = workspaceID \<and> sg_acked_at r = None \<and> sg_id r \<in> set unique)
         (\<lambda>r. r\<lparr>sg_acked_at := Some (formatSignalTime now)\<rparr>) (in_signals ib)\<rparr>)))"

definition HasPendingSignals :: "string \<Rightarrow> int \<Rightarrow> signal_inbox \<Rightarrow> signal_error + bool" where
  "HasPendingSignals workspaceID maxAttempts ib =
     and_then (guard (workspaceID \<noteq> []) (ErrSignalArgument ''workspace id must not be empty'')) (\<lambda>_.
     Inr (\<exists>r \<in> set (in_signals ib).
            sg_workspace_id r = workspaceID \<and> pending (resolveMaxAttempts maxAttempts) r))"

section \<open>Garbage collection\<close>

definition signal_collectable :: "time \<Rightarrow> duration \<Rightarrow> signal_row \<Rightarrow> bool" where
  "signal_collectable now olderThan r \<longleftrightarrow>
     (sg_acked_at r \<noteq> None \<or> sg_acked_at r = None \<and> sg_attempts r \<ge> MaxSignalAttempts)
     \<and> (olderThan > 0 \<longrightarrow>
          (let cutoff = formatSignalTime (now - olderThan) in
           case sg_acked_at r of Some a \<Rightarrow> a < cutoff | None \<Rightarrow> sg_received_at r < cutoff))"

definition GCSignals :: "time \<Rightarrow> duration \<Rightarrow> bool \<Rightarrow> signal_inbox \<Rightarrow> nat \<times> signal_inbox" where
  "GCSignals now olderThan dryRun ib =
     (let n = length (filter (signal_collectable now olderThan) (in_signals ib)) in
      if dryRun then (n, ib)
      else (n, ib\<lparr>in_signals := delete_where (signal_collectable now olderThan) (in_signals ib)\<rparr>))"

end
