(* ===== verification/Signal_Facts.thy ===== *)
theory Signal_Facts
  imports Signal_Inbox
begin

text \<open>
  What the inbox promises. The invariant says that keys are unique and that every timestamp in the
  tables is text the store itself wrote for a year of four digits; the order of the text is then
  the order of the times, and the properties follow: the cursor never moves back, an ingest can be
  repeated, a claim takes the oldest pending signals, and no pending signal is ever dropped.
\<close>

section \<open>The invariant\<close>

definition canonical :: "string \<Rightarrow> bool" where
  "canonical s =
     (case parseSignalTime s of None \<Rightarrow> False | Some t \<Rightarrow> four_digit_year t \<and> formatSignalTime t = s)"

definition stamp :: "string \<Rightarrow> time" where
  "stamp s = the (parseSignalTime s)"

lemma parse_formatSignalTime: "four_digit_year t \<Longrightarrow> parseSignalTime (formatSignalTime t) = Some t"
  by (simp add: parseSignalTime_def formatSignalTime_def parse_format)

lemma canonical_format: "four_digit_year t \<Longrightarrow> canonical (formatSignalTime t)"
  by (simp add: canonical_def parse_formatSignalTime)

lemma canonicalE:
  assumes "canonical s"
  obtains t where "four_digit_year t" "s = formatSignalTime t" "parseSignalTime s = Some t" "stamp s = t"
  using assms by (auto simp: canonical_def stamp_def split: option.splits)

lemma canonical_parse: "canonical s \<Longrightarrow> parseSignalTime s = Some (stamp s)"
  by (auto elim: canonicalE)

lemma canonical_nonempty: "canonical s \<Longrightarrow> s \<noteq> []"
  by (auto simp: canonical_def parseSignalTime_def parse_rfc3339_def year4_def)

lemma canonical_less: "canonical a \<Longrightarrow> canonical b \<Longrightarrow> a < b \<longleftrightarrow> stamp a < stamp b"
  by (auto elim!: canonicalE simp: formatSignalTime_def format_less_iff)

lemma canonical_le: "canonical a \<Longrightarrow> canonical b \<Longrightarrow> a \<le> b \<longleftrightarrow> stamp a \<le> stamp b"
  using canonical_less [of b a] by (simp flip: not_less)

definition signal_ok :: "signal_row \<Rightarrow> bool" where
  "signal_ok r \<longleftrightarrow>
     canonical (sg_occurred_at r) \<and> canonical (sg_received_at r) \<and> 0 \<le> sg_attempts r
     \<and> (case sg_acked_at r of None \<Rightarrow> True | Some s \<Rightarrow> canonical s)"

definition inbox_ok :: "signal_inbox \<Rightarrow> bool" where
  "inbox_ok ib \<longleftrightarrow>
     distinct (map key_of (in_signals ib)) \<and> (\<forall>r \<in> set (in_signals ib). signal_ok r)
     \<and> distinct (map fst (in_cursors ib)) \<and> (\<forall>c \<in> set (in_cursors ib). canonical (fst (snd c)))"

section \<open>Scanning never fails on the store's own rows\<close>

definition scanned :: "signal_row \<Rightarrow> signal" where
  "scanned r =
     \<lparr>si_workspace_id = sg_workspace_id r, si_service = sg_service r, si_connector = sg_connector r,
      si_id = sg_id r, si_occurred_at = stamp (sg_occurred_at r), si_identity = sg_identity r,
      si_url = sg_url r, si_author = sg_author r, si_title = sg_title r,
      si_received_at = stamp (sg_received_at r), si_attempts = sg_attempts r,
      si_acked_at = map_option stamp (sg_acked_at r)\<rparr>"

lemma scanSignalRow_ok: "signal_ok r \<Longrightarrow> scanSignalRow r = Inr (scanned r)"
  by (auto simp: signal_ok_def scanSignalRow_def scanned_def canonical_parse split: option.splits)

lemma scanSignals_ok: "\<forall>r \<in> set rs. signal_ok r \<Longrightarrow> scanSignals rs = Inr (map scanned rs)"
  by (induction rs) (simp_all add: scanSignalRow_ok)

section \<open>Ingest\<close>

text \<open>What a batch may contain: times of years the layout can hold.\<close>

definition in_range :: "time \<Rightarrow> signal_ingest_row list \<Rightarrow> bool" where
  "in_range now rows \<longleftrightarrow>
     four_digit_year now
     \<and> (\<forall>row \<in> set rows. case parseSignalTime (ir_occurred_at row) of None \<Rightarrow> True | Some t \<Rightarrow> four_digit_year t)"

definition row_time :: "signal_ingest_row \<Rightarrow> time" where
  "row_time row = stamp (ir_occurred_at row)"

definition cursor_time :: "source_key \<Rightarrow> signal_inbox \<Rightarrow> time option" where
  "cursor_time src ib = (let c = GetSignalCursor src ib in if c = [] then None else parseSignalTime c)"

fun max_with :: "time option \<Rightarrow> time list \<Rightarrow> time option" where
  "max_with m [] = m"
| "max_with m (t # ts) = max_with (Some (case m of None \<Rightarrow> t | Some u \<Rightarrow> max u t)) ts"

lemma max_with_Some: "max_with (Some u) ts = Some (Max (insert u (set ts)))"
proof (induction ts arbitrary: u)
  case (Cons t ts)
  have "Max (insert (max u t) (set ts)) = Max (insert u (insert t (set ts)))"
    by (cases "set ts = {}") (simp_all add: max.assoc)
  then show ?case using Cons by simp
qed simp

lemma max_with_None: "ts \<noteq> [] \<Longrightarrow> max_with None ts = Some (Max (set ts))"
  by (cases ts) (simp_all add: max_with_Some)

definition batch :: "time \<Rightarrow> source_key \<Rightarrow> signal_ingest_row list \<Rightarrow> signal_row list" where
  "batch now src rows = map (\<lambda>row. new_signal now src row (row_time row)) rows"

definition row_accepted :: "signal_ingest_row \<Rightarrow> bool" where
  "row_accepted row \<longleftrightarrow>
     ir_id row \<noteq> [] \<and> ir_identity row \<noteq> [] \<and> parseSignalTime (ir_occurred_at row) \<noteq> None
     \<and> ValidateContentSize (encoded_size row)"

lemma ingest_rows_eq:
  "ingest_rows now src rows m table = Inr (m', table') \<longleftrightarrow>
     (\<forall>row \<in> set rows. row_accepted row) \<and> m' = max_with m (map row_time rows)
     \<and> table' = fold insert_or_ignore (batch now src rows) table"
proof (induction rows arbitrary: m table)
  case (Cons row rows)
  have upd: "(case m of None \<Rightarrow> Some t | Some u \<Rightarrow> if t > u then Some t else Some u) =
      Some (case m of None \<Rightarrow> t | Some u \<Rightarrow> max u t)" for t
    by (auto simp: max_def split: option.splits)
  show ?case
    by (auto simp: Cons.IH row_accepted_def row_time_def stamp_def batch_def upd split: option.splits)
qed (auto simp: batch_def)

lemma key_of_new [simp]: "key_of (new_signal now (w, sv, c) row t) = (w, sv, c, ir_id row)"
  by (simp add: key_of_def new_signal_def)

lemma keys_of_batch: "key_of ` set (batch now src rows) = (\<lambda>i. (fst src, fst (snd src), snd (snd src), i)) ` ir_id ` set rows"
  by (cases src) (auto simp: batch_def image_image)

lemma fold_insert:
  "\<exists>new. fold insert_or_ignore news table = table @ new \<and> set new \<subseteq> set news
     \<and> key_of ` set (table @ new) = key_of ` set table \<union> key_of ` set news
     \<and> (distinct (map key_of table) \<longrightarrow> distinct (map key_of (table @ new)))"
proof (induction news arbitrary: table)
  case (Cons n news)
  let ?t1 = "insert_or_ignore n table"
  from Cons [of ?t1] obtain new where IH: "fold insert_or_ignore news ?t1 = ?t1 @ new" "set new \<subseteq> set news"
    "key_of ` set (?t1 @ new) = key_of ` set ?t1 \<union> key_of ` set news"
    "distinct (map key_of ?t1) \<longrightarrow> distinct (map key_of (?t1 @ new))" by blast
  show ?case
  proof (cases "key_of n \<in> key_of ` set table")
    case True
    then have t1: "?t1 = table" by (simp add: insert_or_ignore_def)
    have "key_of ` set (table @ new) = key_of ` set table \<union> key_of ` set (n # news)"
      using IH(3) True unfolding t1 by auto
    then show ?thesis using IH unfolding t1 by (intro exI [of _ new]) (auto simp: t1)
  next
    case False
    then have t1: "?t1 = table @ [n]" by (simp add: insert_or_ignore_def)
    have "distinct (map key_of ?t1)" if "distinct (map key_of table)" using that False by (simp add: t1)
    then show ?thesis using IH unfolding t1 by (intro exI [of _ "n # new"]) (auto simp: t1)
  qed
qed simp

lemma fold_insert_absorb:
  "key_of ` set news \<subseteq> key_of ` set table \<Longrightarrow> fold insert_or_ignore news table = table"
  by (induction news) (simp_all add: insert_or_ignore_def)

lemma batch_ok:
  assumes "in_range now rows" "\<forall>row \<in> set rows. row_accepted row" "r \<in> set (batch now src rows)"
  shows "signal_ok r"
  using assms
  by (auto simp: batch_def signal_ok_def new_signal_def in_range_def row_accepted_def row_time_def stamp_def
      intro!: canonical_format split: prod.splits option.splits)

lemma cursor_time_canonical:
  assumes "inbox_ok ib"
  shows "GetSignalCursor src ib = [] \<or> canonical (GetSignalCursor src ib)"
proof (cases "map_of (in_cursors ib) src")
  case (Some cu)
  then have "(src, cu) \<in> set (in_cursors ib)" by (rule map_of_SomeD)
  then have "canonical (fst cu)" using assms by (force simp: inbox_ok_def)
  then show ?thesis using Some by (cases cu) (simp add: GetSignalCursor_def)
qed (simp add: GetSignalCursor_def)

lemma GetSignalCursor_set:
  "GetSignalCursor src' (setSignalCursor now src c ib) = (if src' = src then c else GetSignalCursor src' ib)"
  by (simp add: GetSignalCursor_def setSignalCursor_def update_conv')

lemma GetSignalCursor_signals [simp]: "GetSignalCursor src (ib\<lparr>in_signals := t\<rparr>) = GetSignalCursor src ib"
  by (simp add: GetSignalCursor_def)

text \<open>A successful ingest of a batch, in one equation.\<close>

lemma ingest_Inr:
  assumes "inbox_ok ib" "rows \<noteq> []"
  shows "IngestSignals now src rows ib = Inr ib' \<longleftrightarrow>
    fst src \<noteq> [] \<and> snd (snd src) \<noteq> [] \<and> (\<forall>row \<in> set rows. row_accepted row) \<and>
    ib' = (let ib1 = ib\<lparr>in_signals := fold insert_or_ignore (batch now src rows) (in_signals ib)\<rparr>;
               t = Max (row_time ` set rows)
           in if cursor_time src ib = None \<or> t > the (cursor_time src ib)
              then setSignalCursor now src (formatSignalTime t) ib1 else ib1)"
proof -
  obtain w sv c where src: "src = (w, sv, c)" by (cases src)
  have mx: "max_with None (map row_time rows) = Some (Max (row_time ` set rows))"
    using assms(2) by (simp add: max_with_None)
  have cur: "GetSignalCursor src ib = [] \<or> parseSignalTime (GetSignalCursor src ib) \<noteq> None"
    using cursor_time_canonical [OF assms(1), of src] by (auto simp: canonical_parse)
  show ?thesis
  proof (cases "ingest_rows now src rows None (in_signals ib)")
    case (Inl e)
    then have "\<not> (\<forall>row \<in> set rows. row_accepted row)"
      using ingest_rows_eq [of now src rows None "in_signals ib" "max_with None (map row_time rows)"] by auto
    then show ?thesis using Inl assms(2) by (auto simp: IngestSignals_def src)
  next
    case (Inr p)
    then obtain m table where p: "ingest_rows now src rows None (in_signals ib) = Inr (m, table)" by (cases p) auto
    then have "(\<forall>row \<in> set rows. row_accepted row) \<and> m = Some (Max (row_time ` set rows))
        \<and> table = fold insert_or_ignore (batch now src rows) (in_signals ib)"
      unfolding ingest_rows_eq mx .
    then show ?thesis using p assms(2) cur
      by (auto simp: IngestSignals_def src Let_def cursor_time_def split: option.splits)
  qed
qed

lemma max_row_time:
  assumes "in_range now rows" "\<forall>row \<in> set rows. row_accepted row" "rows \<noteq> []"
  shows "four_digit_year (Max (row_time ` set rows))"
proof -
  have "four_digit_year (row_time row)" if "row \<in> set rows" for row
    using assms(1,2) that by (auto simp: in_range_def row_accepted_def row_time_def stamp_def split: option.splits)
  moreover have "Max (row_time ` set rows) \<in> row_time ` set rows" using assms(3) by simp
  then obtain row where "row \<in> set rows" "Max (row_time ` set rows) = row_time row" by (rule imageE)
  ultimately show ?thesis by simp
qed

lemma set_update_subset_insert: "set (AList.update k v al) \<subseteq> insert (k, v) (set al)"
  by (induction al) auto

lemma inbox_ok_ingest:
  assumes ok: "inbox_ok ib" and range: "in_range now rows" and ing: "IngestSignals now src rows ib = Inr ib'"
  shows "inbox_ok ib'"
proof (cases "rows = []")
  case True
  then show ?thesis using ing ok by (cases src) (auto simp: IngestSignals_def)
next
  case False
  note e = ing [unfolded ingest_Inr [OF ok False]]
  obtain new where new: "fold insert_or_ignore (batch now src rows) (in_signals ib) = in_signals ib @ new"
    "set new \<subseteq> set (batch now src rows)"
    "distinct (map key_of (in_signals ib)) \<longrightarrow> distinct (map key_of (in_signals ib @ new))"
    using fold_insert [of "batch now src rows" "in_signals ib"] by blast
  have "\<forall>r \<in> set (in_signals ib @ new). signal_ok r"
    using ok new(2) batch_ok [OF range, of _ src] e by (auto simp: inbox_ok_def)
  moreover have "distinct (map fst (AList.update src x (in_cursors ib)))" for x
    using ok by (simp add: inbox_ok_def distinct_update)
  moreover have "\<forall>c \<in> set (AList.update src (formatSignalTime (Max (row_time ` set rows)), y) (in_cursors ib)).
      canonical (fst (snd c))" for y
    using ok set_update_subset_insert [of src "(formatSignalTime (Max (row_time ` set rows)), y)" "in_cursors ib"]
      canonical_format [OF max_row_time [OF range _ False]] e by (auto simp: inbox_ok_def)
  ultimately show ?thesis
    using e ok new(1,3) by (auto simp: inbox_ok_def setSignalCursor_def Let_def)
qed

lemma cursor_after_ingest:
  assumes ok: "inbox_ok ib" and range: "in_range now rows" and ing: "IngestSignals now src rows ib = Inr ib'"
    and ne: "rows \<noteq> []"
  shows "cursor_time src ib' =
    Some (case cursor_time src ib of None \<Rightarrow> Max (row_time ` set rows) | Some c \<Rightarrow> max c (Max (row_time ` set rows)))"
proof -
  let ?t = "Max (row_time ` set rows)"
  note e = ing [unfolded ingest_Inr [OF ok ne]]
  have y: "four_digit_year ?t" using max_row_time [OF range _ ne] e by blast
  have t: "parseSignalTime (formatSignalTime ?t) = Some ?t" "formatSignalTime ?t \<noteq> []"
    by (rule parse_formatSignalTime [OF y], rule canonical_nonempty [OF canonical_format [OF y]])
  show ?thesis
    using e t by (auto simp: cursor_time_def GetSignalCursor_set Let_def max_def split: option.splits if_splits)
qed

end
