(* ===== verification/Signal_Properties.thy ===== *)
theory Signal_Properties
  imports Signal_Facts
begin

text \<open>The properties of the signal inbox, with the ledgers their witnesses run on.\<close>

section \<open>Claiming\<close>

lemma charge_simps [simp]:
  "key_of (charge r) = key_of r" "sg_attempts (charge r) = sg_attempts r + 1"
  "sg_acked_at (charge r) = sg_acked_at r" "sg_occurred_at (charge r) = sg_occurred_at r"
  "sg_id (charge r) = sg_id r" "sg_workspace_id (charge r) = sg_workspace_id r"
  "signal_ok r \<Longrightarrow> signal_ok (charge r)"
  by (simp_all add: charge_def key_of_def signal_ok_def)

lemma find_key_update:
  assumes "k \<noteq> k'"
  shows "find (\<lambda>r. key_of r = k') (update_where (\<lambda>r. key_of r = k) charge table) =
    find (\<lambda>r. key_of r = k') table"
  using assms by (induction table) (auto simp: update_where_def)

lemma find_key_charged:
  "find (\<lambda>r. key_of r = k) (update_where (\<lambda>r. key_of r = k) charge table) =
    map_option charge (find (\<lambda>r. key_of r = k) table)"
  by (induction table) (auto simp: update_where_def)

lemma claim_keys_eq:
  assumes "distinct ks" "\<forall>k \<in> set ks. \<exists>r. find (\<lambda>r. key_of r = k) table = Some r \<and> signal_ok r"
  shows "claim_keys ks table =
    Inr (map (\<lambda>k. scanned (charge (the (find (\<lambda>r. key_of r = k) table)))) ks,
         update_where (\<lambda>r. key_of r \<in> set ks) charge table)"
  using assms
proof (induction ks arbitrary: table)
  case Nil
  then show ?case by (simp add: update_where_def)
next
  case (Cons k ks)
  let ?t1 = "update_where (\<lambda>r. key_of r = k) charge table"
  obtain r where r: "find (\<lambda>r. key_of r = k) table = Some r" "signal_ok r" using Cons.prems(2) by auto
  have find1: "find (\<lambda>r. key_of r = k') ?t1 = find (\<lambda>r. key_of r = k') table" if "k' \<in> set ks" for k'
    using that Cons.prems(1) by (intro find_key_update) auto
  have IH: "claim_keys ks ?t1 =
      Inr (map (\<lambda>k. scanned (charge (the (find (\<lambda>r. key_of r = k) table)))) ks,
           update_where (\<lambda>r. key_of r \<in> set ks) charge ?t1)"
    using Cons.IH [of ?t1] Cons.prems find1 by (simp cong: map_cong)
  have upd: "update_where (\<lambda>r. key_of r \<in> set ks) charge ?t1 = update_where (\<lambda>r. key_of r \<in> set (k # ks)) charge table"
    using Cons.prems(1) by (auto simp: update_where_def)
  show ?case using r IH upd by (simp add: Let_def find_key_charged scanSignalRow_ok)
qed

definition claimable :: "string \<Rightarrow> int \<Rightarrow> int \<Rightarrow> signal_inbox \<Rightarrow> signal_row list" where
  "claimable workspaceID limit maxAttempts ib =
     take (nat (ClampSignalListLimit limit))
       (select_order signal_order
         (\<lambda>r. sg_workspace_id r = workspaceID \<and> pending (resolveMaxAttempts maxAttempts) r) (in_signals ib))"

lemma claim_eq:
  assumes ok: "inbox_ok ib" and ws: "workspaceID \<noteq> []"
  shows "ClaimSignals workspaceID limit maxAttempts ib =
    Inr (map (\<lambda>r. scanned (charge r)) (claimable workspaceID limit maxAttempts ib),
         ib\<lparr>in_signals := update_where (\<lambda>r. r \<in> set (claimable workspaceID limit maxAttempts ib)) charge (in_signals ib)\<rparr>)"
proof -
  let ?C = "claimable workspaceID limit maxAttempts ib"
  have d: "distinct (map key_of (in_signals ib))" and sok: "\<forall>r \<in> set (in_signals ib). signal_ok r"
    using ok by (simp_all add: inbox_ok_def)
  have sub: "set ?C \<subseteq> set (in_signals ib)" by (auto simp: claimable_def dest!: in_set_takeD)
  have dk: "distinct (map key_of ?C)"
    unfolding claimable_def using distinct_map_select_order [OF d]
    by (metis distinct_take take_map)
  have f: "find (\<lambda>x. key_of x = key_of r) (in_signals ib) = Some r" if "r \<in> set ?C" for r
    using find_distinct_key [OF d] sub that by blast
  have keys: "key_of r \<in> key_of ` set ?C \<longleftrightarrow> r \<in> set ?C" if "r \<in> set (in_signals ib)" for r
    using that sub d by (auto simp: distinct_map inj_on_def)
  have "claim_keys (map key_of ?C) (in_signals ib) =
      Inr (map (\<lambda>r. scanned (charge r)) ?C, update_where (\<lambda>r. key_of r \<in> set (map key_of ?C)) charge (in_signals ib))"
  proof -
    have pre: "\<forall>k \<in> set (map key_of ?C). \<exists>r. find (\<lambda>r. key_of r = k) (in_signals ib) = Some r \<and> signal_ok r"
      using f sub sok by auto
    have "map (\<lambda>k. scanned (charge (the (find (\<lambda>r. key_of r = k) (in_signals ib))))) (map key_of ?C) =
        map (\<lambda>r. scanned (charge r)) ?C"
      using f by simp
    then show ?thesis using claim_keys_eq [OF dk pre] by simp
  qed
  moreover have "update_where (\<lambda>r. key_of r \<in> set (map key_of ?C)) charge (in_signals ib) =
      update_where (\<lambda>r. r \<in> set ?C) charge (in_signals ib)"
    using keys by (auto simp: update_where_def)
  ultimately show ?thesis using ws by (simp add: ClaimSignals_def claimable_def Let_def)
qed

section \<open>The life of a signal\<close>

inductive inbox_step :: "signal_inbox \<Rightarrow> signal_inbox \<Rightarrow> bool" where
  ingest: "IngestSignals now src rows ib = Inr ib' \<Longrightarrow> inbox_step ib ib'"
| claim: "ClaimSignals workspaceID limit maxAttempts ib = Inr (sigs, ib') \<Longrightarrow> inbox_step ib ib'"
| claim_ids: "ClaimSignalIDs workspaceID ids ib = Inr ib' \<Longrightarrow> inbox_step ib ib'"
| ack: "AckSignals now workspaceID ids ib = Inr ib' \<Longrightarrow> inbox_step ib ib'"
| gc: "GCSignals now olderThan dryRun ib = (n, ib') \<Longrightarrow> inbox_step ib ib'"

text \<open>The same event, charged at least as often: what no operation rewrites.\<close>

definition same_event :: "signal_row \<Rightarrow> signal_row \<Rightarrow> bool" where
  "same_event r r' \<longleftrightarrow>
     sg_attempts r \<le> sg_attempts r'
     \<and> r'\<lparr>sg_attempts := sg_attempts r, sg_acked_at := sg_acked_at r\<rparr> = r"

lemma same_event_refl [simp]: "same_event r r"
  by (simp add: same_event_def)

lemma same_event_trans: "same_event a b \<Longrightarrow> same_event b c \<Longrightarrow> same_event a c"
  by (cases a, cases b, cases c) (simp add: same_event_def)

lemma same_event_charge [simp]: "same_event r (charge r)" "same_event r (r\<lparr>sg_acked_at := x\<rparr>)"
  by (simp_all add: same_event_def charge_def)

lemma update_where_same:
  assumes "\<And>r. same_event r (f r)" "r \<in> set rows"
  shows "\<exists>r' \<in> set (update_where P f rows). same_event r r'"
proof (rule bexI)
  show "(if P r then f r else r) \<in> set (update_where P f rows)" using assms(2) by (auto simp: update_where_def)
  show "same_event r (if P r then f r else r)" using assms(1) by simp
qed

lemma claim_keys_same:
  "claim_keys ks table = Inr (sigs, table') \<Longrightarrow> r \<in> set table \<Longrightarrow> \<exists>r' \<in> set table'. same_event r r'"
proof (induction ks arbitrary: table sigs r)
  case (Cons k ks)
  let ?t1 = "update_where (\<lambda>r. key_of r = k) charge table"
  obtain sigs1 where k: "claim_keys ks ?t1 = Inr (sigs1, table')"
    using Cons.prems(1) by (auto simp: Let_def split: option.splits)
  obtain r1 where "r1 \<in> set ?t1" "same_event r r1"
    using update_where_same [of charge, OF _ Cons.prems(2)] by auto
  then show ?case using Cons.IH [OF k] same_event_trans by blast
qed (auto intro: same_event_refl)

lemma ingest_table:
  assumes ing: "IngestSignals now src rows ib = Inr ib'"
  shows "ib' = ib \<or> (\<exists>m. ingest_rows now src rows None (in_signals ib) = Inr (m, in_signals ib'))"
proof (cases "rows = []")
  case True
  then show ?thesis using ing by (cases src) (auto simp: IngestSignals_def)
next
  case False
  obtain w sv c where src: "src = (w, sv, c)" by (cases src)
  obtain m table where p: "ingest_rows now src rows None (in_signals ib) = Inr (m, table)"
    using ing False by (cases "ingest_rows now src rows None (in_signals ib)") (auto simp: src IngestSignals_def)
  have "in_signals ib' = table"
    using ing False p
    by (cases m; cases "GetSignalCursor src ib = []"; cases "parseSignalTime (GetSignalCursor src ib)")
       (auto simp: src IngestSignals_def Let_def setSignalCursor_def)
  then show ?thesis using p by blast
qed

lemma ingest_keeps:
  assumes "IngestSignals now src rows ib = Inr ib'" "r \<in> set (in_signals ib)"
  shows "r \<in> set (in_signals ib')"
  using ingest_table [OF assms(1)] assms(2) fold_insert [of "batch now src rows" "in_signals ib"]
  by (auto simp: ingest_rows_eq)

lemma step_keeps_pending:
  assumes "inbox_step ib ib'" "r \<in> set (in_signals ib)" "pending MaxSignalAttempts r"
  shows "\<exists>r' \<in> set (in_signals ib'). same_event r r'"
  using assms
proof cases
  case (ingest now src rows)
  then show ?thesis using ingest_keeps [OF _ assms(2)] same_event_refl by blast
next
  case (claim workspaceID limit maxAttempts sigs)
  then show ?thesis using claim_keys_same assms(2) by (fastforce simp: ClaimSignals_def Let_def)
next
  case (claim_ids workspaceID ids)
  then show ?thesis
    using update_where_same [of charge, OF _ assms(2)] assms(2)
    by (auto simp: ClaimSignalIDs_def intro: bexI [of _ r] split: if_splits)
next
  case (ack now workspaceID ids)
  then show ?thesis
    using update_where_same [of "\<lambda>r. r\<lparr>sg_acked_at := Some (formatSignalTime now)\<rparr>", OF _ assms(2)] assms(2)
    by (auto simp: AckSignals_def intro: bexI [of _ r] split: if_splits)
next
  case (gc now olderThan dryRun n)
  then show ?thesis using assms(2,3)
    by (auto simp: GCSignals_def Let_def signal_collectable_def pending_def intro: bexI [of _ r] split: if_splits)
qed

lemma ids_in:
  "sg_id ` {r \<in> set rows. sg_workspace_id r = w} =
    snd ` {p \<in> set (map (\<lambda>r. (sg_workspace_id r, sg_id r)) rows). fst p = w}"
proof -
  have "{p \<in> set (map (\<lambda>r. (sg_workspace_id r, sg_id r)) rows). fst p = w} =
      (\<lambda>r. (sg_workspace_id r, sg_id r)) ` {r \<in> set rows. sg_workspace_id r = w}" by auto
  then show ?thesis by (simp only: image_image snd_conv)
qed

section \<open>A concrete inbox\<close>

lemma epoch_year: "four_digit_year 0" "four_digit_year 1000000000"
proof -
  have "year_of 719528 = 1970" by (rule year_of_eqI) (simp_all add: year_start_def leaps_def)
  then show "four_digit_year 0" "four_digit_year 1000000000"
    by (simp_all add: four_digit_year_def ns_per_day_def epoch_day_def)
qed

definition sample_source :: source_key where
  "sample_source = (''w'', ''jira'', ''atlassian/jira'')"

definition sample_signal :: "string \<Rightarrow> time \<Rightarrow> int \<Rightarrow> signal_row" where
  "sample_signal i t n = \<lparr>sg_workspace_id = ''w'', sg_service = ''jira'', sg_connector = ''atlassian/jira'',
     sg_id = i, sg_occurred_at = formatSignalTime t, sg_identity = ''x'', sg_url = [], sg_author = [],
     sg_title = [], sg_received_at = formatSignalTime t, sg_attempts = n, sg_acked_at = None\<rparr>"

definition sample_inbox :: signal_inbox where
  "sample_inbox = \<lparr>in_signals = [sample_signal ''e2'' 1000000000 0, sample_signal ''e1'' 0 0],
     in_cursors = [(sample_source, (formatSignalTime 1000000000, formatSignalTime 0))]\<rparr>"

definition sample_row :: signal_ingest_row where
  "sample_row = \<lparr>ir_id = ''e3'', ir_occurred_at = ''1970-01-01T09:00:00+09:00'', ir_identity = ''y'',
     ir_url = [], ir_author = [], ir_title = []\<rparr>"

lemma sample_inbox_ok: "inbox_ok sample_inbox"
  by (simp add: inbox_ok_def sample_inbox_def sample_signal_def signal_ok_def key_of_def canonical_format epoch_year)

lemma sample_row_time: "parseSignalTime (ir_occurred_at sample_row) = Some 0"
  by (simp add: sample_row_def parseSignalTime_def parse_rfc3339_def year4_def digit_val_def fraction_def zone_def
      days_in_def days_of_def month_lens_def is_leap_def year_start_def leaps_def epoch_day_def ns_per_day_def
      is_digit_def)

lemma sample_row_accepted: "row_accepted sample_row"
proof -
  have "ValidateContentSize (encoded_size sample_row)" by code_simp
  then show ?thesis using sample_row_time by (simp add: row_accepted_def) (simp add: sample_row_def)
qed

lemma sample_in_range: "in_range 0 [sample_row]"
  by (simp add: in_range_def sample_row_time epoch_year)

lemma sample_ingest: "\<exists>ib'. IngestSignals 0 sample_source [sample_row] sample_inbox = Inr ib'"
  by (subst ingest_Inr) (simp_all add: sample_inbox_ok sample_row_accepted, simp add: sample_source_def)

lemma sample_pending: "r \<in> set (in_signals sample_inbox) \<Longrightarrow> pending MaxSignalAttempts r"
  by (auto simp: sample_inbox_def sample_signal_def pending_def MaxSignalAttempts_def)

section \<open>Properties\<close>

text \<open>
  C20. A signal is never lost while it waits. Along any run of ingests, claims, acknowledgements and garbage
  collections, a signal that is pending at one point of the run is at every later point still in the inbox with
  its content, unless it was acknowledged or out of attempts at a point of that run in between.
\<close>

theorem pending_never_lost:
  assumes "successively inbox_step ibs" and "i \<le> j" and "j < length ibs"
    and "r \<in> set (in_signals (ibs ! i))" and "pending MaxSignalAttempts r"
  shows "(\<exists>r' \<in> set (in_signals (ibs ! j)). same_event r r')
    \<or> (\<exists>k r'. i \<le> k \<and> k < j \<and> r' \<in> set (in_signals (ibs ! k)) \<and> same_event r r' \<and> \<not> pending MaxSignalAttempts r')"
  using assms(2,3)
proof (induction j rule: dec_induct)
  case base
  then show ?case using assms(4) same_event_refl by blast
next
  case (step n)
  have st: "inbox_step (ibs ! n) (ibs ! Suc n)" using assms(1) step.prems by (simp add: successively_conv_nth)
  from step consider r' where "r' \<in> set (in_signals (ibs ! n))" "same_event r r'"
    | k r' where "i \<le> k" "k < n" "r' \<in> set (in_signals (ibs ! k))" "same_event r r'" "\<not> pending MaxSignalAttempts r'"
    by force
  then show ?case
  proof cases
    case (1 r')
    show ?thesis
    proof (cases "pending MaxSignalAttempts r'")
      case True
      then show ?thesis using step_keeps_pending [OF st 1(1)] same_event_trans [OF 1(2)] by blast
    next
      case False
      then show ?thesis using 1 step.hyps by blast
    qed
  qed (use less_SucI in blast)
qed

text \<open>A batch comes in, and the garbage collection that follows removes nothing that waits.\<close>

theorem pending_never_lost_witness:
  "\<exists>ib'. IngestSignals 0 sample_source [sample_row] sample_inbox = Inr ib'
     \<and> (\<exists>r' \<in> set (in_signals (snd (GCSignals 0 0 False ib'))). same_event (sample_signal ''e1'' 0 0) r')"
proof -
  let ?r = "sample_signal ''e1'' 0 0"
  obtain ib' where i: "IngestSignals 0 sample_source [sample_row] sample_inbox = Inr ib'" using sample_ingest by blast
  let ?ibs = "[sample_inbox, ib', snd (GCSignals 0 0 False ib')]"
  have run: "successively inbox_step ?ibs"
    using inbox_step.ingest [OF i] inbox_step.gc [of 0 0 False ib' _ "snd (GCSignals 0 0 False ib')"] by (simp add: prod_eq_iff)
  have r: "?r \<in> set (in_signals sample_inbox)" by (simp add: sample_inbox_def)
  have kept: "?r \<in> set (in_signals ib')" by (rule ingest_keeps [OF i r])
  have ok: "inbox_ok ib'" by (rule inbox_ok_ingest [OF sample_inbox_ok sample_in_range i])
  have "pending MaxSignalAttempts r'" if "k < 2" "r' \<in> set (in_signals (?ibs ! k))" "same_event ?r r'" for k r'
  proof -
    have same: "r' = ?r" if "?r \<in> set (in_signals ib)" "r' \<in> set (in_signals ib)" "inbox_ok ib" for ib
    proof -
      have "key_of r' = key_of ?r" using \<open>same_event ?r r'\<close> by (cases r') (simp add: same_event_def key_of_def sample_signal_def)
      then show ?thesis using that by (auto simp: inbox_ok_def distinct_map inj_on_def)
    qed
    have "r' \<in> set (in_signals sample_inbox) \<or> r' \<in> set (in_signals ib')" using that by (auto simp: less_2_cases_iff)
    then have "r' = ?r" using same [OF r _ sample_inbox_ok] same [OF kept _ ok] by blast
    then show ?thesis using sample_pending [OF r] by simp
  qed
  then show ?thesis using pending_never_lost [OF run, of 0 2 ?r] i r sample_pending [OF r] by fastforce
qed

text \<open>
  C21. The cursor of a source never moves back: a successful ingest leaves it at the latest of its
  old value and the times in the batch, keeps the tables well formed and touches no other source.
\<close>

theorem ingest_advances_cursor:
  assumes "inbox_ok ib" and "in_range now rows" and "rows \<noteq> []" and "IngestSignals now src rows ib = Inr ib'"
  shows "inbox_ok ib'
    \<and> cursor_time src ib' = Some (Max (row_time ` set rows \<union> set_option (cursor_time src ib)))
    \<and> (\<forall>src'. src' \<noteq> src \<longrightarrow> GetSignalCursor src' ib' = GetSignalCursor src' ib)"
proof -
  have "cursor_time src ib' = Some (Max (row_time ` set rows \<union> set_option (cursor_time src ib)))"
    using cursor_after_ingest [OF assms(1,2,4,3)] assms(3)
    by (cases "cursor_time src ib") (simp_all add: max.commute)
  moreover have "GetSignalCursor src' ib' = GetSignalCursor src' ib" if "src' \<noteq> src" for src'
    using assms(4) [unfolded ingest_Inr [OF assms(1,3)]] that by (auto simp: Let_def GetSignalCursor_set)
  ultimately show ?thesis using inbox_ok_ingest [OF assms(1,2,4)] by blast
qed

theorem ingest_advances_cursor_witness:
  "\<exists>ib'. IngestSignals 0 sample_source [sample_row] sample_inbox = Inr ib'
     \<and> cursor_time sample_source ib' = Some 1000000000"
proof -
  obtain ib' where i: "IngestSignals 0 sample_source [sample_row] sample_inbox = Inr ib'" using sample_ingest by blast
  have t: "row_time sample_row = 0" using sample_row_time by (simp add: row_time_def stamp_def)
  have "cursor_time sample_source sample_inbox = Some 1000000000"
    using canonical_nonempty [OF canonical_format [OF epoch_year(2)]]
    by (simp add: cursor_time_def GetSignalCursor_def sample_inbox_def parse_formatSignalTime epoch_year)
  then show ?thesis
    using ingest_advances_cursor [OF sample_inbox_ok sample_in_range _ i] i t by simp
qed

text \<open>
  C22. A connector may resend: after a successful ingest the same batch, sent again at any later
  time, succeeds and changes nothing, neither rows nor attempts nor cursor. The first ingest only
  appended rows, each with a key that was not there.
\<close>

theorem ingest_is_idempotent:
  assumes "inbox_ok ib" and "in_range now rows" and "IngestSignals now src rows ib = Inr ib'"
  shows "IngestSignals later src rows ib' = Inr ib'
    \<and> (\<exists>new. in_signals ib' = in_signals ib @ new \<and> distinct (map key_of (in_signals ib @ new)))"
proof (cases "rows = []")
  case True
  then show ?thesis using assms(1,3) by (cases src) (auto simp: IngestSignals_def inbox_ok_def)
next
  case False
  let ?t = "Max (row_time ` set rows)"
  note e = assms(3) [unfolded ingest_Inr [OF assms(1) False]]
  have args: "fst src \<noteq> [] \<and> snd (snd src) \<noteq> [] \<and> (\<forall>row \<in> set rows. row_accepted row)" using e by blast
  have ok': "inbox_ok ib'" by (rule inbox_ok_ingest [OF assms])
  have tab: "in_signals ib' = fold insert_or_ignore (batch now src rows) (in_signals ib)"
    using e by (auto simp: Let_def setSignalCursor_def)
  obtain new where new: "in_signals ib' = in_signals ib @ new" "distinct (map key_of (in_signals ib @ new))"
    "key_of ` set (in_signals ib') = key_of ` set (in_signals ib) \<union> key_of ` set (batch now src rows)"
    using fold_insert [of "batch now src rows" "in_signals ib"] assms(1) unfolding tab inbox_ok_def by auto
  have "key_of ` set (batch later src rows) \<subseteq> key_of ` set (in_signals ib')"
    unfolding new(3) keys_of_batch by blast
  then have again: "fold insert_or_ignore (batch later src rows) (in_signals ib') = in_signals ib'"
    by (rule fold_insert_absorb)
  have "cursor_time src ib' \<noteq> None" "\<not> ?t > the (cursor_time src ib')"
    using cursor_after_ingest [OF assms(1-3) False] by (auto split: option.splits)
  then have "IngestSignals later src rows ib' = Inr ib'"
    unfolding ingest_Inr [OF ok' False] again using args by (auto simp: Let_def)
  then show ?thesis using new(1,2) by blast
qed

theorem ingest_is_idempotent_witness:
  "\<exists>ib'. IngestSignals 0 sample_source [sample_row] sample_inbox = Inr ib'
     \<and> IngestSignals 77 sample_source [sample_row] ib' = Inr ib'"
proof -
  obtain ib' where i: "IngestSignals 0 sample_source [sample_row] sample_inbox = Inr ib'" using sample_ingest by blast
  then show ?thesis using ingest_is_idempotent [OF sample_inbox_ok sample_in_range i, of 77] by blast
qed

text \<open>
  A list is chronological and complete up to its limit: on a well-formed inbox \<open>ListSignals\<close>
  succeeds for every known state, returns at most a thousand signals ordered by time and id, all of
  them matching the filter, and every matching signal when there are fewer than the limit.
\<close>

theorem list_is_chronological:
  assumes "inbox_ok ib" and "sf_workspace_id f \<noteq> []"
    and "signalStateCondition (sf_state f) (resolveMaxAttempts (sf_max_attempts f)) = Inr cond"
  shows "\<exists>sigs. ListSignals f ib = Inr sigs
    \<and> sorted (map (\<lambda>s. (si_occurred_at s, si_id s)) sigs) \<and> int (length sigs) \<le> 1000
    \<and> (let M = scanned ` {r \<in> set (in_signals ib). sg_workspace_id r = sf_workspace_id f \<and> cond r
            \<and> (sf_service f \<noteq> [] \<longrightarrow> sg_service r = sf_service f)
            \<and> (sf_connector f \<noteq> [] \<longrightarrow> sg_connector r = sf_connector f)}
       in set sigs \<subseteq> M
          \<and> (int (length sigs) < ClampSignalListLimit (sf_limit f) \<longrightarrow> set sigs = M))"
proof -
  let ?P = "\<lambda>r. sg_workspace_id r = sf_workspace_id f \<and> cond r
      \<and> (sf_service f \<noteq> [] \<longrightarrow> sg_service r = sf_service f)
      \<and> (sf_connector f \<noteq> [] \<longrightarrow> sg_connector r = sf_connector f)"
  let ?n = "nat (ClampSignalListLimit (sf_limit f))"
  let ?L = "select_order signal_order ?P (in_signals ib)"
  have ok: "\<forall>r \<in> set (take ?n ?L). signal_ok r"
    using assms(1) by (auto simp: inbox_ok_def dest!: in_set_takeD)
  have list: "ListSignals f ib = Inr (map scanned (take ?n ?L))"
    using scanSignals_ok [OF ok] assms(2,3) by (simp add: ListSignals_def)
  have "sorted (map signal_order (take ?n ?L))"
    using sorted_select_order [of signal_order ?P "in_signals ib"] by (simp add: take_map [symmetric] sorted_wrt_take)
  then have "sorted (map (\<lambda>s. (si_occurred_at s, si_id s)) (map scanned (take ?n ?L)))"
    using ok unfolding sorted_map sorted_wrt_map
    by (elim sorted_wrt_mono_rel [rotated])
       (auto simp: signal_order_def scanned_def signal_ok_def less_eq_prod_def canonical_le canonical_less)
  moreover have "int (length (take ?n ?L)) \<le> 1000"
    by (auto simp: ClampSignalListLimit_def DefaultSignalListLimit_def MaxSignalListLimit_def)
  moreover have "set (take ?n ?L) \<subseteq> {r \<in> set (in_signals ib). ?P r}" by (auto dest!: in_set_takeD)
  moreover have "set (take ?n ?L) = {r \<in> set (in_signals ib). ?P r}"
    if "int (length (take ?n ?L)) < ClampSignalListLimit (sf_limit f)"
  proof -
    have "length ?L \<le> ?n" using that by (simp split: if_splits)
    then show ?thesis by auto
  qed
  ultimately show ?thesis unfolding list Let_def by (intro exI [of _ "map scanned (take ?n ?L)"]) auto
qed

theorem list_is_chronological_witness:
  "\<exists>sigs. ListSignals \<lparr>sf_workspace_id = ''w'', sf_service = [], sf_connector = [], sf_state = ''all'', sf_limit = 0,
       sf_max_attempts = 0\<rparr> sample_inbox = Inr sigs
     \<and> sorted (map (\<lambda>s. (si_occurred_at s, si_id s)) sigs)"
proof -
  let ?f = "\<lparr>sf_workspace_id = ''w'', sf_service = [], sf_connector = [], sf_state = ''all'', sf_limit = 0,
      sf_max_attempts = 0\<rparr>"
  have "signalStateCondition (sf_state ?f) (resolveMaxAttempts (sf_max_attempts ?f)) = Inr (\<lambda>r. True)"
    by (simp add: signalStateCondition_def)
  from list_is_chronological [OF sample_inbox_ok _ this] show ?thesis by auto
qed

text \<open>The age of a signal: when it occurred, and its id among signals of one instant.\<close>

definition age :: "signal_row \<Rightarrow> time \<times> string" where
  "age r = (stamp (sg_occurred_at r), sg_id r)"

lemma signal_order_age: "signal_ok c \<Longrightarrow> signal_ok r \<Longrightarrow> signal_order c \<le> signal_order r \<longleftrightarrow> age c \<le> age r"
  by (simp add: signal_order_def age_def signal_ok_def less_eq_prod_def canonical_le canonical_less)

lemma claimable_ages:
  assumes "inbox_ok ib"
  shows "sorted (map age (claimable workspaceID limit maxAttempts ib))"
    "\<lbrakk>r \<in> set (in_signals ib) - set (claimable workspaceID limit maxAttempts ib); sg_workspace_id r = workspaceID;
      pending (resolveMaxAttempts maxAttempts) r; c \<in> set (claimable workspaceID limit maxAttempts ib)\<rbrakk> \<Longrightarrow> age c \<le> age r"
proof -
  let ?P = "\<lambda>r. sg_workspace_id r = workspaceID \<and> pending (resolveMaxAttempts maxAttempts) r"
  let ?L = "select_order signal_order ?P (in_signals ib)" and ?n = "nat (ClampSignalListLimit limit)"
  have C: "claimable workspaceID limit maxAttempts ib = take ?n ?L" by (simp add: claimable_def)
  have ok: "signal_ok r" if "r \<in> set ?L" for r using assms that by (simp add: inbox_ok_def)
  have "sorted_wrt (\<lambda>c r. signal_order c \<le> signal_order r) ?L"
    using sorted_select_order [of signal_order ?P "in_signals ib"] by (simp add: sorted_map)
  then have L: "sorted_wrt (\<lambda>c r. age c \<le> age r) ?L"
    by (rule sorted_wrt_mono_rel [rotated]) (use ok signal_order_age in blast)
  then show "sorted (map age (claimable workspaceID limit maxAttempts ib))"
    unfolding C sorted_map by (rule sorted_wrt_take)
  assume r: "r \<in> set (in_signals ib) - set (claimable workspaceID limit maxAttempts ib)" "sg_workspace_id r = workspaceID"
    "pending (resolveMaxAttempts maxAttempts) r" and c: "c \<in> set (claimable workspaceID limit maxAttempts ib)"
  have "r \<in> set (take ?n ?L @ drop ?n ?L)" using r by simp
  then have "r \<in> set (drop ?n ?L)" using r(1) unfolding C set_append by blast
  moreover have "sorted_wrt (\<lambda>c r. age c \<le> age r) (take ?n ?L @ drop ?n ?L)" using L by simp
  ultimately show "age c \<le> age r" using c unfolding C sorted_wrt_append by blast
qed

text \<open>
  C23. A claim charges the oldest pending signals. On a well-formed inbox it always succeeds and takes the limit of
  them, or all when there are fewer: none acknowledged, none out of attempts, the oldest first and none of them
  younger than a pending signal that is left. It adds one attempt to exactly those rows.
\<close>

theorem claim_charges_oldest:
  assumes "inbox_ok ib" and "workspaceID \<noteq> []"
  shows "\<exists>chosen sigs ib'. ClaimSignals workspaceID limit maxAttempts ib = Inr (sigs, ib')
    \<and> inbox_ok ib' \<and> sigs = map (\<lambda>r. scanned (charge r)) chosen
    \<and> ib' = ib\<lparr>in_signals := map (\<lambda>r. if r \<in> set chosen then charge r else r) (in_signals ib)\<rparr>
    \<and> distinct chosen
    \<and> int (length chosen) = min (ClampSignalListLimit limit)
        (int (length (filter (\<lambda>r. sg_workspace_id r = workspaceID \<and> pending (resolveMaxAttempts maxAttempts) r) (in_signals ib))))
    \<and> set chosen \<subseteq> {r \<in> set (in_signals ib). sg_workspace_id r = workspaceID \<and> pending (resolveMaxAttempts maxAttempts) r}
    \<and> sorted (map age chosen)
    \<and> (\<forall>r \<in> set (in_signals ib) - set chosen. \<forall>c \<in> set chosen.
         sg_workspace_id r = workspaceID \<and> pending (resolveMaxAttempts maxAttempts) r \<longrightarrow> age c \<le> age r)"
proof -
  let ?P = "\<lambda>r. sg_workspace_id r = workspaceID \<and> pending (resolveMaxAttempts maxAttempts) r"
  let ?C = "claimable workspaceID limit maxAttempts ib"
  let ?ib' = "ib\<lparr>in_signals := update_where (\<lambda>r. r \<in> set ?C) charge (in_signals ib)\<rparr>"
  have dist: "distinct (in_signals ib)" using assms(1) by (auto simp: inbox_ok_def distinct_map)
  have "map key_of (update_where Q charge rows) = map key_of rows" for Q rows by (simp add: update_where_def)
  then have "inbox_ok ?ib'" using assms(1) by (auto simp: inbox_ok_def elim!: in_update_whereE)
  moreover have "distinct ?C"
    unfolding claimable_def using distinct_map_select_order [of "\<lambda>r. r" "in_signals ib" signal_order ?P] dist
    by (simp add: distinct_take)
  moreover have "int (length ?C) = min (ClampSignalListLimit limit) (int (length (filter ?P (in_signals ib))))"
  proof -
    have "0 < ClampSignalListLimit limit"
      by (simp add: ClampSignalListLimit_def DefaultSignalListLimit_def MaxSignalListLimit_def)
    then show ?thesis by (simp add: claimable_def select_order_def)
  qed
  moreover have "set ?C \<subseteq> {r \<in> set (in_signals ib). ?P r}" by (auto simp: claimable_def dest!: in_set_takeD)
  moreover have "sorted (map age ?C)" by (rule claimable_ages(1) [OF assms(1)])
  moreover have "\<forall>r \<in> set (in_signals ib) - set ?C. \<forall>c \<in> set ?C. ?P r \<longrightarrow> age c \<le> age r"
    using claimable_ages(2) [OF assms(1)] by blast
  ultimately show ?thesis
    using claim_eq [OF assms]
    by (intro exI [of _ ?C] exI [of _ "map (\<lambda>r. scanned (charge r)) ?C"] exI [of _ ?ib'])
       (auto simp: update_where_def)
qed

theorem claim_charges_oldest_witness:
  "\<exists>sig ib'. ClaimSignals ''w'' 1 0 sample_inbox = Inr ([sig], ib') \<and> inbox_ok ib'"
proof -
  obtain chosen sigs ib' where c: "ClaimSignals ''w'' 1 0 sample_inbox = Inr (sigs, ib')" "inbox_ok ib'"
      "sigs = map (\<lambda>r. scanned (charge r)) chosen"
      "int (length chosen) = min (ClampSignalListLimit 1)
        (int (length (filter (\<lambda>r. sg_workspace_id r = ''w'' \<and> pending (resolveMaxAttempts 0) r) (in_signals sample_inbox))))"
    using claim_charges_oldest [OF sample_inbox_ok, of "''w''" 1 0] by blast
  have "length chosen = 1"
    using c(4) by (simp add: ClampSignalListLimit_def MaxSignalListLimit_def resolveMaxAttempts_def MaxSignalAttempts_def
        sample_inbox_def sample_signal_def pending_def)
  then show ?thesis using c(1-3) by (cases chosen) auto
qed

text \<open>
  C24. An acknowledgement applies to all its ids or to none: an id without a signal in the workspace
  makes the call fail with exactly the unknown ids in order; otherwise every signal with one of the
  ids is acknowledged, no other changes, and acknowledging again changes nothing.
\<close>

theorem ack_all_or_nothing:
  assumes "workspaceID \<noteq> []" and "ids \<noteq> []"
  shows "case AckSignals now workspaceID ids ib of
      Inl e \<Rightarrow> (\<exists>u. e = ErrUnknownSignalIDs u \<and> u \<noteq> [] \<and> sorted u \<and> distinct u
         \<and> set u = set ids - sg_id ` {r \<in> set (in_signals ib). sg_workspace_id r = workspaceID})
    | Inr ib' \<Rightarrow>
        set ids \<subseteq> sg_id ` {r \<in> set (in_signals ib). sg_workspace_id r = workspaceID}
        \<and> in_signals ib' = map (\<lambda>r. if sg_workspace_id r = workspaceID \<and> sg_id r \<in> set ids \<and> sg_acked_at r = None
             then r\<lparr>sg_acked_at := Some (formatSignalTime now)\<rparr> else r) (in_signals ib)
        \<and> in_cursors ib' = in_cursors ib \<and> AckSignals later workspaceID ids ib' = Inr ib'"
proof -
  let ?here = "sg_id ` {r \<in> set (in_signals ib). sg_workspace_id r = workspaceID}"
  let ?U = "filter (\<lambda>i. i \<notin> ?here) (dedup_seen [] ids)"
  have req: "requireSignalIDsExist workspaceID ids jb =
      (if ?U = [] then Inr (dedup_seen [] ids) else Inl (ErrUnknownSignalIDs (sort ?U)))"
    if "map (\<lambda>r. (sg_workspace_id r, sg_id r)) (in_signals jb) = map (\<lambda>r. (sg_workspace_id r, sg_id r)) (in_signals ib)" for jb
  proof -
    have "set (map (\<lambda>r. (sg_workspace_id r, sg_id r)) (in_signals jb)) =
        set (map (\<lambda>r. (sg_workspace_id r, sg_id r)) (in_signals ib))"
      using that by simp
    then have "sg_id ` {r \<in> set (in_signals jb). sg_workspace_id r = workspaceID} = ?here"
      unfolding ids_in by simp
    then show ?thesis
      by (simp add: requireSignalIDsExist_def dedupeStringsPreserveOrder_def Let_def)
  qed
  show ?thesis
  proof (cases "?U = []")
    case False
    have "sort xs \<noteq> []" if "xs \<noteq> []" for xs :: "string list" using that by (metis length_0_conv length_sort)
    then have U: "set ?U = set ids - ?here" "sort ?U \<noteq> []" using False by auto
    have "AckSignals now workspaceID ids ib = Inl (ErrUnknownSignalIDs (sort ?U))"
      using assms False req [of ib] by (simp add: AckSignals_def)
    then show ?thesis using U by (simp add: distinct_dedup_seen del: set_filter)
  next
    case True
    then have sub: "set ids \<subseteq> ?here" by (auto simp: filter_empty_conv)
    define f where f: "f r = (if sg_workspace_id r = workspaceID \<and> sg_id r \<in> set ids \<and> sg_acked_at r = None
        then r\<lparr>sg_acked_at := Some (formatSignalTime now)\<rparr> else r)" for r :: signal_row
    let ?P = "\<lambda>r. sg_workspace_id r = workspaceID \<and> sg_acked_at r = None \<and> sg_id r \<in> set ids"
    let ?ib' = "ib\<lparr>in_signals := map f (in_signals ib)\<rparr>"
    have keep: "(\<lambda>r. (sg_workspace_id (f r), sg_id (f r))) = (\<lambda>r. (sg_workspace_id r, sg_id r))"
      by (simp add: f fun_eq_iff)
    have cond: "update_where ?P (\<lambda>r. r\<lparr>sg_acked_at := Some (formatSignalTime now)\<rparr>) rows = map f rows" for rows
      by (auto simp: update_where_def f)
    have none: "update_where ?P g (map f rows) = map f rows" for g rows
      by (auto simp: update_where_def f)
    have ack: "AckSignals now workspaceID ids ib = Inr ?ib'"
      using assms req [of ib] True by (simp add: AckSignals_def cond)
    have "requireSignalIDsExist workspaceID ids ?ib' = Inr (dedup_seen [] ids)"
      using req [of ?ib'] True by (simp add: comp_def keep)
    then have "AckSignals later workspaceID ids ?ib' = Inr ?ib'"
      using assms by (simp add: AckSignals_def none)
    then show ?thesis using ack sub by (simp add: f)
  qed
qed

theorem ack_all_or_nothing_witness:
  "AckSignals 5 ''w'' [''e1'', ''nope''] sample_inbox = Inl (ErrUnknownSignalIDs [''nope''])
   \<and> is_ok (AckSignals 5 ''w'' [''e1''] sample_inbox)"
proof -
  have "{r \<in> set (in_signals sample_inbox). sg_workspace_id r = ''w''} = set (in_signals sample_inbox)"
    by (auto simp: sample_inbox_def sample_signal_def)
  then have here: "sg_id ` {r \<in> set (in_signals sample_inbox). sg_workspace_id r = ''w''} = {''e2'', ''e1''}"
    by (simp add: sample_inbox_def sample_signal_def)
  have single: "u = [x]" if "distinct u" "set u = {x}" for u and x :: string
    using that by (cases u; cases "tl u") auto
  have diff: "set [''e1'', ''nope''] - {''e2'', ''e1''} = {''nope''}" "set [''e1''] - {''e2'', ''e1''} = {}" by auto
  have "AckSignals 5 ''w'' [''e1'', ''nope''] sample_inbox = Inl (ErrUnknownSignalIDs [''nope''])"
    using ack_all_or_nothing [where workspaceID = "''w''" and ids = "[''e1'', ''nope'']" and now = 5 and ib = sample_inbox and later = 6] single
    unfolding here diff by (auto split: sum.splits)
  moreover have "is_ok (AckSignals 5 ''w'' [''e1''] sample_inbox)"
    using ack_all_or_nothing [where workspaceID = "''w''" and ids = "[''e1'']" and now = 5 and ib = sample_inbox and later = 6]
    unfolding here diff by (auto simp: is_ok_def split: sum.splits)
  ultimately show ?thesis by blast
qed

text \<open>
  C25. Stored times can be compared as text: for the years of four digits a time reads back as it was
  written, every written time has the same width, and the order of the texts is the order of the
  times, which is what \<open>ORDER BY occurred_at\<close> and the cut-off of the garbage collection rely on.
\<close>

theorem signal_time_text:
  assumes "four_digit_year t" and "four_digit_year u"
  shows "parseSignalTime (formatSignalTime t) = Some t
    \<and> length (formatSignalTime t) = length (formatSignalTime u)
    \<and> (formatSignalTime t < formatSignalTime u \<longleftrightarrow> t < u)"
proof -
  have "length (format_utc v) = 30" if "four_digit_year v" for v
  proof -
    obtain y m d where c: "civil (v div ns_per_day + epoch_day) = (y, m, d)" by (metis surj_pair)
    have "format_year y = pad 4 y"
      using civil_bounds(1) [OF c] that by (intro format_year_pad) (simp_all add: four_digit_year_def)
    then show ?thesis by (simp add: format_utc_def c Let_def)
  qed
  then show ?thesis
    using assms format_less_iff [OF assms] parse_formatSignalTime [OF assms(1)]
    by (simp add: formatSignalTime_def)
qed

theorem signal_time_text_witness:
  "parseSignalTime (formatSignalTime 0) = Some 0 \<and> formatSignalTime 0 < formatSignalTime 1000000000"
  using signal_time_text [OF epoch_year] by simp

definition late_row :: signal_ingest_row where
  "late_row = \<lparr>ir_id = ''e1'', ir_occurred_at = ''9999-12-31T23:59:59-01:00'', ir_identity = ''x'',
     ir_url = [], ir_author = [], ir_title = []\<rparr>"

lemma broken_cursor_blocks:
  assumes "GetSignalCursor src ib \<noteq> []" "parseSignalTime (GetSignalCursor src ib) = None" "rows \<noteq> []"
  shows "\<not> is_ok (IngestSignals now src rows ib)"
proof -
  obtain w sv c where src: "src = (w, sv, c)" by (cases src)
  have m: "m \<noteq> None" if "ingest_rows now src rows None (in_signals ib) = Inr (m, table)" for m table
    using that assms(3) by (auto simp: ingest_rows_eq max_with_None)
  show ?thesis
    using assms m
    by (cases "ingest_rows now src rows None (in_signals ib)")
       (auto simp: src IngestSignals_def Let_def is_ok_def guard_def and_then_def split: sum.splits option.splits)
qed

lemma parse_five_digit_year:
  assumes "10000 \<le> year_of (t div ns_per_day + epoch_day)" "year_of (t div ns_per_day + epoch_day) < 100000"
  shows "parse_rfc3339 (format_utc t) = None"
proof -
  obtain y m d where c: "civil (t div ns_per_day + epoch_day) = (y, m, d)" by (metis surj_pair)
  have y: "10000 \<le> y" "y < 100000" using civil_bounds(1) [OF c] assms by simp_all
  have "digits_needed (nat y) = 5"
    using y by (simp add: digits_needed.simps nat_less_iff div_less_iff_less_mult)
  then obtain s where s: "format_utc t = pad 5 y @ s"
    using y by (simp add: format_utc_def c Let_def format_year_def)
  have "pad 5 y @ s = pad 4 (y div 10) @ digit (y mod 10) # s" by (simp add: eval_nat_numeral)
  moreover have "digit (y mod 10) \<noteq> CHR ''-''"
    using digit_val_digit [of "y mod 10"] by (auto simp: digit_val_def)
  ultimately show ?thesis using y by (simp add: parse_rfc3339_def s year4_pad)
qed

lemma late_row_small: "ValidateContentSize (encoded_size late_row)"
  by code_simp

lemma late_row_time:
  "parseSignalTime (ir_occurred_at late_row) = Some 253402304399000000000"
  "year_of (253402304399000000000 div ns_per_day + epoch_day) = 10000"
proof -
  show "parseSignalTime (ir_occurred_at late_row) = Some 253402304399000000000"
    by (simp add: late_row_def parseSignalTime_def parse_rfc3339_def year4_def digit_val_def fraction_def zone_def
        days_in_def days_of_def month_lens_def is_leap_def year_start_def leaps_def epoch_day_def ns_per_day_def
        is_digit_def)
  show "year_of (253402304399000000000 div ns_per_day + epoch_day) = 10000"
    by (rule year_of_eqI) (simp_all add: ns_per_day_def epoch_day_def year_start_def leaps_def)
qed

text \<open>
  C26. One event can stop a source: an event stamped in the last hours of the year 9999 at a western
  offset is accepted, its time is written with a year of five digits, and from then on every ingest
  of that source fails because its own cursor no longer parses.
\<close>

theorem late_timestamp_stops_source:
  "\<exists>ib'. IngestSignals 0 sample_source [late_row] \<lparr>in_signals = [], in_cursors = []\<rparr> = Inr ib'
     \<and> (\<forall>now rows. rows \<noteq> [] \<longrightarrow> \<not> is_ok (IngestSignals now sample_source rows ib'))"
proof -
  let ?e = "\<lparr>in_signals = [], in_cursors = []\<rparr> :: signal_inbox"
  let ?ib = "setSignalCursor 0 sample_source (formatSignalTime 253402304399000000000)
      (?e\<lparr>in_signals := fold insert_or_ignore (batch 0 sample_source [late_row]) []\<rparr>)"
  have "row_time late_row = 253402304399000000000" using late_row_time(1) by (simp add: row_time_def stamp_def)
  moreover have "row_accepted late_row" using late_row_time(1) late_row_small by (simp add: row_accepted_def) (simp add: late_row_def)
  ultimately have ing: "IngestSignals 0 sample_source [late_row] ?e = Inr ?ib"
    by (subst ingest_Inr) (simp_all add: inbox_ok_def sample_source_def cursor_time_def GetSignalCursor_def Let_def)
  have cur: "GetSignalCursor sample_source ?ib = formatSignalTime 253402304399000000000"
    by (simp add: GetSignalCursor_set)
  have "formatSignalTime 253402304399000000000 \<noteq> []"
    by (simp add: formatSignalTime_def format_utc_def Let_def split: prod.split)
  moreover have "parseSignalTime (formatSignalTime 253402304399000000000) = None"
    using parse_five_digit_year [of 253402304399000000000] late_row_time(2)
    by (simp only: parseSignalTime_def formatSignalTime_def)
  ultimately show ?thesis using ing cur broken_cursor_blocks by metis
qed

theorem late_timestamp_stops_source_witness:
  "\<exists>ib'. IngestSignals 0 sample_source [late_row] \<lparr>in_signals = [], in_cursors = []\<rparr> = Inr ib'
     \<and> \<not> is_ok (IngestSignals 1 sample_source [sample_row] ib')"
  using late_timestamp_stops_source by (metis not_Cons_self2)

end
