(* ===== verification/Go_Duration.thy ===== *)
theory Go_Duration
  imports Go_Time
begin

text \<open>
  \<open>time.ParseDuration\<close>, which the trigger configuration uses for its periods. The value of the
  fraction of a unit is computed exactly; the package computes it in \<open>float64\<close>, which agrees as
  long as the fraction has no more digits than the unit has nanosecond digits.
\<close>

definition int_limit :: int where
  "int_limit = 9223372036854775808"

text \<open>The digits read so far fit in 63 bits, or the text is refused.\<close>

fun leading_int :: "int \<Rightarrow> string \<Rightarrow> int option" where
  "leading_int acc [] = Some acc"
| "leading_int acc (c # cs) =
     (case digit_val c of
        None \<Rightarrow> Some acc
      | Some d \<Rightarrow> if acc > int_limit div 10 \<or> acc * 10 + d > int_limit then None
                  else leading_int (acc * 10 + d) cs)"

text \<open>Digits of a fraction that no longer fit are read and dropped.\<close>

fun leading_fraction :: "bool \<Rightarrow> int \<Rightarrow> int \<Rightarrow> string \<Rightarrow> int \<times> int" where
  "leading_fraction over acc scale [] = (acc, scale)"
| "leading_fraction over acc scale (c # cs) =
     (case digit_val c of
        None \<Rightarrow> (acc, scale)
      | Some d \<Rightarrow>
          if over \<or> acc > (int_limit - 1) div 10 \<or> acc * 10 + d > int_limit
          then leading_fraction True acc scale cs
          else leading_fraction False (acc * 10 + d) (scale * 10) cs)"

definition unit_of :: "string \<Rightarrow> int option" where
  "unit_of u = map_of
     [(''ns'', 1), (''us'', 1000), ([char_of (194 :: nat), char_of (181 :: nat), CHR ''s''], 1000),
      ([char_of (206 :: nat), char_of (188 :: nat), CHR ''s''], 1000), (''ms'', 1000000),
      (''s'', 1000000000), (''m'', 60000000000), (''h'', 3600000000000)] u"

definition unit_char :: "char \<Rightarrow> bool" where
  "unit_char c \<longleftrightarrow> c \<noteq> CHR ''.'' \<and> \<not> is_digit c"

definition after_digits :: "string \<Rightarrow> string" where
  "after_digits s = dropWhile is_digit s"

definition after_number :: "string \<Rightarrow> string" where
  "after_number s =
     (case after_digits s of
        c # rest \<Rightarrow> if c = CHR ''.'' then after_digits rest else c # rest
      | [] \<Rightarrow> [])"

definition number_fraction :: "string \<Rightarrow> int \<times> int" where
  "number_fraction s =
     (case after_digits s of
        c # rest \<Rightarrow> if c = CHR ''.'' then leading_fraction False 0 1 rest else (0, 1)
      | [] \<Rightarrow> (0, 1))"

definition has_digits :: "string \<Rightarrow> bool" where
  "has_digits s \<longleftrightarrow>
     (case s of
        c # rest \<Rightarrow> is_digit c \<or> c = CHR ''.'' \<and> (case rest of d # _ \<Rightarrow> is_digit d | [] \<Rightarrow> False)
      | [] \<Rightarrow> False)"

lemma length_after_number: "length (after_number s) \<le> length s"
  using length_dropWhile_le [of is_digit s] length_dropWhile_le [of is_digit "tl (after_digits s)"]
  by (auto simp: after_number_def after_digits_def split: list.split)

function duration_terms :: "string \<Rightarrow> int \<Rightarrow> int option" where
  "duration_terms s d =
     (if s = [] then Some d
      else if \<not> has_digits s then None
      else case leading_int 0 s of
        None \<Rightarrow> None
      | Some v \<Rightarrow>
          let rest = after_number s; u = takeWhile unit_char rest; (f, scale) = number_fraction s in
          if u = [] then None
          else case unit_of u of
            None \<Rightarrow> None
          | Some unit \<Rightarrow>
              if v > int_limit div unit then None
              else let w = v * unit + f * unit div scale in
                   if w > int_limit \<or> d + w > int_limit then None
                   else duration_terms (dropWhile unit_char rest) (d + w))"
  by pat_completeness auto

termination
proof (relation "measure (\<lambda>(s, d). length s)")
  fix s and d v rest u x f scale unit w
  assume a: "rest = after_number s" "u = takeWhile unit_char rest" "u \<noteq> []"
  have "length rest = length u + length (dropWhile unit_char rest)"
    unfolding a(2) by (metis length_append takeWhile_dropWhile_id)
  then have "length (dropWhile unit_char rest) < length rest" using a(3) by (simp add: length_greater_0_conv [symmetric] del: length_greater_0_conv)
  then show "((dropWhile unit_char rest, d + w), (s, d)) \<in> measure (\<lambda>(s, d). length s)"
    using length_after_number [of s] a(1) by simp
qed simp

definition ParseDuration :: "string \<Rightarrow> duration option" where
  "ParseDuration s =
     (let neg = (case s of c # _ \<Rightarrow> c = CHR ''-'' | [] \<Rightarrow> False);
          body = (case s of c # rest \<Rightarrow> if c = CHR ''-'' \<or> c = CHR ''+'' then rest else s | [] \<Rightarrow> s)
      in if body = ''0'' then Some 0
         else if body = [] then None
         else case duration_terms body 0 of
           None \<Rightarrow> None
         | Some d \<Rightarrow> if neg then Some (- d) else if d > int_limit - 1 then None else Some d)"

end
