(* ===== verification/Trigger_Runs.thy ===== *)
theory Trigger_Runs
  imports Sql_Table Single_Flight Go_Duration Go_Json
begin

text \<open>
  The ledger of trigger runs: \<open>trigger_run.go\<close>, the configuration check of \<open>trigger_validate.go\<close>
  and \<open>GCTriggerRuns\<close> of \<open>store.go\<close>. A run without \<open>finished_at\<close> is in flight; two partial unique
  indexes allow one in-flight run per project trigger and one per workspace trigger.
\<close>

section \<open>Workspaces and their slugs\<close>

definition DefaultWorkspaceSlug :: string where
  "DefaultWorkspaceSlug = ''default''"

definition slug_char :: "char \<Rightarrow> bool" where
  "slug_char c \<longleftrightarrow>
     (let n = of_char c :: nat in 97 \<le> n \<and> n \<le> 122 \<or> 48 \<le> n \<and> n \<le> 57 \<or> n = 45)"

definition ValidWorkspaceSlug :: "string \<Rightarrow> bool" where
  "ValidWorkspaceSlug s \<longleftrightarrow> s \<noteq> [] \<and> length s \<le> 64 \<and> list_all slug_char s"

section \<open>The configuration of a trigger\<close>

record trigger_connector =
  tc_pack :: string
  tc_connector_name :: string
  tc_service :: string
  tc_config :: "(string \<times> json) list"

record trigger =
  tg_name :: string
  tg_on :: string
  tg_every :: string
  tg_run :: string
  tg_timeout :: string
  tg_connector :: "trigger_connector option"

definition TriggerSweepResolution :: duration where
  "TriggerSweepResolution = 60000000000"

datatype trigger_config_error =
    EmptyName nat | DuplicateName nat string | UnknownOn nat string | EmptyRun nat | EmptyEvery nat
  | BadEvery nat | NonPositiveEvery nat | BadTimeout nat | NonPositiveTimeout nat | BelowResolution nat

fun validate_triggers :: "nat \<Rightarrow> string list \<Rightarrow> trigger list \<Rightarrow> trigger_config_error + unit" where
  "validate_triggers i seen [] = Inr ()"
| "validate_triggers i seen (trig # rest) =
     and_then (guard (tg_name trig \<noteq> []) (EmptyName i)) (\<lambda>_.
     and_then (guard (tg_name trig \<notin> set seen) (DuplicateName i (tg_name trig))) (\<lambda>_.
     and_then (guard (tg_on trig \<in> {[], ''schedule'', ''signals''}) (UnknownOn i (tg_on trig))) (\<lambda>_.
     and_then (guard (tg_run trig \<noteq> []) (EmptyRun i)) (\<lambda>_.
     and_then (guard (tg_every trig \<noteq> []) (EmptyEvery i)) (\<lambda>_.
     case ParseDuration (tg_every trig) of
       None \<Rightarrow> Inl (BadEvery i)
     | Some every \<Rightarrow>
         and_then (guard (every > 0) (NonPositiveEvery i)) (\<lambda>_.
         and_then
           (if tg_timeout trig = [] then Inr ()
            else case ParseDuration (tg_timeout trig) of
              None \<Rightarrow> Inl (BadTimeout i)
            | Some timeout \<Rightarrow> guard (timeout > 0) (NonPositiveTimeout i)) (\<lambda>_.
         and_then (guard (every \<ge> TriggerSweepResolution) (BelowResolution i)) (\<lambda>_.
         validate_triggers (i + 1) (tg_name trig # seen) rest))))))))"

definition ValidateTriggers :: "trigger list \<Rightarrow> trigger_config_error + unit" where
  "ValidateTriggers triggers = validate_triggers 0 [] triggers"

definition TriggerTimeout :: "trigger \<Rightarrow> duration" where
  "TriggerTimeout t =
     (if tg_timeout t = [] then 0
      else case ParseDuration (tg_timeout t) of None \<Rightarrow> 0 | Some d \<Rightarrow> if d \<le> 0 then 0 else d)"

section \<open>The ledger\<close>

text \<open>An empty project id stands for the \<open>NULL\<close> of a run without a repository.\<close>

record trigger_run =
  tr_id :: string
  tr_project_id :: string
  tr_workspace_id :: string
  tr_trigger_name :: string
  tr_job_id :: string
  tr_started_at :: time
  tr_finished_at :: "time option"
  tr_exit_code :: "int option"

record trigger_ledger =
  tl_runs :: "trigger_run list"
  tl_projects :: "string list"
  tl_project_workspaces :: "(string \<times> string) list"
  tl_workspaces :: "string list"

datatype trigger_error =
    ErrTriggerArgument string
  | ErrTriggerRunNotFound
  | ErrTriggerRunInFlight
  | ErrTriggerRunAlreadyFinished
  | ErrTriggerWorkspace string
  | ErrTriggerSql

definition in_flight :: "trigger_run \<Rightarrow> bool" where
  "in_flight r \<longleftrightarrow> tr_finished_at r = None"

text \<open>\<open>idx_trigger_runs_inflight_unique\<close> and \<open>idx_trigger_runs_workspace_inflight\<close>.\<close>

definition project_index :: "trigger_run list \<Rightarrow> bool" where
  "project_index rows \<longleftrightarrow>
     uniq_on (\<lambda>r. (tr_project_id r, tr_trigger_name r)) (\<lambda>r. in_flight r \<and> tr_project_id r \<noteq> []) rows"

definition workspace_index :: "trigger_run list \<Rightarrow> bool" where
  "workspace_index rows \<longleftrightarrow>
     uniq_on (\<lambda>r. (tr_workspace_id r, tr_trigger_name r)) (\<lambda>r. in_flight r \<and> tr_project_id r = []) rows"

definition zero_instant :: time where
  "zero_instant = - 62135596800000000000"

definition ProjectWorkspaceID :: "string \<Rightarrow> trigger_ledger \<Rightarrow> string" where
  "ProjectWorkspaceID projectID db =
     (case map_of (tl_project_workspaces db) projectID of
        None \<Rightarrow> DefaultWorkspaceSlug
      | Some w \<Rightarrow> if w = [] then DefaultWorkspaceSlug else w)"

text \<open>
  The workspace must have a valid slug and a row; the configuration columns of that row are taken to decode.
\<close>

definition workspace_loads :: "string \<Rightarrow> trigger_ledger \<Rightarrow> bool" where
  "workspace_loads slug db \<longleftrightarrow> ValidWorkspaceSlug slug \<and> slug \<in> set (tl_workspaces db)"

definition insert_run :: "trigger_run \<Rightarrow> trigger_ledger \<Rightarrow> trigger_error + trigger_ledger" where
  "insert_run r db =
     (let rows = tl_runs db @ [r] in
      if tr_id r \<in> set (map tr_id (tl_runs db)) \<or> \<not> project_index rows \<or> \<not> workspace_index rows
      then Inl ErrTriggerRunInFlight
      else if tr_workspace_id r = [] \<or> (tr_project_id r \<noteq> [] \<and> tr_project_id r \<notin> set (tl_projects db))
      then Inl ErrTriggerSql
      else Inr (db\<lparr>tl_runs := rows\<rparr>))"

definition defaulted_run :: "string \<Rightarrow> time \<Rightarrow> trigger_ledger \<Rightarrow> trigger_run \<Rightarrow> trigger_run" where
  "defaulted_run uid now db run =
     run\<lparr>tr_id := (if tr_id run = [] then uid else tr_id run),
         tr_started_at := (if tr_started_at run = zero_instant then now else tr_started_at run),
         tr_workspace_id := (if tr_project_id run \<noteq> [] then ProjectWorkspaceID (tr_project_id run) db
                             else tr_workspace_id run)\<rparr>"

definition CreateTriggerRun ::
  "string \<Rightarrow> time \<Rightarrow> trigger_run \<Rightarrow> trigger_ledger \<Rightarrow> trigger_error + (trigger_run \<times> trigger_ledger)" where
  "CreateTriggerRun uid now run db =
     and_then (guard (tr_project_id run \<noteq> [] \<or> tr_workspace_id run \<noteq> [])
       (ErrTriggerArgument ''workspace id must not be empty'')) (\<lambda>_.
     and_then (guard (tr_trigger_name run \<noteq> []) (ErrTriggerArgument ''trigger name must not be empty'')) (\<lambda>_.
     let run1 = defaulted_run uid now db run
     in and_then (guard (tr_project_id run \<noteq> [] \<or> workspace_loads (tr_workspace_id run1) db)
          (ErrTriggerWorkspace (tr_workspace_id run1))) (\<lambda>_.
        and_then (insert_run (run1\<lparr>tr_finished_at := None, tr_exit_code := None\<rparr>) db) (\<lambda>db'.
        Inr (run1, db')))))"

definition SetTriggerRunJobID :: "string \<Rightarrow> string \<Rightarrow> trigger_ledger \<Rightarrow> trigger_error + trigger_ledger" where
  "SetTriggerRunJobID rid jobID db =
     and_then (guard (rid \<noteq> []) (ErrTriggerArgument ''id must not be empty'')) (\<lambda>_.
     and_then (guard (rows_affected (\<lambda>r. tr_id r = rid) (tl_runs db) \<noteq> 0) ErrTriggerRunNotFound) (\<lambda>_.
     Inr (db\<lparr>tl_runs := update_where (\<lambda>r. tr_id r = rid) (\<lambda>r. r\<lparr>tr_job_id := jobID\<rparr>) (tl_runs db)\<rparr>)))"

definition DeleteTriggerRun :: "string \<Rightarrow> trigger_ledger \<Rightarrow> trigger_error + trigger_ledger" where
  "DeleteTriggerRun rid db =
     and_then (guard (rid \<noteq> []) (ErrTriggerArgument ''id must not be empty'')) (\<lambda>_.
     Inr (db\<lparr>tl_runs := delete_where (\<lambda>r. tr_id r = rid) (tl_runs db)\<rparr>))"

definition CompleteTriggerRun ::
  "string \<Rightarrow> time \<Rightarrow> int \<Rightarrow> trigger_ledger \<Rightarrow> trigger_error + trigger_ledger" where
  "CompleteTriggerRun rid finishedAt exitCode db =
     and_then (guard (rid \<noteq> []) (ErrTriggerArgument ''id must not be empty'')) (\<lambda>_.
     let P = (\<lambda>r. tr_id r = rid \<and> in_flight r) in
     and_then (guard (rows_affected P (tl_runs db) \<noteq> 0) ErrTriggerRunAlreadyFinished) (\<lambda>_.
     Inr (db\<lparr>tl_runs := update_where P
       (\<lambda>r. r\<lparr>tr_finished_at := Some finishedAt, tr_exit_code := Some exitCode\<rparr>) (tl_runs db)\<rparr>)))"

definition run_order :: "trigger_run \<Rightarrow> time \<times> string" where
  "run_order r = (tr_started_at r, tr_id r)"

definition ListInFlightTriggerRuns :: "trigger_ledger \<Rightarrow> trigger_run list" where
  "ListInFlightTriggerRuns db = select_order run_order in_flight (tl_runs db)"

text \<open>\<open>ORDER BY started_at DESC, id DESC LIMIT 1\<close> reads the last row of the ascending order.\<close>

definition latest_of :: "(trigger_run \<Rightarrow> bool) \<Rightarrow> trigger_ledger \<Rightarrow> trigger_error + trigger_run" where
  "latest_of P db =
     (let rows = select_order run_order P (tl_runs db) in
      if rows = [] then Inl ErrTriggerRunNotFound else Inr (last rows))"

definition LatestTriggerRun :: "string \<Rightarrow> string \<Rightarrow> trigger_ledger \<Rightarrow> trigger_error + trigger_run" where
  "LatestTriggerRun projectID triggerName db =
     and_then (guard (projectID \<noteq> []) (ErrTriggerArgument ''project id must not be empty'')) (\<lambda>_.
     and_then (guard (triggerName \<noteq> []) (ErrTriggerArgument ''trigger name must not be empty'')) (\<lambda>_.
     latest_of (\<lambda>r. tr_project_id r = projectID \<and> tr_trigger_name r = triggerName) db))"

definition LatestWorkspaceTriggerRun :: "string \<Rightarrow> string \<Rightarrow> trigger_ledger \<Rightarrow> trigger_error + trigger_run" where
  "LatestWorkspaceTriggerRun workspaceID triggerName db =
     and_then (guard (workspaceID \<noteq> [] \<and> triggerName \<noteq> [])
       (ErrTriggerArgument ''latest workspace trigger run requires workspace and trigger'')) (\<lambda>_.
     latest_of (\<lambda>r. tr_project_id r = [] \<and> tr_workspace_id r = workspaceID \<and> tr_trigger_name r = triggerName) db)"

definition run_collectable :: "time \<Rightarrow> duration \<Rightarrow> trigger_run \<Rightarrow> bool" where
  "run_collectable now olderThan r \<longleftrightarrow>
     (case tr_finished_at r of None \<Rightarrow> False | Some t \<Rightarrow> olderThan > 0 \<longrightarrow> t < now - olderThan)"

definition GCTriggerRuns :: "time \<Rightarrow> duration \<Rightarrow> bool \<Rightarrow> trigger_ledger \<Rightarrow> nat \<times> trigger_ledger" where
  "GCTriggerRuns now olderThan dryRun db =
     (let n = length (filter (run_collectable now olderThan) (tl_runs db)) in
      if dryRun then (n, db)
      else (n, db\<lparr>tl_runs := delete_where (run_collectable now olderThan) (tl_runs db)\<rparr>))"

end
