(* ===== verification/Trigger_Slots.thy ===== *)
theory Trigger_Slots
  imports Trigger_Runs
begin

text \<open>
  The ledger of trigger runs as a single-flight ledger: the key of a run (\<open>TriggerKey\<close> and
  \<open>triggerRunKey\<close> of \<open>trigger_loop.go\<close>), the invariant that the two partial unique indexes give, and
  the statements on the ledger as a step relation over which any two callers may interleave.
\<close>

section \<open>Keys\<close>

record trigger_key =
  tk_workspace_id :: string
  tk_project_id :: string
  tk_trigger_name :: string

definition triggerRunKey :: "trigger_run \<Rightarrow> trigger_key" where
  "triggerRunKey run =
     \<lparr>tk_workspace_id = (if tr_project_id run = [] then tr_workspace_id run else []),
      tk_project_id = tr_project_id run, tk_trigger_name = tr_trigger_name run\<rparr>"

definition scopeLabel :: "trigger_key \<Rightarrow> string" where
  "scopeLabel key = (if tk_project_id key \<noteq> [] then tk_project_id key else ''workspace:'' @ tk_workspace_id key)"

definition key_String :: "trigger_key \<Rightarrow> string" where
  "key_String key = scopeLabel key @ ''/'' @ tk_trigger_name key"

lemma triggerRunKey_eq:
  "triggerRunKey r = triggerRunKey r' \<longleftrightarrow>
     tr_project_id r = tr_project_id r' \<and> tr_trigger_name r = tr_trigger_name r'
     \<and> (tr_project_id r = [] \<longrightarrow> tr_workspace_id r = tr_workspace_id r')"
  by (auto simp: triggerRunKey_def)

lemma triggerRunKey_updates [simp]:
  "triggerRunKey (r\<lparr>tr_job_id := j\<rparr>) = triggerRunKey r"
  "triggerRunKey (r\<lparr>tr_finished_at := f\<rparr>) = triggerRunKey r"
  "triggerRunKey (r\<lparr>tr_exit_code := c\<rparr>) = triggerRunKey r"
  by (simp_all add: triggerRunKey_def)

lemma in_flight_simps [simp]:
  "in_flight (r\<lparr>tr_job_id := j\<rparr>) = in_flight r"
  "in_flight (r\<lparr>tr_finished_at := f\<rparr>) = (f = None)"
  "in_flight (r\<lparr>tr_exit_code := c\<rparr>) = in_flight r"
  by (simp_all add: in_flight_def)

text \<open>The two indexes together are one index on the key of a run.\<close>

lemma flight_index:
  assumes "distinct rows"
  shows "project_index rows \<and> workspace_index rows \<longleftrightarrow> uniq_on triggerRunKey in_flight rows"
proof
  assume a: "project_index rows \<and> workspace_index rows"
  show "uniq_on triggerRunKey in_flight rows"
    unfolding uniq_on_iff [OF assms]
  proof (intro ballI impI)
    fix r r' assume r: "r \<in> set rows" "r' \<in> set rows" "in_flight r" "in_flight r'" "triggerRunKey r = triggerRunKey r'"
    show "r = r'"
      using uniq_onD [OF a [THEN conjunct1, unfolded project_index_def] assms r(1,2)]
        uniq_onD [OF a [THEN conjunct2, unfolded workspace_index_def] assms r(1,2)] r(3-5)
      by (auto simp: triggerRunKey_eq)
  qed
next
  assume "uniq_on triggerRunKey in_flight rows"
  then show "project_index rows \<and> workspace_index rows"
    unfolding project_index_def workspace_index_def uniq_on_iff [OF assms] triggerRunKey_eq by simp
qed

section \<open>Invariant\<close>

definition trigger_inv :: "trigger_ledger \<Rightarrow> bool" where
  "trigger_inv db \<longleftrightarrow>
     distinct (map tr_id (tl_runs db)) \<and> [] \<notin> set (map tr_id (tl_runs db))
     \<and> project_index (tl_runs db) \<and> workspace_index (tl_runs db)"

definition run_pairs :: "trigger_ledger \<Rightarrow> (trigger_key \<times> string) set" where
  "run_pairs db = (\<lambda>r. (triggerRunKey r, tr_id r)) ` {r \<in> set (tl_runs db). in_flight r}"

definition run_holder :: "trigger_ledger \<Rightarrow> trigger_key \<Rightarrow> string option" where
  "run_holder db k = map_option tr_id (find (\<lambda>r. in_flight r \<and> triggerRunKey r = k) (tl_runs db))"

lemma trigger_inv_iff:
  "trigger_inv db \<longleftrightarrow>
     distinct (map tr_id (tl_runs db)) \<and> [] \<notin> set (map tr_id (tl_runs db))
     \<and> uniq_on triggerRunKey in_flight (tl_runs db)"
  unfolding trigger_inv_def using flight_index [of "tl_runs db"] by (auto simp: distinct_map)

lemma run_by_id:
  "trigger_inv db \<Longrightarrow> r \<in> set (tl_runs db) \<Longrightarrow> r' \<in> set (tl_runs db) \<Longrightarrow> tr_id r = tr_id r' \<Longrightarrow> r = r'"
  by (auto simp: trigger_inv_def distinct_map inj_on_def)

lemma run_by_key:
  "trigger_inv db \<Longrightarrow> r \<in> set (tl_runs db) \<Longrightarrow> r' \<in> set (tl_runs db) \<Longrightarrow> in_flight r \<Longrightarrow> in_flight r' \<Longrightarrow>
   triggerRunKey r = triggerRunKey r' \<Longrightarrow> r = r'"
  unfolding trigger_inv_iff by (auto intro: uniq_onD simp: distinct_map)

lemma run_holder_iff:
  assumes "trigger_inv db"
  shows "run_holder db k = Some h \<longleftrightarrow> (k, h) \<in> run_pairs db"
proof
  show "(k, h) \<in> run_pairs db" if "run_holder db k = Some h"
    using that by (auto simp: run_holder_def run_pairs_def dest!: find_SomeD)
  assume "(k, h) \<in> run_pairs db"
  then obtain r where r: "r \<in> set (tl_runs db)" "in_flight r" "triggerRunKey r = k" "tr_id r = h"
    by (auto simp: run_pairs_def)
  then obtain r' where r': "find (\<lambda>r. in_flight r \<and> triggerRunKey r = k) (tl_runs db) = Some r'"
    using find_is_Some [of r "tl_runs db" "\<lambda>r. in_flight r \<and> triggerRunKey r = k"] by auto
  with find_SomeD [OF r'] r run_by_key [OF assms, of r r'] show "run_holder db k = Some h"
    by (auto simp: run_holder_def)
qed

section \<open>Statements and the invariant\<close>

lemma CreateTriggerRun_Inr:
  assumes "CreateTriggerRun uid now run db = Inr (row, db')"
  shows "db' = db\<lparr>tl_runs := tl_runs db @ [row\<lparr>tr_finished_at := None, tr_exit_code := None\<rparr>]\<rparr>
    \<and> tr_id row \<notin> set (map tr_id (tl_runs db)) \<and> project_index (tl_runs db') \<and> workspace_index (tl_runs db')
    \<and> row = defaulted_run uid now db run"
  using assms unfolding CreateTriggerRun_def insert_run_def Let_def by (auto split: if_splits)

definition close_row :: "time \<Rightarrow> int \<Rightarrow> trigger_run \<Rightarrow> trigger_run" where
  "close_row finishedAt exitCode r = r\<lparr>tr_finished_at := Some finishedAt, tr_exit_code := Some exitCode\<rparr>"

lemma close_row_simps [simp]:
  "tr_id (close_row t c r) = tr_id r" "\<not> in_flight (close_row t c r)"
  "triggerRunKey (close_row t c r) = triggerRunKey r"
  by (simp_all add: close_row_def)

lemma CompleteTriggerRun_Inr:
  "CompleteTriggerRun rid t c db = Inr db' \<longleftrightarrow>
     rid \<noteq> [] \<and> (\<exists>r \<in> set (tl_runs db). tr_id r = rid \<and> in_flight r)
     \<and> db' = db\<lparr>tl_runs := update_where (\<lambda>r. tr_id r = rid \<and> in_flight r) (close_row t c) (tl_runs db)\<rparr>"
  by (auto simp: CompleteTriggerRun_def Let_def rows_affected_pos close_row_def [abs_def])

lemma SetTriggerRunJobID_Inr:
  "SetTriggerRunJobID rid j db = Inr db' \<longleftrightarrow>
     rid \<noteq> [] \<and> (\<exists>r \<in> set (tl_runs db). tr_id r = rid)
     \<and> db' = db\<lparr>tl_runs := update_where (\<lambda>r. tr_id r = rid) (\<lambda>r. r\<lparr>tr_job_id := j\<rparr>) (tl_runs db)\<rparr>"
  by (auto simp: SetTriggerRunJobID_def rows_affected_pos)

lemma DeleteTriggerRun_Inr:
  "DeleteTriggerRun rid db = Inr db' \<longleftrightarrow>
     rid \<noteq> [] \<and> db' = db\<lparr>tl_runs := delete_where (\<lambda>r. tr_id r = rid) (tl_runs db)\<rparr>"
  by (auto simp: DeleteTriggerRun_def)

lemma trigger_inv_create:
  assumes "trigger_inv db" "CreateTriggerRun uid now run db = Inr (row, db')" "tr_id row \<noteq> []"
  shows "trigger_inv db'"
  using assms(1,3) CreateTriggerRun_Inr [OF assms(2)] unfolding trigger_inv_def by auto

lemma trigger_inv_update:
  assumes "trigger_inv db"
    and "\<And>r. tr_id (f r) = tr_id r" "\<And>r. triggerRunKey (f r) = triggerRunKey r" "\<And>r. in_flight (f r) \<Longrightarrow> in_flight r"
  shows "trigger_inv (db\<lparr>tl_runs := update_where P f (tl_runs db)\<rparr>)"
proof -
  have "map tr_id (update_where P f (tl_runs db)) = map tr_id (tl_runs db)"
    using assms(2) by (rule_tac map_update_where) simp
  moreover have "uniq_on triggerRunKey in_flight (update_where P f (tl_runs db))"
    using assms by (intro uniq_on_update_shrink) (auto simp: trigger_inv_iff)
  ultimately show ?thesis using assms(1) unfolding trigger_inv_iff by simp
qed

lemma trigger_inv_delete:
  "trigger_inv db \<Longrightarrow> trigger_inv (db\<lparr>tl_runs := delete_where P (tl_runs db)\<rparr>)"
  unfolding trigger_inv_iff
  using uniq_on_delete [of triggerRunKey in_flight "tl_runs db" P]
  by (simp add: distinct_map_filter delete_where_def image_iff)

section \<open>Interleavings of the statements\<close>

text \<open>
  Each statement is one step, labelled with what it does to the slots. \<open>cascade\<close> is the removal of a
  run with its project, \<open>world\<close> any change to the projects and workspaces.
\<close>

inductive trigger_step :: "trigger_ledger \<Rightarrow> (trigger_key, string) flight_event \<Rightarrow> trigger_ledger \<Rightarrow> bool" where
  create: "CreateTriggerRun uid now run db = Inr (row, db') \<Longrightarrow> tr_id row \<noteq> [] \<Longrightarrow>
    trigger_step db (Acquire (triggerRunKey row) (tr_id row)) db'"
| set_job: "SetTriggerRunJobID rid j db = Inr db' \<Longrightarrow> trigger_step db Other db'"
| complete: "CompleteTriggerRun rid t c db = Inr db' \<Longrightarrow> trigger_step db (Release rid) db'"
| delete_flying: "DeleteTriggerRun rid db = Inr db' \<Longrightarrow> r \<in> set (tl_runs db) \<Longrightarrow> tr_id r = rid \<Longrightarrow> in_flight r \<Longrightarrow>
    trigger_step db (Release rid) db'"
| delete_landed: "DeleteTriggerRun rid db = Inr db' \<Longrightarrow>
    filter (\<lambda>r. tr_id r = rid \<and> in_flight r) (tl_runs db) = [] \<Longrightarrow> trigger_step db Other db'"
| cascade: "r \<in> set (tl_runs db) \<Longrightarrow> tr_project_id r \<noteq> [] \<Longrightarrow>
    db' = db\<lparr>tl_runs := delete_where (\<lambda>x. tr_id x = tr_id r) (tl_runs db)\<rparr> \<Longrightarrow>
    trigger_step db (if in_flight r then Release (tr_id r) else Other) db'"
| gc: "GCTriggerRuns now olderThan dryRun db = (n, db') \<Longrightarrow> trigger_step db Other db'"
| world: "tl_runs db' = tl_runs db \<Longrightarrow> trigger_step db Other db'"

inductive_cases trigger_stepE: "trigger_step db e db'"

lemma trigger_step_inv:
  assumes "trigger_inv db" "trigger_step db e db'"
  shows "trigger_inv db'"
  using assms(2)
proof (cases rule: trigger_step.cases)
  case (create uid now run row)
  then show ?thesis using trigger_inv_create [OF assms(1)] by blast
next
  case (set_job rid j)
  then show ?thesis by (auto simp: SetTriggerRunJobID_Inr intro!: trigger_inv_update [OF assms(1)])
next
  case (complete rid t c)
  then show ?thesis by (auto simp: CompleteTriggerRun_Inr intro!: trigger_inv_update [OF assms(1)])
next
  case (gc now olderThan dryRun n)
  then show ?thesis using assms(1) trigger_inv_delete
    by (auto simp: GCTriggerRuns_def Let_def split: if_splits)
next
  case world
  then show ?thesis using assms(1) by (simp add: trigger_inv_def)
qed (use assms(1) trigger_inv_delete in \<open>auto simp: DeleteTriggerRun_Inr\<close>)

lemma run_pairs_list: "run_pairs db = set (map (\<lambda>r. (triggerRunKey r, tr_id r)) (filter in_flight (tl_runs db)))"
  by (simp add: run_pairs_def)

lemma pairs_update:
  assumes "\<And>r. tr_id (f r) = tr_id r" "\<And>r. triggerRunKey (f r) = triggerRunKey r" "\<And>r. in_flight (f r) = in_flight r"
  shows "run_pairs (db\<lparr>tl_runs := update_where P f (tl_runs db)\<rparr>) = run_pairs db"
proof -
  let ?g = "\<lambda>r. (triggerRunKey r, tr_id r)"
  have "map ?g (filter in_flight (update_where P f rows)) = map ?g (filter in_flight rows)" for rows
    by (induction rows) (auto simp: update_where_def assms)
  then show ?thesis unfolding run_pairs_list by (simp del: set_map)
qed

text \<open>Closing or removing the run \<open>rid\<close> in flight takes its pair away.\<close>

lemma pairs_without:
  assumes inv: "trigger_inv db" and r: "r \<in> set (tl_runs db)" "in_flight r"
    and rows: "{x \<in> set rows. in_flight x} = {x \<in> set (tl_runs db). in_flight x \<and> tr_id x \<noteq> tr_id r}"
  shows "run_pairs (db\<lparr>tl_runs := rows\<rparr>) = run_pairs db - {(triggerRunKey r, tr_id r)}"
    "(triggerRunKey r, tr_id r) \<in> run_pairs db"
  using r run_by_id [OF inv r(1)] by (auto simp: run_pairs_def rows image_iff) metis

lemma flying_update:
  "{x \<in> set (update_where (\<lambda>r. tr_id r = rid \<and> in_flight r) (close_row t c) rows). in_flight x} =
   {x \<in> set rows. in_flight x \<and> tr_id x \<noteq> rid}"
  by (auto simp: set_update_where)

lemma flying_delete:
  "{x \<in> set (delete_where (\<lambda>r. tr_id r = rid) rows). in_flight x} =
   {x \<in> set rows. in_flight x \<and> tr_id x \<noteq> rid}"
  by auto

lemma removed_effect:
  assumes "trigger_inv db" "r \<in> set (tl_runs db)" "in_flight r"
  shows "pair_effect (Release (tr_id r)) (run_pairs db)
    (run_pairs (db\<lparr>tl_runs := delete_where (\<lambda>x. tr_id x = tr_id r) (tl_runs db)\<rparr>))"
  using pairs_without [OF assms flying_delete] unfolding pair_effect_def by auto

lemma trigger_step_effect:
  assumes inv: "trigger_inv db" and step: "trigger_step db e db'"
  shows "pair_effect e (run_pairs db) (run_pairs db')"
  using step
proof (cases rule: trigger_step.cases)
  case (create uid now run row)
  note c = CreateTriggerRun_Inr [OF create(2)]
  let ?r = "row\<lparr>tr_finished_at := None, tr_exit_code := None\<rparr>"
  have "uniq_on triggerRunKey in_flight (tl_runs db @ [?r])"
    using trigger_inv_create [OF inv create(2,3)] c by (simp add: trigger_inv_iff)
  then have "\<forall>h'. (triggerRunKey row, h') \<notin> run_pairs db" by (auto simp: uniq_on_snoc run_pairs_def)
  moreover have "run_pairs db' = insert (triggerRunKey row, tr_id row) (run_pairs db)"
    using c by (simp add: run_pairs_list insert_commute)
  ultimately show ?thesis using create(1) by (simp add: pair_effect_def)
next
  case (set_job rid j)
  then show ?thesis by (simp add: SetTriggerRunJobID_Inr pairs_update pair_effect_def)
next
  case (complete rid t c)
  then obtain r where r: "r \<in> set (tl_runs db)" "in_flight r" "rid = tr_id r" by (auto simp: CompleteTriggerRun_Inr)
  show ?thesis
    using complete pairs_without [OF inv r(1,2) flying_update [of "tr_id r" t c "tl_runs db"]] r(3)
    by (auto simp: CompleteTriggerRun_Inr pair_effect_def)
next
  case (delete_flying rid r)
  then show ?thesis using removed_effect [OF inv delete_flying(3,5)] by (auto simp: DeleteTriggerRun_Inr)
next
  case (delete_landed rid)
  then show ?thesis by (auto simp: DeleteTriggerRun_Inr pair_effect_def run_pairs_def filter_empty_conv)
next
  case (cascade r)
  then show ?thesis
  proof (cases "in_flight r")
    case True
    with cascade removed_effect [OF inv cascade(2)] show ?thesis by simp
  next
    case False
    with run_by_id [OF inv cascade(2)] have "{x \<in> set (tl_runs db). tr_id x \<noteq> tr_id r \<and> in_flight x} =
      {x \<in> set (tl_runs db). in_flight x}" by metis
    with cascade False show ?thesis by (simp add: pair_effect_def run_pairs_def conj_assoc)
  qed
next
  case (gc now olderThan dryRun n)
  then show ?thesis
    by (auto simp: GCTriggerRuns_def Let_def pair_effect_def run_pairs_def run_collectable_def in_flight_def
        split: if_splits)
next
  case world
  then show ?thesis by (simp add: pair_effect_def run_pairs_def)
qed

interpretation trigger_slot: paired_flight trigger_inv run_pairs run_holder trigger_step
  using trigger_step_inv run_holder_iff trigger_step_effect by unfold_locales

end
