(* ===== verification/Trigger_Sweep.thy ===== *)
theory Trigger_Sweep
  imports Trigger_Slots Signal_Inbox "HOL-Library.Signed_Division"
begin

text \<open>
  The trigger loop, \<open>trigger_loop.go\<close>: the reconciliation of runs in flight with their jobs, the
  sweep that fires what is due, the manual run, the ending of rounds that outlive their timeout, and
  the notifications about stuck and failing triggers. What the service reaches through its interface
  fields (the project metadata, the job store, the exec dispatcher, the action application and the
  runtime) is an argument of these definitions; the signal inbox is the one of \<open>Signal_Inbox\<close>.
\<close>

section \<open>Results of a sweep\<close>

record trigger_fire_result =
  tf_key :: trigger_key
  tf_job_id :: string

record trigger_completion =
  tp_key :: trigger_key
  tp_exit_code :: int

record trigger_skip =
  ts_key :: trigger_key
  ts_since :: time
  ts_every :: duration
  ts_timeout :: duration

record trigger_sweep_result =
  sr_fired :: "trigger_fire_result list"
  sr_skipped :: "trigger_skip list"
  sr_completed :: "trigger_completion list"

definition TriggerRunSelfHealGrace :: duration where
  "TriggerRunSelfHealGrace = 180000000000"

definition TriggerRunSelfHealExitCode :: int where
  "TriggerRunSelfHealExitCode = - 1"

definition TriggerDispatchFailureExitCode :: int where
  "TriggerDispatchFailureExitCode = - 2"

definition TriggerTimeoutExitCode :: int where
  "TriggerTimeoutExitCode = - 3"

section \<open>What the service is wired to\<close>

datatype job_status = JobStatusRunning | JobStatusCompleted | JobStatusFailed

record job_state =
  jb_status :: job_status
  jb_exit_code :: int
  jb_runtime_id :: string

record automation_meta =
  am_triggers :: "trigger list"
  am_secret_namespace :: string

text \<open>
  The metadata source: \<open>GetWithWorkspace\<close>, \<open>Get\<close>, the slugs \<open>WorkspaceStore().List()\<close> returns (no
  store, or a failing list) and \<open>GetWorkspaceMeta\<close>, which the source may not provide.
\<close>

record automation_source =
  as_with_workspace :: "string \<Rightarrow> automation_meta option"
  as_get :: "string \<Rightarrow> automation_meta option"
  as_workspace_list :: "(unit + string list) option"
  as_workspace_meta :: "(string \<Rightarrow> automation_meta option) option"

record start_exec_request =
  se_project_id :: string
  se_workspace_id :: string
  se_argv :: "string list"
  se_readonly :: bool
  se_display_name :: string
  se_connector :: "trigger_connector option"

text \<open>
  \<open>None\<close> is a nil interface. \<open>tw_uuid\<close> is the id drawn when a key fires, \<open>tw_exec\<close> what
  \<open>StartExec\<close> answers: the job id, or an error.
\<close>

record trigger_wiring =
  tw_triggers :: bool
  tw_meta :: "automation_source option"
  tw_jobs :: "(string \<Rightarrow> job_state option) option"
  tw_exec :: "(start_exec_request \<Rightarrow> string option) option"
  tw_signals :: "signal_inbox option"
  tw_uuid :: "trigger_key \<Rightarrow> string"

definition hydrateMetaForTriggers :: "trigger_wiring \<Rightarrow> string \<Rightarrow> automation_meta option" where
  "hydrateMetaForTriggers w projectID =
     (case tw_meta w of
        None \<Rightarrow> None
      | Some m \<Rightarrow>
          (case as_with_workspace m projectID of
             Some hydrated \<Rightarrow> Some hydrated
           | None \<Rightarrow> as_get m projectID))"

definition hydrateAutomationMeta :: "trigger_wiring \<Rightarrow> string \<Rightarrow> string \<Rightarrow> automation_meta option" where
  "hydrateAutomationMeta w projectID workspaceID =
     (if projectID \<noteq> [] then hydrateMetaForTriggers w projectID
      else case tw_meta w of
        None \<Rightarrow> None
      | Some m \<Rightarrow> (case as_workspace_meta m of None \<Rightarrow> None | Some get \<Rightarrow> get workspaceID))"

definition jobTerminalState :: "trigger_wiring \<Rightarrow> string \<Rightarrow> unit + (int \<times> bool)" where
  "jobTerminalState w jobID =
     (case tw_jobs w of
        None \<Rightarrow> Inl ()
      | Some getJob \<Rightarrow>
          (case getJob jobID of
             None \<Rightarrow> Inl ()
           | Some job \<Rightarrow>
               if jb_status job = JobStatusRunning then Inr (0, False) else Inr (jb_exit_code job, True)))"

section \<open>Reconciling runs in flight\<close>

text \<open>The list of completions is \<open>None\<close> when the caller passes a nil pointer.\<close>

definition report :: "trigger_completion \<Rightarrow> trigger_completion list option \<Rightarrow> trigger_completion list option" where
  "report c completed = map_option (\<lambda>cs. cs @ [c]) completed"

definition selfHealStaleTriggerRun ::
  "time \<Rightarrow> trigger_run \<Rightarrow> trigger_completion list option \<times> trigger_ledger \<Rightarrow>
     bool \<times> trigger_completion list option \<times> trigger_ledger" where
  "selfHealStaleTriggerRun now run st =
     (case st of (completed, db) \<Rightarrow>
        if now - tr_started_at run < TriggerRunSelfHealGrace then (False, completed, db)
        else case CompleteTriggerRun (tr_id run) now TriggerRunSelfHealExitCode db of
          Inl e \<Rightarrow> (e = ErrTriggerRunAlreadyFinished, completed, db)
        | Inr db' \<Rightarrow>
            (True, report \<lparr>tp_key = triggerRunKey run, tp_exit_code = TriggerRunSelfHealExitCode\<rparr> completed, db'))"

type_synonym flights = "trigger_key \<rightharpoonup> trigger_run"

definition reconcile_one ::
  "trigger_wiring \<Rightarrow> time \<Rightarrow> trigger_run \<Rightarrow> flights \<times> trigger_completion list option \<times> trigger_ledger \<Rightarrow>
     flights \<times> trigger_completion list option \<times> trigger_ledger" where
  "reconcile_one w now run st =
     (case st of (still, completed, db) \<Rightarrow>
        let key = triggerRunKey run;
            heal = (case selfHealStaleTriggerRun now run (completed, db) of (healed, completed', db') \<Rightarrow>
                      if healed then (still, completed', db') else (still(key \<mapsto> run), completed', db'))
        in
        if tr_job_id run = [] then heal
        else case jobTerminalState w (tr_job_id run) of
          Inl _ \<Rightarrow> heal
        | Inr (exitCode, terminal) \<Rightarrow>
            if \<not> terminal then (still(key \<mapsto> run), completed, db)
            else case CompleteTriggerRun (tr_id run) now exitCode db of
              Inl e \<Rightarrow>
                if e = ErrTriggerRunAlreadyFinished then (still, completed, db)
                else (still(key \<mapsto> run), completed, db)
            | Inr db' \<Rightarrow> (still, report \<lparr>tp_key = key, tp_exit_code = exitCode\<rparr> completed, db'))"

definition reconcileInFlight ::
  "trigger_wiring \<Rightarrow> time \<Rightarrow> trigger_completion list option \<Rightarrow> trigger_ledger \<Rightarrow>
     flights \<times> trigger_completion list option \<times> trigger_ledger" where
  "reconcileInFlight w now completed db =
     fold (reconcile_one w now) (ListInFlightTriggerRuns db) (Map.empty, completed, db)"

section \<open>Due and firing\<close>

definition triggerIsDue :: "time \<Rightarrow> trigger_key \<Rightarrow> duration \<Rightarrow> trigger_ledger \<Rightarrow> trigger_error + bool" where
  "triggerIsDue now key every db =
     (case (if tk_project_id key = [] then LatestWorkspaceTriggerRun (tk_workspace_id key) (tk_trigger_name key) db
            else LatestTriggerRun (tk_project_id key) (tk_trigger_name key) db) of
        Inl e \<Rightarrow> if e = ErrTriggerRunNotFound then Inr True else Inl e
      | Inr latest \<Rightarrow> Inr (now - tr_started_at latest \<ge> every))"

definition signalsPendingForTrigger :: "trigger_wiring \<Rightarrow> automation_meta \<Rightarrow> bool" where
  "signalsPendingForTrigger w meta =
     (if am_secret_namespace meta = [] then False
      else case tw_signals w of
        None \<Rightarrow> False
      | Some ib \<Rightarrow>
          (case HasPendingSignals (am_secret_namespace meta) MaxSignalAttempts ib of
             Inl _ \<Rightarrow> False
           | Inr p \<Rightarrow> p))"

definition triggerRunArgv :: "string \<Rightarrow> string list" where
  "triggerRunArgv run = [''sh'', ''-c'', ''exec 0</dev/null; '' @ run]"

datatype fire_error = ExecNotConfigured | CreateFailed trigger_error | StartExecFailed

definition fire_request :: "trigger_key \<Rightarrow> trigger_run \<Rightarrow> trigger \<Rightarrow> start_exec_request" where
  "fire_request key run trig =
     \<lparr>se_project_id = tk_project_id key, se_workspace_id = tr_workspace_id run,
      se_argv = triggerRunArgv (tg_run trig), se_readonly = True,
      se_display_name = ''trigger:'' @ tg_name trig, se_connector = tg_connector trig\<rparr>"

definition fireTrigger ::
  "trigger_wiring \<Rightarrow> time \<Rightarrow> trigger_key \<Rightarrow> trigger \<Rightarrow> trigger_ledger \<Rightarrow> (fire_error + string) \<times> trigger_ledger" where
  "fireTrigger w now key trig db =
     (case tw_exec w of
        None \<Rightarrow> (Inl ExecNotConfigured, db)
      | Some startExec \<Rightarrow>
          (case CreateTriggerRun (tw_uuid w key) now
                  \<lparr>tr_id = [], tr_project_id = tk_project_id key, tr_workspace_id = tk_workspace_id key,
                   tr_trigger_name = tg_name trig, tr_job_id = [], tr_started_at = now,
                   tr_finished_at = None, tr_exit_code = None\<rparr> db of
             Inl e \<Rightarrow> (Inl (CreateFailed e), db)
           | Inr (run, db1) \<Rightarrow>
               (case startExec (fire_request key run trig) of
                  None \<Rightarrow>
                    (Inl StartExecFailed,
                     case DeleteTriggerRun (tr_id run) db1 of Inl _ \<Rightarrow> db1 | Inr db2 \<Rightarrow> db2)
                | Some jobID \<Rightarrow>
                    (Inr jobID,
                     case SetTriggerRunJobID (tr_id run) jobID db1 of Inl _ \<Rightarrow> db1 | Inr db2 \<Rightarrow> db2))))"

section \<open>Waits of jobs on tasks\<close>

text \<open>
  \<open>TaskWaitRegistry\<close>: \<open>None\<close> is the nil registry. The release a registration returns runs once and
  drops the entry only while it still names the task it was made for.
\<close>

type_synonym task_waits = "(string \<rightharpoonup> string) option"

datatype wait_release = NoRelease | WaitRelease string string bool

definition Register :: "string \<Rightarrow> string \<Rightarrow> task_waits \<Rightarrow> wait_release \<times> task_waits" where
  "Register jobID taskID r =
     (case r of
        None \<Rightarrow> (NoRelease, None)
      | Some byJob \<Rightarrow>
          if jobID = [] \<or> taskID = [] then (NoRelease, r)
          else (WaitRelease jobID taskID False, Some (byJob(jobID \<mapsto> taskID))))"

fun release_wait :: "wait_release \<Rightarrow> task_waits \<Rightarrow> wait_release \<times> task_waits" where
  "release_wait (WaitRelease jobID taskID False) (Some byJob) =
     (WaitRelease jobID taskID True, Some (if byJob jobID = Some taskID then byJob(jobID := None) else byJob))"
| "release_wait rel r = (rel, r)"

definition TaskFor :: "string \<Rightarrow> task_waits \<Rightarrow> string option" where
  "TaskFor jobID r = (case r of None \<Rightarrow> None | Some byJob \<Rightarrow> if jobID = [] then None else byJob jobID)"

section \<open>Ending rounds that outlive their timeout\<close>

text \<open>An \<open>ending\<close> is a goroutine that \<open>beginTimeOutTriggerRun\<close> started and that has not finished.\<close>

record ending =
  en_key :: trigger_key
  en_run_id :: string
  en_job_id :: string
  en_started_at :: time
  en_timeout :: duration

record trigger_service =
  sv_ledger :: trigger_ledger
  sv_timing_out :: "string list"
  sv_endings :: "ending list"
  sv_pending_timeouts :: "trigger_completion list"

definition claimTimeout :: "string \<Rightarrow> trigger_service \<Rightarrow> bool \<times> trigger_service" where
  "claimTimeout runID sv =
     (if runID \<in> set (sv_timing_out sv) then (False, sv)
      else (True, sv\<lparr>sv_timing_out := runID # sv_timing_out sv\<rparr>))"

definition releaseTimeout :: "string \<Rightarrow> trigger_service \<Rightarrow> trigger_service" where
  "releaseTimeout runID sv = sv\<lparr>sv_timing_out := removeAll runID (sv_timing_out sv)\<rparr>"

definition stashTimeoutCompletion :: "trigger_completion \<Rightarrow> trigger_service \<Rightarrow> trigger_service" where
  "stashTimeoutCompletion c sv = sv\<lparr>sv_pending_timeouts := sv_pending_timeouts sv @ [c]\<rparr>"

definition drainTimeoutCompletions :: "trigger_service \<Rightarrow> trigger_completion list \<times> trigger_service" where
  "drainTimeoutCompletions sv = (sv_pending_timeouts sv, sv\<lparr>sv_pending_timeouts := []\<rparr>)"

definition beginTimeOutTriggerRun ::
  "trigger_key \<Rightarrow> trigger_run \<Rightarrow> duration \<Rightarrow> trigger_service \<Rightarrow> trigger_service" where
  "beginTimeOutTriggerRun key run timeout sv =
     (case claimTimeout (tr_id run) sv of
        (False, _) \<Rightarrow> sv
      | (True, sv') \<Rightarrow>
          sv'\<lparr>sv_endings := sv_endings sv' @
            [\<lparr>en_key = key, en_run_id = tr_id run, en_job_id = tr_job_id run,
              en_started_at = tr_started_at run, en_timeout = timeout\<rparr>]\<rparr>)"

datatype apply_error = StatusError int | OtherError

definition isPermanentAbortRefusal :: "apply_error \<Rightarrow> bool" where
  "isPermanentAbortRefusal err = (case err of StatusError code \<Rightarrow> code \<ge> 400 \<and> code < 500 | OtherError \<Rightarrow> False)"

text \<open>
  \<open>abort\<close> is the answer of \<open>applyAction\<close> to the abort of a task, \<open>lifecycle\<close> whether a runtime
  controller is wired; the first component of the result lists the runtimes stopped.
\<close>

definition finishTimeOutTriggerRun ::
  "trigger_wiring \<Rightarrow> task_waits \<Rightarrow> (string \<Rightarrow> apply_error option) \<Rightarrow> bool \<Rightarrow> time \<Rightarrow> ending \<Rightarrow> trigger_service \<Rightarrow>
     string list \<times> trigger_service" where
  "finishTimeOutTriggerRun w waits abort lifecycle now e sv =
     (let refused = (case TaskFor (en_job_id e) waits of
                       None \<Rightarrow> False
                     | Some taskID \<Rightarrow>
                         (case abort taskID of None \<Rightarrow> False | Some err \<Rightarrow> \<not> isPermanentAbortRefusal err))
      in if refused then ([], sv)
         else let stopped =
                (if lifecycle \<and> en_job_id e \<noteq> [] then
                   case Option.bind (tw_jobs w) (\<lambda>getJob. getJob (en_job_id e)) of
                     None \<Rightarrow> []
                   | Some job \<Rightarrow> if jb_runtime_id job \<noteq> [] then [jb_runtime_id job] else []
                 else [])
              in case CompleteTriggerRun (en_run_id e) now TriggerTimeoutExitCode (sv_ledger sv) of
                Inl _ \<Rightarrow> (stopped, sv)
              | Inr db \<Rightarrow>
                  (stopped, stashTimeoutCompletion
                     \<lparr>tp_key = en_key e, tp_exit_code = TriggerTimeoutExitCode\<rparr> (sv\<lparr>sv_ledger := db\<rparr>)))"

text \<open>The body of the goroutine: finish, then the deferred release.\<close>

definition run_ending ::
  "trigger_wiring \<Rightarrow> task_waits \<Rightarrow> (string \<Rightarrow> apply_error option) \<Rightarrow> bool \<Rightarrow> time \<Rightarrow> ending \<Rightarrow> trigger_service \<Rightarrow>
     string list \<times> trigger_service" where
  "run_ending w waits abort lifecycle now e sv =
     (case finishTimeOutTriggerRun w waits abort lifecycle now e sv of (stopped, sv') \<Rightarrow>
        (stopped, releaseTimeout (en_run_id e) (sv'\<lparr>sv_endings := remove1 e (sv_endings sv')\<rparr>)))"

section \<open>The sweep\<close>

definition add_skip :: "trigger_skip \<Rightarrow> trigger_sweep_result \<Rightarrow> trigger_sweep_result" where
  "add_skip s r = r\<lparr>sr_skipped := sr_skipped r @ [s]\<rparr>"

definition fire_due ::
  "trigger_wiring \<Rightarrow> time \<Rightarrow> trigger_key \<Rightarrow> trigger \<Rightarrow> duration \<Rightarrow>
     trigger_sweep_result \<times> trigger_service \<Rightarrow> trigger_sweep_result \<times> trigger_service" where
  "fire_due w now key trig every st =
     (case st of (r, sv) \<Rightarrow>
      case fireTrigger w now key trig (sv_ledger sv) of
        (Inl e, db) \<Rightarrow>
          (if e = CreateFailed ErrTriggerRunInFlight
           then add_skip \<lparr>ts_key = key, ts_since = now, ts_every = every, ts_timeout = TriggerTimeout trig\<rparr> r
           else r\<lparr>sr_completed := sr_completed r @
                    [\<lparr>tp_key = key, tp_exit_code = TriggerDispatchFailureExitCode\<rparr>]\<rparr>,
           sv\<lparr>sv_ledger := db\<rparr>)
      | (Inr jobID, db) \<Rightarrow>
          (r\<lparr>sr_fired := sr_fired r @ [\<lparr>tf_key = key, tf_job_id = jobID\<rparr>]\<rparr>, sv\<lparr>sv_ledger := db\<rparr>))"

definition sweep_trigger ::
  "trigger_wiring \<Rightarrow> time \<Rightarrow> flights \<Rightarrow> automation_meta \<Rightarrow> string \<Rightarrow> trigger \<Rightarrow>
     trigger_sweep_result \<times> trigger_service \<Rightarrow> trigger_sweep_result \<times> trigger_service" where
  "sweep_trigger w now inFlight meta slug trig st =
     (case st of (r, sv) \<Rightarrow>
      let key = \<lparr>tk_workspace_id = slug, tk_project_id = [], tk_trigger_name = tg_name trig\<rparr>;
          timeout = TriggerTimeout trig
      in
      case ParseDuration (tg_every trig) of
        None \<Rightarrow> (r, sv)
      | Some every \<Rightarrow>
          let skip = (\<lambda>run. \<lparr>ts_key = key, ts_since = tr_started_at run, ts_every = every, ts_timeout = timeout\<rparr>);
              later =
                (case triggerIsDue now key every (sv_ledger sv) of
                   Inl _ \<Rightarrow> (r, sv)
                 | Inr everyDue \<Rightarrow>
                     if \<not> everyDue then (r, sv)
                     else case inFlight key of
                       Some run \<Rightarrow> (add_skip (skip run) r, sv)
                     | None \<Rightarrow>
                         if tg_on trig = ''signals'' \<and> \<not> signalsPendingForTrigger w meta then (r, sv)
                         else fire_due w now key trig every (r, sv))
          in case inFlight key of
               None \<Rightarrow> later
             | Some run \<Rightarrow>
                 if timeout > 0 \<and> now - tr_started_at run \<ge> timeout
                 then (add_skip (skip run) r, beginTimeOutTriggerRun key run timeout sv)
                 else later)"

definition sweep_scope ::
  "trigger_wiring \<Rightarrow> time \<Rightarrow> flights \<Rightarrow> string \<Rightarrow>
     trigger_sweep_result \<times> trigger_service \<Rightarrow> trigger_sweep_result \<times> trigger_service" where
  "sweep_scope w now inFlight slug st =
     (case hydrateAutomationMeta w [] slug of
        None \<Rightarrow> st
      | Some meta \<Rightarrow> fold (sweep_trigger w now inFlight meta slug) (am_triggers meta) st)"

datatype sweep_error = ErrListWorkspaces

definition SweepTriggers ::
  "trigger_wiring \<Rightarrow> time \<Rightarrow> trigger_service \<Rightarrow> sweep_error option \<times> trigger_sweep_result \<times> trigger_service" where
  "SweepTriggers w now sv =
     (let empty = \<lparr>sr_fired = [], sr_skipped = [], sr_completed = []\<rparr> in
      case tw_meta w of
        None \<Rightarrow> (None, empty, sv)
      | Some m \<Rightarrow>
          if \<not> tw_triggers w \<or> Option.is_none (tw_jobs w) then (None, empty, sv)
          else case reconcileInFlight w now (Some []) (sv_ledger sv) of (inFlight, completed, db) \<Rightarrow>
            let r = empty\<lparr>sr_completed := (case completed of None \<Rightarrow> [] | Some cs \<Rightarrow> cs)\<rparr>;
                sv1 = sv\<lparr>sv_ledger := db\<rparr>
            in case as_workspace_list m of
                 None \<Rightarrow> (None, r, sv1)
               | Some (Inl _) \<Rightarrow> (Some ErrListWorkspaces, r, sv1)
               | Some (Inr slugs) \<Rightarrow>
                   (case drainTimeoutCompletions sv1 of (drained, sv2) \<Rightarrow>
                      (None, fold (sweep_scope w now inFlight) slugs
                               (r\<lparr>sr_completed := sr_completed r @ drained\<rparr>, sv2))))"

section \<open>Manual runs\<close>

text \<open>Errors of these operations are a \<open>StatusError\<close> with an HTTP status code.\<close>

record trigger_run_now_result =
  rn_skipped :: bool
  rn_reason :: string
  rn_job_id :: string

definition lookupTrigger :: "trigger_wiring \<Rightarrow> trigger_key \<Rightarrow> apply_error + trigger" where
  "lookupTrigger w key =
     (case hydrateAutomationMeta w (tk_project_id key) (tk_workspace_id key) of
        None \<Rightarrow> Inl (StatusError 404)
      | Some meta \<Rightarrow>
          (case find (\<lambda>t. tg_name t = tk_trigger_name key) (am_triggers meta) of
             None \<Rightarrow> Inl (StatusError 404)
           | Some trig \<Rightarrow> Inr trig))"

definition run_now_busy :: trigger_run_now_result where
  "run_now_busy =
     \<lparr>rn_skipped = True, rn_reason = ''single-flight: a run for this trigger is already in flight'', rn_job_id = []\<rparr>"

definition runTriggerNow ::
  "trigger_wiring \<Rightarrow> time \<Rightarrow> trigger_key \<Rightarrow> trigger_ledger \<Rightarrow> (apply_error + trigger_run_now_result) \<times> trigger_ledger" where
  "runTriggerNow w now key db =
     (if \<not> tw_triggers w \<or> Option.is_none (tw_exec w) then (Inl (StatusError 500), db)
      else case lookupTrigger w key of
        Inl e \<Rightarrow> (Inl e, db)
      | Inr trig \<Rightarrow>
          (case reconcileInFlight w now None db of (inFlight, _, db1) \<Rightarrow>
             if inFlight key \<noteq> None then (Inr run_now_busy, db1)
             else case fireTrigger w now key trig db1 of
               (Inl e, db2) \<Rightarrow>
                 (if e = CreateFailed ErrTriggerRunInFlight then Inr run_now_busy else Inl (StatusError 500), db2)
             | (Inr jobID, db2) \<Rightarrow> (Inr \<lparr>rn_skipped = False, rn_reason = [], rn_job_id = jobID\<rparr>, db2)))"

definition RunWorkspaceTriggerNow ::
  "trigger_wiring \<Rightarrow> time \<Rightarrow> string \<Rightarrow> string \<Rightarrow> trigger_ledger \<Rightarrow>
     (apply_error + trigger_run_now_result) \<times> trigger_ledger" where
  "RunWorkspaceTriggerNow w now workspaceID triggerName db =
     runTriggerNow w now \<lparr>tk_workspace_id = workspaceID, tk_project_id = [], tk_trigger_name = triggerName\<rparr> db"

text \<open>\<open>projects\<close> is \<open>GetProject\<close>, reduced to the workspace of the project.\<close>

definition RunTriggerNow ::
  "(string \<Rightarrow> string option) option \<Rightarrow> trigger_wiring \<Rightarrow> time \<Rightarrow> string \<Rightarrow> string \<Rightarrow> trigger_ledger \<Rightarrow>
     (apply_error + trigger_run_now_result) \<times> trigger_ledger" where
  "RunTriggerNow projects w now projectID triggerName db =
     (case projects of
        None \<Rightarrow> (Inl (StatusError 404), db)
      | Some getProject \<Rightarrow>
          (case getProject projectID of
             None \<Rightarrow> (Inl (StatusError 404), db)
           | Some workspaceID \<Rightarrow> RunWorkspaceTriggerNow w now workspaceID triggerName db))"

section \<open>The loop and its notifications\<close>

definition TriggerStuckFailStreakThreshold :: int where
  "TriggerStuckFailStreakThreshold = 3"

text \<open>
  \<open>float64(every) * 1.5\<close>: a binary64 has 53 bits, so both the conversion and the product round to the
  nearest number with 53 significant bits, ties to even. The product is counted in halves.
\<close>

fun bit_length :: "nat \<Rightarrow> nat" where
  "bit_length n = (if n = 0 then 0 else Suc (bit_length (n div 2)))"

declare bit_length.simps [simp del]

definition round53 :: "nat \<Rightarrow> nat" where
  "round53 n =
     (let k = bit_length n - 53 in
      if k = 0 then n
      else let q = n div 2 ^ k; rest = n mod 2 ^ k; half = 2 ^ (k - 1)
           in (if rest > half \<or> rest = half \<and> odd q then q + 1 else q) * 2 ^ k)"

definition stuckThreshold :: "duration \<Rightarrow> duration" where
  "stuckThreshold every = sgn every * int (round53 (3 * round53 (nat \<bar>every\<bar>)) div 2)"

record trigger_loop =
  lp_skip_streak :: "trigger_key \<rightharpoonup> int"
  lp_fail_streak :: "trigger_key \<rightharpoonup> int"

datatype notice =
    NoticeTimedOut trigger_key duration int
  | NoticeStuck trigger_key duration int
  | NoticeFailing trigger_key int int

definition streak :: "(trigger_key \<rightharpoonup> int) \<Rightarrow> trigger_key \<Rightarrow> int" where
  "streak m key = (case m key of None \<Rightarrow> 0 | Some n \<Rightarrow> n)"

definition track_skip :: "time \<Rightarrow> trigger_skip \<Rightarrow> notice list \<times> (trigger_key \<rightharpoonup> int) \<Rightarrow> notice list \<times> (trigger_key \<rightharpoonup> int)" where
  "track_skip now skip st =
     (case st of (notices, m) \<Rightarrow>
        if ts_every skip \<le> 0 then st
        else let threshold = (if ts_timeout skip \<le> 0 then stuckThreshold (ts_every skip) else ts_timeout skip);
                 overrun = now - ts_since skip;
                 multiple = overrun sdiv threshold
             in if multiple < 1 \<or> streak m (ts_key skip) \<ge> multiple then st
                else (notices @ [if ts_timeout skip > 0 then NoticeTimedOut (ts_key skip) overrun multiple
                                 else NoticeStuck (ts_key skip) overrun multiple],
                      m(ts_key skip \<mapsto> multiple)))"

definition trackSkipStreak :: "time \<Rightarrow> trigger_skip list \<Rightarrow> trigger_loop \<Rightarrow> notice list \<times> trigger_loop" where
  "trackSkipStreak now skipped lp =
     (case fold (track_skip now) skipped ([], lp_skip_streak lp) of (notices, m) \<Rightarrow>
        (notices, lp\<lparr>lp_skip_streak := (\<lambda>k. if k \<in> set (map ts_key skipped) then m k else None)\<rparr>))"

definition track_fail :: "trigger_completion \<Rightarrow> notice list \<times> (trigger_key \<rightharpoonup> int) \<Rightarrow> notice list \<times> (trigger_key \<rightharpoonup> int)" where
  "track_fail c st =
     (case st of (notices, m) \<Rightarrow>
        if tp_exit_code c = 0 then (notices, m(tp_key c := None))
        else let n = streak m (tp_key c) + 1
             in (if n smod TriggerStuckFailStreakThreshold = 0
                 then notices @ [NoticeFailing (tp_key c) n (tp_exit_code c)] else notices,
                 m(tp_key c \<mapsto> n)))"

definition trackFailStreak :: "trigger_completion list \<Rightarrow> trigger_loop \<Rightarrow> notice list \<times> trigger_loop" where
  "trackFailStreak completed lp =
     (case fold track_fail completed ([], lp_fail_streak lp) of (notices, m) \<Rightarrow>
        (notices, lp\<lparr>lp_fail_streak := m\<rparr>))"

text \<open>One tick: the notices sent, in order. Without a notifier the loop tracks the same streaks and sends none.\<close>

definition runOnce ::
  "bool \<Rightarrow> trigger_wiring \<Rightarrow> time \<Rightarrow> trigger_loop \<times> trigger_service \<Rightarrow> notice list \<times> trigger_loop \<times> trigger_service" where
  "runOnce notifier w now st =
     (case st of (lp, sv) \<Rightarrow>
      case SweepTriggers w now sv of
        (Some _, _, sv') \<Rightarrow> ([], lp, sv')
      | (None, r, sv') \<Rightarrow>
          (case trackSkipStreak now (sr_skipped r) lp of (ns1, lp1) \<Rightarrow>
           case trackFailStreak (sr_completed r) lp1 of (ns2, lp2) \<Rightarrow>
             (if notifier then ns1 @ ns2 else [], lp2, sv')))"

end
