(* ===== verification/Trigger_Facts.thy ===== *)
theory Trigger_Facts
  imports Trigger_Sweep
begin

text \<open>
  Facts about the trigger loop: what the reconciliation does to each run, what a fire leaves behind,
  and that the sweep touches only the keys it works on.
\<close>

section \<open>Reconciliation\<close>

text \<open>
  The outcome that reconciliation records for a run: the exit code of a finished job, the self-heal
  code when no job can be found after the grace period, none otherwise.
\<close>

definition run_verdict :: "trigger_wiring \<Rightarrow> time \<Rightarrow> trigger_run \<Rightarrow> int option" where
  "run_verdict w now r =
     (case (if tr_job_id r = [] then Inl () else jobTerminalState w (tr_job_id r)) of
        Inl _ \<Rightarrow> if now - tr_started_at r < TriggerRunSelfHealGrace then None else Some TriggerRunSelfHealExitCode
      | Inr (exitCode, terminal) \<Rightarrow> if terminal then Some exitCode else None)"

definition settled :: "trigger_wiring \<Rightarrow> time \<Rightarrow> trigger_run \<Rightarrow> trigger_run" where
  "settled w now r = (case run_verdict w now r of None \<Rightarrow> r | Some c \<Rightarrow> close_row now c r)"

definition verdict_reports :: "trigger_wiring \<Rightarrow> time \<Rightarrow> trigger_run \<Rightarrow> trigger_completion list" where
  "verdict_reports w now r =
     (case run_verdict w now r of None \<Rightarrow> [] | Some c \<Rightarrow> [\<lparr>tp_key = triggerRunKey r, tp_exit_code = c\<rparr>])"

lemma complete_flying:
  assumes "trigger_inv db" "r \<in> set (tl_runs db)" "in_flight r"
  shows "CompleteTriggerRun (tr_id r) t c db =
    Inr (db\<lparr>tl_runs := update_where (\<lambda>x. x = r) (close_row t c) (tl_runs db)\<rparr>)"
proof -
  have "tr_id r \<noteq> []" using assms(1,2) by (force simp: trigger_inv_def)
  moreover have "update_where (\<lambda>x. tr_id x = tr_id r \<and> in_flight x) (close_row t c) (tl_runs db) =
      update_where (\<lambda>x. x = r) (close_row t c) (tl_runs db)"
    using assms by (intro update_where_cong) (auto intro: run_by_id)
  ultimately show ?thesis using assms(2,3) unfolding CompleteTriggerRun_Inr by auto
qed

lemma reconcile_one_flying:
  assumes "trigger_inv db" "r \<in> set (tl_runs db)" "in_flight r"
  shows "reconcile_one w now r (still, completed, db) =
    (if run_verdict w now r = None then still(triggerRunKey r \<mapsto> r) else still,
     map_option (\<lambda>cs. cs @ verdict_reports w now r) completed,
     db\<lparr>tl_runs := update_where (\<lambda>x. x = r) (settled w now) (tl_runs db)\<rparr>)"
proof -
  have same: "update_where (\<lambda>x. x = r) (settled w now) (tl_runs db) = tl_runs db" if "run_verdict w now r = None"
    using that by (auto simp: update_where_def settled_def intro!: map_idI)
  have closed: "update_where (\<lambda>x. x = r) (settled w now) (tl_runs db) =
      update_where (\<lambda>x. x = r) (close_row now c) (tl_runs db)" if "run_verdict w now r = Some c" for c
    using that by (auto simp: update_where_def settled_def)
  show ?thesis
    using complete_flying [OF assms] same closed
    by (cases completed)
      (auto simp: reconcile_one_def selfHealStaleTriggerRun_def run_verdict_def verdict_reports_def report_def
        Let_def split: sum.splits)
qed

lemma reconcile_fold:
  assumes "trigger_inv db" "distinct rs" "set rs \<subseteq> {r \<in> set (tl_runs db). in_flight r}"
  shows "fold (reconcile_one w now) rs (still, completed, db) =
    (still ++ map_of (rev (map (\<lambda>r. (triggerRunKey r, r)) (filter (\<lambda>r. run_verdict w now r = None) rs))),
     map_option (\<lambda>cs. cs @ concat (map (verdict_reports w now) rs)) completed,
     db\<lparr>tl_runs := update_where (\<lambda>x. x \<in> set rs) (settled w now) (tl_runs db)\<rparr>)"
  using assms
proof (induction rs arbitrary: still completed db)
  case Nil
  have "update_where (\<lambda>x. False) f rows = rows" for f and rows :: "trigger_run list" by (simp add: update_where_def)
  then show ?case by (cases completed) auto
next
  case (Cons r rs)
  let ?rows = "update_where (\<lambda>x. x = r) (settled w now) (tl_runs db)"
  let ?db = "db\<lparr>tl_runs := ?rows\<rparr>"
  have inv: "trigger_inv ?db"
    using Cons.prems(1) by (rule trigger_inv_update) (auto simp: settled_def split: option.splits)
  have sub: "set rs \<subseteq> {x \<in> set (tl_runs ?db). in_flight x}"
    using Cons.prems(2,3) by (auto simp: set_update_where image_iff)
  have rows: "update_where (\<lambda>x. x \<in> set rs) (settled w now) ?rows =
      update_where (\<lambda>x. x \<in> set (r # rs)) (settled w now) (tl_runs db)"
  proof -
    have "settled w now r \<notin> set rs \<or> settled w now (settled w now r) = settled w now r"
      using Cons.prems(2,3) by (auto simp: settled_def subset_iff split: option.splits)
    then show ?thesis using Cons.prems(2) by (auto simp: update_where_def)
  qed
  have "fold (reconcile_one w now) (r # rs) (still, completed, db) =
      fold (reconcile_one w now) rs
        (if run_verdict w now r = None then still(triggerRunKey r \<mapsto> r) else still,
         map_option (\<lambda>cs. cs @ verdict_reports w now r) completed, ?db)"
    using reconcile_one_flying [OF Cons.prems(1)] Cons.prems(3) by simp
  also have "\<dots> = (still ++ map_of (rev (map (\<lambda>r. (triggerRunKey r, r))
        (filter (\<lambda>r. run_verdict w now r = None) (r # rs)))),
     map_option (\<lambda>cs. cs @ concat (map (verdict_reports w now) (r # rs))) completed,
     db\<lparr>tl_runs := update_where (\<lambda>x. x \<in> set (r # rs)) (settled w now) (tl_runs db)\<rparr>)"
    using Cons.IH [OF inv _ sub] Cons.prems(2) rows
    by (cases completed) (simp_all del: fun_upd_apply add: map_add_def [symmetric])
  finally show ?case .
qed

lemma flights_map:
  assumes "trigger_inv db" "distinct rs" "set rs \<subseteq> {r \<in> set (tl_runs db). in_flight r}"
  shows "map_of (rev (map (\<lambda>r. (triggerRunKey r, r)) rs)) k = Some r \<longleftrightarrow> r \<in> set rs \<and> triggerRunKey r = k"
proof -
  have "inj_on triggerRunKey (set rs)" using assms run_by_key [OF assms(1)] by (auto intro!: inj_onI)
  then have "distinct (map fst (rev (map (\<lambda>r. (triggerRunKey r, r)) rs)))"
    using assms(2) by (simp add: rev_map [symmetric] comp_def distinct_map)
  then show ?thesis by (auto simp: map_of_eq_Some_iff)
qed

lemma listed_flying:
  assumes "trigger_inv db"
  shows "distinct (ListInFlightTriggerRuns db)"
    "set (ListInFlightTriggerRuns db) = {r \<in> set (tl_runs db). in_flight r}"
  using assms by (auto simp: ListInFlightTriggerRuns_def select_order_def trigger_inv_def distinct_map)

lemma reconcile_settles:
  assumes inv: "trigger_inv db" and rec: "reconcileInFlight w now completed db = (still, completed', db')"
  shows "still k = Some r \<longleftrightarrow> r \<in> set (tl_runs db) \<and> in_flight r \<and> run_verdict w now r = None \<and> triggerRunKey r = k"
    "completed' = map_option (\<lambda>cs. cs @ concat (map (verdict_reports w now) (ListInFlightTriggerRuns db))) completed"
    "db' = db\<lparr>tl_runs := update_where in_flight (settled w now) (tl_runs db)\<rparr>"
    "trigger_inv db'"
proof -
  note l = listed_flying [OF inv]
  note f = reconcile_fold [OF inv l(1), of w now Map.empty completed]
  have r: "still = map_of (rev (map (\<lambda>r. (triggerRunKey r, r))
        (filter (\<lambda>r. run_verdict w now r = None) (ListInFlightTriggerRuns db))))"
      "completed' = map_option (\<lambda>cs. cs @ concat (map (verdict_reports w now) (ListInFlightTriggerRuns db))) completed"
      "db' = db\<lparr>tl_runs := update_where (\<lambda>x. x \<in> set (ListInFlightTriggerRuns db)) (settled w now) (tl_runs db)\<rparr>"
    using rec f l(2) by (auto simp: reconcileInFlight_def)
  show "still k = Some r \<longleftrightarrow> r \<in> set (tl_runs db) \<and> in_flight r \<and> run_verdict w now r = None \<and> triggerRunKey r = k"
    using flights_map [OF inv, of "filter (\<lambda>r. run_verdict w now r = None) (ListInFlightTriggerRuns db)"] l r(1)
    by auto
  show "completed' = map_option (\<lambda>cs. cs @ concat (map (verdict_reports w now) (ListInFlightTriggerRuns db))) completed"
    by (rule r(2))
  have "update_where (\<lambda>x. x \<in> set (ListInFlightTriggerRuns db)) (settled w now) (tl_runs db) =
      update_where in_flight (settled w now) (tl_runs db)" using l(2) by (intro update_where_cong) auto
  with r(3) show db': "db' = db\<lparr>tl_runs := update_where in_flight (settled w now) (tl_runs db)\<rparr>" by simp
  show "trigger_inv db'"
    unfolding db' using inv by (rule trigger_inv_update) (auto simp: settled_def split: option.splits)
qed

section \<open>Firing\<close>

lemma new_row_only:
  assumes "tr_id r \<notin> set (map tr_id rows)"
  shows "delete_where (\<lambda>x. tr_id x = tr_id r) (rows @ [r]) = rows"
    "update_where (\<lambda>x. tr_id x = tr_id r) f (rows @ [r]) = rows @ [f r]"
  using assms by (auto simp: delete_where_def update_where_def image_iff intro!: filter_True map_idI)

definition fired_row :: "trigger_wiring \<Rightarrow> time \<Rightarrow> trigger_key \<Rightarrow> trigger \<Rightarrow> string \<Rightarrow> trigger_ledger \<Rightarrow> trigger_run" where
  "fired_row w now key trig jobID db =
     \<lparr>tr_id = tw_uuid w key, tr_project_id = tk_project_id key,
      tr_workspace_id = (if tk_project_id key \<noteq> [] then ProjectWorkspaceID (tk_project_id key) db else tk_workspace_id key),
      tr_trigger_name = tg_name trig, tr_job_id = jobID, tr_started_at = now,
      tr_finished_at = None, tr_exit_code = None\<rparr>"

lemma fire_outcome:
  assumes inv: "trigger_inv db" and uid: "tw_uuid w key \<noteq> []"
    and fire: "fireTrigger w now key trig db = (res, db')"
  shows "(\<exists>e. res = Inl e) \<and> db' = db
    \<or> (\<exists>j. res = Inr j \<and> db' = db\<lparr>tl_runs := tl_runs db @ [fired_row w now key trig j db]\<rparr>
        \<and> tw_uuid w key \<notin> set (map tr_id (tl_runs db)) \<and> trigger_inv db')"
proof -
  let ?new = "\<lparr>tr_id = [], tr_project_id = tk_project_id key, tr_workspace_id = tk_workspace_id key,
      tr_trigger_name = tg_name trig, tr_job_id = [], tr_started_at = now,
      tr_finished_at = None, tr_exit_code = None\<rparr>"
  show ?thesis
  proof (cases "CreateTriggerRun (tw_uuid w key) now ?new db")
    case (Inl e)
    then show ?thesis using fire by (auto simp: fireTrigger_def split: option.splits)
  next
    case (Inr p)
    then obtain row db1 where c: "CreateTriggerRun (tw_uuid w key) now ?new db = Inr (row, db1)" by (cases p) auto
    note cr = CreateTriggerRun_Inr [OF c]
    have row: "row = fired_row w now key trig [] db"
      using cr by (simp add: defaulted_run_def fired_row_def)
    have new: "tw_uuid w key \<notin> set (map tr_id (tl_runs db))" and db1: "db1 = db\<lparr>tl_runs := tl_runs db @ [row]\<rparr>"
      using cr row by (simp_all add: fired_row_def)
    have id: "tr_id row = tw_uuid w key" by (simp add: row fired_row_def)
    have inv1: "trigger_inv db1" using trigger_inv_create [OF inv c] uid id by simp
    have "DeleteTriggerRun (tr_id row) db1 = Inr db"
      using new_row_only(1) [of row "tl_runs db"] new uid id by (simp add: DeleteTriggerRun_Inr db1)
    moreover have set: "SetTriggerRunJobID (tr_id row) j db1 =
        Inr (db\<lparr>tl_runs := tl_runs db @ [fired_row w now key trig j db]\<rparr>)" for j
      using new_row_only(2) [of row "tl_runs db"] new uid id
      unfolding SetTriggerRunJobID_Inr by (simp add: db1 row fired_row_def)
    moreover have "trigger_inv (db\<lparr>tl_runs := tl_runs db @ [fired_row w now key trig j db]\<rparr>)" for j
      using set [of j] trigger_step_inv [OF inv1 trigger_step.set_job] by blast
    ultimately show ?thesis
      using fire c new by (auto simp: fireTrigger_def split: option.splits)
  qed
qed

lemma fired_row_key:
  "tk_project_id key = [] \<Longrightarrow> tk_trigger_name key = tg_name trig \<Longrightarrow> triggerRunKey (fired_row w now key trig j db) = key"
  by (simp add: triggerRunKey_def fired_row_def)

lemma fired_row_simps [simp]:
  "in_flight (fired_row w now key trig j db)" "tr_job_id (fired_row w now key trig j db) = j"
  "tr_started_at (fired_row w now key trig j db) = now" "tr_id (fired_row w now key trig j db) = tw_uuid w key"
  by (simp_all add: fired_row_def in_flight_def)

section \<open>What one trigger of a sweep does\<close>

abbreviation ws_key :: "string \<Rightarrow> trigger \<Rightarrow> trigger_key" where
  "ws_key slug trig \<equiv> \<lparr>tk_workspace_id = slug, tk_project_id = [], tk_trigger_name = tg_name trig\<rparr>"

text \<open>The job that the dispatcher starts for a trigger, if it accepts it.\<close>

definition exec_job :: "trigger_wiring \<Rightarrow> string \<Rightarrow> trigger \<Rightarrow> string option" where
  "exec_job w slug trig =
     Option.bind (tw_exec w) (\<lambda>start. start
       \<lparr>se_project_id = [], se_workspace_id = slug, se_argv = triggerRunArgv (tg_run trig), se_readonly = True,
        se_display_name = ''trigger:'' @ tg_name trig, se_connector = tg_connector trig\<rparr>)"

definition can_start :: "trigger_wiring \<Rightarrow> string \<Rightarrow> trigger \<Rightarrow> trigger_ledger \<Rightarrow> bool" where
  "can_start w slug trig db \<longleftrightarrow> workspace_loads slug db \<and> exec_job w slug trig \<noteq> None"

lemma can_start_runs [simp]: "can_start w slug trig (db\<lparr>tl_runs := rows\<rparr>) = can_start w slug trig db"
  by (simp add: can_start_def workspace_loads_def)

text \<open>A pending signal in the workspace that the secrets of a trigger belong to.\<close>

definition signals_ready :: "trigger_wiring \<Rightarrow> automation_meta \<Rightarrow> bool" where
  "signals_ready w meta \<longleftrightarrow>
     am_secret_namespace meta \<noteq> []
     \<and> (\<exists>ib r. tw_signals w = Some ib \<and> r \<in> set (in_signals ib) \<and> sg_workspace_id r = am_secret_namespace meta
          \<and> sg_acked_at r = None \<and> sg_attempts r < MaxSignalAttempts)"

lemma signals_ready_iff: "signalsPendingForTrigger w meta \<longleftrightarrow> signals_ready w meta"
  by (auto simp: signalsPendingForTrigger_def signals_ready_def HasPendingSignals_def pending_def resolveMaxAttempts_def
      MaxSignalAttempts_def split: option.splits)

lemma add_skip_simps [simp]:
  "sr_fired (add_skip s r) = sr_fired r" "sr_skipped (add_skip s r) = sr_skipped r @ [s]"
  "sr_completed (add_skip s r) = sr_completed r"
  by (simp_all add: add_skip_def)

lemma begin_ledger [simp]: "sv_ledger (beginTimeOutTriggerRun key run t sv) = sv_ledger sv"
  by (simp add: beginTimeOutTriggerRun_def claimTimeout_def)

text \<open>One run of the trigger is added to the ledger, with the job that was started for it.\<close>

definition fires ::
  "trigger_wiring \<Rightarrow> time \<Rightarrow> string \<Rightarrow> trigger \<Rightarrow> trigger_sweep_result \<Rightarrow> trigger_ledger \<Rightarrow>
     trigger_sweep_result \<Rightarrow> trigger_ledger \<Rightarrow> bool" where
  "fires w now slug trig r db r' db' \<longleftrightarrow>
     (\<exists>j. exec_job w slug trig = Some j \<and> sr_fired r' = sr_fired r @ [\<lparr>tf_key = ws_key slug trig, tf_job_id = j\<rparr>]
        \<and> db' = db\<lparr>tl_runs := tl_runs db @ [fired_row w now (ws_key slug trig) trig j db]\<rparr> \<and> trigger_inv db')"

definition grows :: "trigger_sweep_result \<Rightarrow> trigger_sweep_result \<Rightarrow> bool" where
  "grows r r' \<longleftrightarrow> (\<exists>fs sk co. sr_fired r' = sr_fired r @ fs \<and> sr_skipped r' = sr_skipped r @ sk
     \<and> sr_completed r' = sr_completed r @ co)"

lemma grows_refl [simp]: "grows r r"
  by (simp add: grows_def)

lemma grows_trans: "grows r r' \<Longrightarrow> grows r' r'' \<Longrightarrow> grows r r''"
  by (auto simp: grows_def)

lemma fire_job:
  assumes "fireTrigger w now (ws_key slug trig) trig db = (Inr j, db')"
  shows "exec_job w slug trig = Some j"
  using assms
  by (auto simp: fireTrigger_def exec_job_def fire_request_def defaulted_run_def split: option.splits sum.splits prod.splits
      dest!: CreateTriggerRun_Inr)

lemma fire_due_effect:
  assumes "trigger_inv (sv_ledger sv)" "tw_uuid w (ws_key slug trig) \<noteq> []"
    and "fire_due w now (ws_key slug trig) trig every (r, sv) = (r', sv')"
  shows "grows r r' \<and> (sv_ledger sv' = sv_ledger sv \<and> sr_fired r' = sr_fired r
       \<or> fires w now slug trig r (sv_ledger sv) r' (sv_ledger sv'))"
proof -
  obtain res db where f: "fireTrigger w now (ws_key slug trig) trig (sv_ledger sv) = (res, db)" by fastforce
  show ?thesis
  proof (cases res)
    case (Inl e)
    with fire_outcome [OF assms(1,2) f] have "db = sv_ledger sv" by auto
    with assms(3) f Inl show ?thesis by (auto simp: fire_due_def grows_def)
  next
    case (Inr j)
    with fire_outcome [OF assms(1,2) f] assms(3) f fire_job [of w now slug trig "sv_ledger sv" j db] show ?thesis
      by (auto simp: fire_due_def grows_def fires_def)
  qed
qed

lemma sweep_trigger_effect:
  assumes "trigger_inv (sv_ledger sv)" "tw_uuid w (ws_key slug trig) \<noteq> []"
    and sw: "sweep_trigger w now inFlight meta slug trig (r, sv) = (r', sv')"
  shows "grows r r'
    \<and> (sv_ledger sv' = sv_ledger sv \<and> sr_fired r' = sr_fired r
       \<or> fires w now slug trig r (sv_ledger sv) r' (sv_ledger sv')
         \<and> inFlight (ws_key slug trig) = None \<and> (tg_on trig = ''signals'' \<longrightarrow> signals_ready w meta)
         \<and> (\<exists>every. ParseDuration (tg_every trig) = Some every
              \<and> triggerIsDue now (ws_key slug trig) every (sv_ledger sv) = Inr True))"
proof -
  consider "sv_ledger sv' = sv_ledger sv" "r' = r"
    | s where "sv_ledger sv' = sv_ledger sv" "r' = add_skip s r"
    | every where "fire_due w now (ws_key slug trig) trig every (r, sv) = (r', sv')"
        "inFlight (ws_key slug trig) = None" "ParseDuration (tg_every trig) = Some every"
        "triggerIsDue now (ws_key slug trig) every (sv_ledger sv) = Inr True"
        "tg_on trig = ''signals'' \<longrightarrow> signals_ready w meta"
    using sw unfolding signals_ready_iff [symmetric]
    by (auto simp: sweep_trigger_def Let_def split: option.splits sum.splits if_splits)
  then show ?thesis
  proof cases
    case 2
    then show ?thesis by (auto simp: grows_def)
  next
    case 3
    then show ?thesis using fire_due_effect [OF assms(1,2) 3(1)] by blast
  qed simp
qed

text \<open>A due trigger with a run in flight is skipped, with the time since which that run is in flight.\<close>

lemma sweep_trigger_busy:
  assumes "sweep_trigger w now inFlight meta slug trig (r, sv) = (r', sv')" "inFlight (ws_key slug trig) = Some run"
    and "ParseDuration (tg_every trig) = Some every" "triggerIsDue now (ws_key slug trig) every (sv_ledger sv) = Inr True"
  shows "\<exists>s \<in> set (sr_skipped r'). ts_key s = ws_key slug trig \<and> ts_since s = tr_started_at run"
  using assms by (auto simp: sweep_trigger_def Let_def split: if_splits)

definition idle_for :: "trigger_wiring \<Rightarrow> trigger_key \<Rightarrow> trigger_ledger \<Rightarrow> bool" where
  "idle_for w key db \<longleftrightarrow>
     (\<forall>x \<in> set (tl_runs db). in_flight x \<longrightarrow> triggerRunKey x \<noteq> key) \<and> tw_uuid w key \<notin> set (map tr_id (tl_runs db))"

text \<open>Firing an idle trigger succeeds if its workspace and the dispatcher allow it, and is never refused as busy.\<close>

lemma create_idle:
  assumes "trigger_inv db" "idle_for w (ws_key slug trig) db" "slug \<noteq> []" "tg_name trig \<noteq> []" "workspace_loads slug db"
  shows "\<exists>row db1. CreateTriggerRun (tw_uuid w (ws_key slug trig)) now
      \<lparr>tr_id = [], tr_project_id = [], tr_workspace_id = slug, tr_trigger_name = tg_name trig, tr_job_id = [],
       tr_started_at = now, tr_finished_at = None, tr_exit_code = None\<rparr> db = Inr (row, db1) \<and> tr_workspace_id row = slug"
proof -
  let ?row = "\<lparr>tr_id = tw_uuid w (ws_key slug trig), tr_project_id = [], tr_workspace_id = slug, tr_trigger_name = tg_name trig,
      tr_job_id = [], tr_started_at = now, tr_finished_at = None, tr_exit_code = None\<rparr>"
  have key: "triggerRunKey ?row = ws_key slug trig" by (simp add: triggerRunKey_def)
  have "distinct (map tr_id (tl_runs db @ [?row]))" using assms(1,2) by (simp add: idle_for_def trigger_inv_def)
  then have "distinct (tl_runs db @ [?row])" using distinct_map by blast
  moreover have "uniq_on triggerRunKey in_flight (tl_runs db @ [?row])"
    using assms(1,2) by (auto simp: idle_for_def trigger_inv_iff uniq_on_snoc key)
  ultimately have "project_index (tl_runs db @ [?row])" "workspace_index (tl_runs db @ [?row])" using flight_index by blast+
  then show ?thesis
    using assms(2-5)
    by (cases "now = zero_instant") (simp_all add: CreateTriggerRun_def insert_run_def defaulted_run_def Let_def idle_for_def)
qed

lemma fire_idle:
  assumes "trigger_inv db" "idle_for w (ws_key slug trig) db" "slug \<noteq> []" "tg_name trig \<noteq> []"
    and "fireTrigger w now (ws_key slug trig) trig db = (res, db')"
  shows "if can_start w slug trig db then \<exists>j. res = Inr j else \<exists>e. res = Inl e \<and> e \<noteq> CreateFailed ErrTriggerRunInFlight"
proof (cases "workspace_loads slug db")
  case True
  from create_idle [OF assms(1-4) True, of now] show ?thesis
    using assms(5) True by (auto simp: fireTrigger_def can_start_def exec_job_def fire_request_def split: option.splits)
next
  case False
  then show ?thesis
    using assms(3-5) by (auto simp: fireTrigger_def can_start_def CreateTriggerRun_def defaulted_run_def Let_def split: option.splits)
qed

text \<open>What the result says of an idle trigger: it was fired, or it could not be started and that is reported.\<close>

definition concluded :: "trigger_wiring \<Rightarrow> string \<Rightarrow> trigger \<Rightarrow> trigger_ledger \<Rightarrow> trigger_sweep_result \<Rightarrow> bool" where
  "concluded w slug trig db r \<longleftrightarrow>
     ws_key slug trig \<in> tf_key ` set (sr_fired r)
     \<or> \<not> can_start w slug trig db \<and> \<lparr>tp_key = ws_key slug trig, tp_exit_code = TriggerDispatchFailureExitCode\<rparr> \<in> set (sr_completed r)"

lemma grows_concluded: "grows r r' \<Longrightarrow> concluded w slug trig db r \<Longrightarrow> concluded w slug trig db r'"
  by (auto simp: grows_def concluded_def)

lemma sweep_trigger_idle:
  assumes "trigger_inv (sv_ledger sv)" "idle_for w (ws_key slug trig) (sv_ledger sv)" "slug \<noteq> []" "tg_name trig \<noteq> []"
    and sw: "sweep_trigger w now inFlight meta slug trig (r, sv) = (r', sv')" "inFlight (ws_key slug trig) = None"
    and due: "ParseDuration (tg_every trig) = Some every"
      "triggerIsDue now (ws_key slug trig) every (sv_ledger sv) = Inr True"
      "tg_on trig = ''signals'' \<Longrightarrow> signals_ready w meta"
  shows "concluded w slug trig (sv_ledger sv) r'"
proof -
  obtain res db where f: "fireTrigger w now (ws_key slug trig) trig (sv_ledger sv) = (res, db)" by fastforce
  have "fire_due w now (ws_key slug trig) trig every (r, sv) = (r', sv')"
    using sw due by (auto simp: sweep_trigger_def Let_def signals_ready_iff split: if_splits)
  then show ?thesis
    using fire_idle [OF assms(1-4) f] f by (auto simp: fire_due_def concluded_def split: if_splits)
qed

section \<open>The whole sweep\<close>

lemma ws_key_iff:
  "triggerRunKey r = \<lparr>tk_workspace_id = slug, tk_project_id = [], tk_trigger_name = name\<rparr> \<longleftrightarrow>
     tr_project_id r = [] \<and> tr_workspace_id r = slug \<and> tr_trigger_name r = name"
  by (auto simp: triggerRunKey_def)

text \<open>Due means that no recorded run of the trigger started less than its period ago.\<close>

definition spaced :: "time \<Rightarrow> trigger_key \<Rightarrow> duration \<Rightarrow> trigger_run list \<Rightarrow> bool" where
  "spaced now key every rows \<longleftrightarrow> (\<forall>r \<in> set rows. triggerRunKey r = key \<longrightarrow> now - tr_started_at r \<ge> every)"

lemma latest_is_last:
  assumes "latest_of P db = Inr l" "r \<in> set (tl_runs db)" "P r"
  shows "tr_started_at r \<le> tr_started_at l \<and> l \<in> set (tl_runs db) \<and> P l"
proof -
  let ?rows = "select_order run_order P (tl_runs db)"
  have l: "?rows \<noteq> []" "l = last ?rows" using assms(1) by (auto simp: latest_of_def Let_def split: if_splits)
  have r: "r \<in> set ?rows" using assms(2,3) by simp
  have s: "sorted (map run_order ?rows)" by (rule sorted_select_order)
  obtain init where init: "?rows = init @ [l]" using l by (metis append_butlast_last_id)
  have "run_order r \<le> run_order l" using s r unfolding init by (auto simp: sorted_append)
  then have "tr_started_at r \<le> tr_started_at l" by (auto simp: run_order_def less_eq_prod_def)
  moreover have "l \<in> set ?rows" unfolding init by simp
  ultimately show ?thesis by simp
qed

lemma latest_none: "latest_of P db = Inl e \<longleftrightarrow> e = ErrTriggerRunNotFound \<and> (\<forall>r \<in> set (tl_runs db). \<not> P r)"
proof -
  have "select_order run_order P (tl_runs db) = [] \<longleftrightarrow> (\<forall>r \<in> set (tl_runs db). \<not> P r)"
    using set_select_order [of run_order P "tl_runs db"] by (metis (mono_tags, lifting) Collect_empty_eq set_empty)
  then show ?thesis by (auto simp: latest_of_def Let_def)
qed

lemma due_iff:
  "triggerIsDue now \<lparr>tk_workspace_id = slug, tk_project_id = [], tk_trigger_name = name\<rparr> every db = Inr True \<longleftrightarrow>
     slug \<noteq> [] \<and> name \<noteq> []
     \<and> spaced now \<lparr>tk_workspace_id = slug, tk_project_id = [], tk_trigger_name = name\<rparr> every (tl_runs db)"
proof -
  let ?P = "\<lambda>r. tr_project_id r = [] \<and> tr_workspace_id r = slug \<and> tr_trigger_name r = name"
  have sp: "spaced now \<lparr>tk_workspace_id = slug, tk_project_id = [], tk_trigger_name = name\<rparr> every (tl_runs db) \<longleftrightarrow>
      (\<forall>r \<in> set (tl_runs db). ?P r \<longrightarrow> now - tr_started_at r \<ge> every)" by (simp add: spaced_def ws_key_iff)
  show ?thesis
  proof (cases "latest_of ?P db")
    case (Inl e)
    with latest_none [of ?P db e] sp show ?thesis
      by (auto simp: triggerIsDue_def LatestWorkspaceTriggerRun_def guard_def)
  next
    case (Inr l)
    have "\<exists>r \<in> set (tl_runs db). ?P r" using latest_none [of ?P db ErrTriggerRunNotFound] Inr by auto
    then have l: "l \<in> set (tl_runs db)" "?P l" using latest_is_last [OF Inr] by blast+
    have "(\<forall>r \<in> set (tl_runs db). ?P r \<longrightarrow> now - tr_started_at r \<ge> every) \<longleftrightarrow> now - tr_started_at l \<ge> every"
    proof
      assume a: "now - tr_started_at l \<ge> every"
      show "\<forall>r \<in> set (tl_runs db). ?P r \<longrightarrow> now - tr_started_at r \<ge> every"
      proof (intro ballI impI)
        fix r assume "r \<in> set (tl_runs db)" "?P r"
        with latest_is_last [OF Inr] have "tr_started_at r \<le> tr_started_at l" by blast
        with a show "now - tr_started_at r \<ge> every" by linarith
      qed
    qed (use l in blast)
    with Inr sp show ?thesis by (auto simp: triggerIsDue_def LatestWorkspaceTriggerRun_def guard_def)
  qed
qed

type_synonym work_item = "string \<times> automation_meta \<times> trigger"

definition sweep_items :: "trigger_wiring \<Rightarrow> string list \<Rightarrow> work_item list" where
  "sweep_items w slugs =
     concat (map (\<lambda>slug. case hydrateAutomationMeta w [] slug of
                     None \<Rightarrow> [] | Some meta \<Rightarrow> map (\<lambda>t. (slug, meta, t)) (am_triggers meta)) slugs)"

definition sweep_item ::
  "trigger_wiring \<Rightarrow> time \<Rightarrow> flights \<Rightarrow> work_item \<Rightarrow>
     trigger_sweep_result \<times> trigger_service \<Rightarrow> trigger_sweep_result \<times> trigger_service" where
  "sweep_item w now inFlight item = (case item of (slug, meta, t) \<Rightarrow> sweep_trigger w now inFlight meta slug t)"

lemma sweep_item_simp [simp]: "sweep_item w now inFlight (slug, meta, t) = sweep_trigger w now inFlight meta slug t"
  by (simp add: sweep_item_def)

lemma sweep_scopes_items:
  "fold (sweep_scope w now inFlight) slugs st = fold (sweep_item w now inFlight) (sweep_items w slugs) st"
proof (induction slugs arbitrary: st)
  case Nil
  then show ?case by (simp add: sweep_items_def)
next
  case (Cons slug slugs)
  have "fold (sweep_trigger w now inFlight meta slug) ts st =
      fold (sweep_item w now inFlight) (map (\<lambda>t. (slug, meta, t)) ts) st" for meta ts
    by (induction ts arbitrary: st) simp_all
  then show ?case using Cons by (simp add: sweep_items_def sweep_scope_def split: option.splits)
qed

lemma spaced_append: "spaced now key every (rows @ news) \<longleftrightarrow> spaced now key every rows \<and> spaced now key every news"
  by (auto simp: spaced_def)

definition fired_of :: "trigger_run \<Rightarrow> trigger_fire_result" where
  "fired_of n = \<lparr>tf_key = triggerRunKey n, tf_job_id = tr_job_id n\<rparr>"

text \<open>A run that the sweep started belongs to a configured trigger that was idle and due, and runs its command.\<close>

definition rightly_fired ::
  "trigger_wiring \<Rightarrow> time \<Rightarrow> flights \<Rightarrow> work_item list \<Rightarrow> trigger_run list \<Rightarrow> trigger_run \<Rightarrow> bool" where
  "rightly_fired w now inFlight items rows n \<longleftrightarrow>
     in_flight n \<and> tr_started_at n = now \<and> inFlight (triggerRunKey n) = None
     \<and> (\<exists>slug meta t every. (slug, meta, t) \<in> set items \<and> triggerRunKey n = ws_key slug t
          \<and> exec_job w slug t = Some (tr_job_id n) \<and> (tg_on t = ''signals'' \<longrightarrow> signals_ready w meta)
          \<and> ParseDuration (tg_every t) = Some every \<and> spaced now (triggerRunKey n) every rows)"

lemma rightly_fired_mono:
  assumes "rightly_fired w now inFlight items (rows @ others) n"
  shows "rightly_fired w now inFlight (x # items) rows n"
proof -
  obtain slug meta t every where "(slug, meta, t) \<in> set items" "triggerRunKey n = ws_key slug t"
      "exec_job w slug t = Some (tr_job_id n)" "tg_on t = ''signals'' \<longrightarrow> signals_ready w meta"
      "ParseDuration (tg_every t) = Some every" "spaced now (triggerRunKey n) every rows"
    using assms unfolding rightly_fired_def spaced_append by blast
  then have "\<exists>slug meta t every. (slug, meta, t) \<in> set (x # items) \<and> triggerRunKey n = ws_key slug t
      \<and> exec_job w slug t = Some (tr_job_id n) \<and> (tg_on t = ''signals'' \<longrightarrow> signals_ready w meta)
      \<and> ParseDuration (tg_every t) = Some every \<and> spaced now (triggerRunKey n) every rows"
    by (intro exI [of _ slug] exI [of _ meta] exI [of _ t] exI [of _ every]) simp
  then show ?thesis using assms by (simp add: rightly_fired_def)
qed

lemma sweep_items_safe:
  assumes "trigger_inv (sv_ledger sv)" "\<And>k. tw_uuid w k \<noteq> []"
    and "fold (sweep_item w now inFlight) items (r, sv) = (r', sv')"
  shows "\<exists>news. sv_ledger sv' = (sv_ledger sv)\<lparr>tl_runs := tl_runs (sv_ledger sv) @ news\<rparr>
    \<and> trigger_inv (sv_ledger sv') \<and> grows r r' \<and> sr_fired r' = sr_fired r @ map fired_of news
    \<and> (\<forall>n \<in> set news. rightly_fired w now inFlight items (tl_runs (sv_ledger sv)) n)"
  using assms(1,3)
proof (induction items arbitrary: r sv)
  case Nil
  then show ?case by auto
next
  case (Cons item items)
  obtain slug meta t where item: "item = (slug, meta, t)" by (cases item)
  obtain r1 sv1 where st1: "sweep_trigger w now inFlight meta slug t (r, sv) = (r1, sv1)" by fastforce
  note eff = sweep_trigger_effect [OF Cons.prems(1) assms(2) st1]
  have inv1: "trigger_inv (sv_ledger sv1)" using eff Cons.prems(1) by (auto simp: fires_def)
  have f1: "fold (sweep_item w now inFlight) items (r1, sv1) = (r', sv')"
    using Cons.prems(2) st1 by (simp add: item)
  obtain news where n: "sv_ledger sv' = (sv_ledger sv1)\<lparr>tl_runs := tl_runs (sv_ledger sv1) @ news\<rparr>"
      "trigger_inv (sv_ledger sv')" "grows r1 r'" "sr_fired r' = sr_fired r1 @ map fired_of news"
      "\<forall>n \<in> set news. rightly_fired w now inFlight items (tl_runs (sv_ledger sv1)) n"
    using Cons.IH [OF inv1 f1] by blast
  have g: "grows r r'" using eff n(3) grows_trans by blast
  from eff consider "sv_ledger sv1 = sv_ledger sv" "sr_fired r1 = sr_fired r"
    | j every where "sr_fired r1 = sr_fired r @ [\<lparr>tf_key = ws_key slug t, tf_job_id = j\<rparr>]"
        "exec_job w slug t = Some j" "tg_on t = ''signals'' \<longrightarrow> signals_ready w meta"
        "sv_ledger sv1 = (sv_ledger sv)\<lparr>tl_runs := tl_runs (sv_ledger sv) @ [fired_row w now (ws_key slug t) t j (sv_ledger sv)]\<rparr>"
        "inFlight (ws_key slug t) = None" "ParseDuration (tg_every t) = Some every"
        "triggerIsDue now (ws_key slug t) every (sv_ledger sv) = Inr True"
    unfolding fires_def by blast
  then show ?case
  proof cases
    case 1
    have "\<forall>n \<in> set news. rightly_fired w now inFlight (item # items) (tl_runs (sv_ledger sv)) n"
      using n(5) rightly_fired_mono [where others = "[]"] unfolding 1 by simp
    then show ?thesis using n(1,2,4) g 1 by (intro exI [of _ news]) simp
  next
    case 2
    let ?row = "fired_row w now (ws_key slug t) t j (sv_ledger sv)"
    have k: "triggerRunKey ?row = ws_key slug t" by (simp add: fired_row_key)
    have "rightly_fired w now inFlight (item # items) (tl_runs (sv_ledger sv)) ?row"
      using 2(2,3,5-7) unfolding due_iff rightly_fired_def k item by auto
    moreover have "rightly_fired w now inFlight (item # items) (tl_runs (sv_ledger sv)) n" if "n \<in> set news" for n
      using n(5) that rightly_fired_mono unfolding 2(4) by fastforce
    ultimately show ?thesis
      using n(1,2,4) g 2(1,4) k by (intro exI [of _ "?row # news"]) (simp add: fired_of_def)
  qed
qed

lemma sweep_step:
  assumes "trigger_inv (sv_ledger sv)" "\<And>k. tw_uuid w k \<noteq> []"
    and "fold (sweep_item w now inFlight) (x # items) (r, sv) = (r', sv')"
  obtains slug meta t r1 sv1 where "x = (slug, meta, t)" "sweep_trigger w now inFlight meta slug t (r, sv) = (r1, sv1)"
    "fold (sweep_item w now inFlight) items (r1, sv1) = (r', sv')" "trigger_inv (sv_ledger sv1)" "grows r1 r'"
    "sv_ledger sv1 = sv_ledger sv \<and> sr_fired r1 = sr_fired r
     \<or> fires w now slug t r (sv_ledger sv) r1 (sv_ledger sv1) \<and> inFlight (ws_key slug t) = None"
proof -
  obtain slug meta t where x: "x = (slug, meta, t)" by (cases x)
  obtain r1 sv1 where st1: "sweep_trigger w now inFlight meta slug t (r, sv) = (r1, sv1)" by fastforce
  note eff = sweep_trigger_effect [OF assms(1,2) st1]
  have inv1: "trigger_inv (sv_ledger sv1)" using eff assms(1) by (auto simp: fires_def)
  have f1: "fold (sweep_item w now inFlight) items (r1, sv1) = (r', sv')" using assms(3) st1 by (simp add: x)
  have "grows r1 r'" using sweep_items_safe [OF inv1 assms(2) f1] by blast
  then show thesis using that [OF x st1 f1 inv1] eff by blast
qed

lemma sweep_items_busy:
  assumes "trigger_inv (sv_ledger sv)" "\<And>k. tw_uuid w k \<noteq> []"
    and "fold (sweep_item w now inFlight) items (r, sv) = (r', sv')" "inFlight (ws_key slug t) = Some run"
    and "(slug, meta, t) \<in> set items" "ParseDuration (tg_every t) = Some every"
      "triggerIsDue now (ws_key slug t) every (sv_ledger sv) = Inr True"
  shows "\<exists>s \<in> set (sr_skipped r'). ts_key s = ws_key slug t \<and> ts_since s = tr_started_at run"
  using assms(1,3,5,7)
proof (induction items arbitrary: r sv)
  case (Cons x items)
  from sweep_step [OF Cons.prems(1) assms(2) Cons.prems(2)]
  obtain slug' meta' t' r1 sv1 where st: "x = (slug', meta', t')" "sweep_trigger w now inFlight meta' slug' t' (r, sv) = (r1, sv1)"
    "fold (sweep_item w now inFlight) items (r1, sv1) = (r', sv')" "trigger_inv (sv_ledger sv1)" "grows r1 r'"
    "sv_ledger sv1 = sv_ledger sv \<and> sr_fired r1 = sr_fired r
     \<or> fires w now slug' t' r (sv_ledger sv) r1 (sv_ledger sv1) \<and> inFlight (ws_key slug' t') = None" .
  show ?case
  proof (cases "x = (slug, meta, t)")
    case True
    then have "\<exists>s \<in> set (sr_skipped r1). ts_key s = ws_key slug t \<and> ts_since s = tr_started_at run"
      using sweep_trigger_busy [of w now inFlight meta slug t r sv r1 sv1, OF _ assms(4,6) Cons.prems(4)] st(1,2) by simp
    then show ?thesis using st(5) by (auto simp: grows_def)
  next
    case False
    have "triggerIsDue now (ws_key slug t) every (sv_ledger sv1) = Inr True"
      using st(6)
    proof
      assume "fires w now slug' t' r (sv_ledger sv) r1 (sv_ledger sv1) \<and> inFlight (ws_key slug' t') = None"
      moreover from this assms(4) have "ws_key slug' t' \<noteq> ws_key slug t" by auto
      ultimately show ?thesis
        using Cons.prems(4) unfolding due_iff fires_def
        by (auto simp: spaced_append) (auto simp: spaced_def fired_row_key)
    qed (use Cons.prems(4) in simp)
    then show ?thesis using Cons.IH [OF st(4,3)] Cons.prems(3) False by simp
  qed
qed simp

lemma sweep_items_idle:
  assumes "trigger_inv (sv_ledger sv)" "\<And>k. tw_uuid w k \<noteq> []"
    and "fold (sweep_item w now inFlight) items (r, sv) = (r', sv')" "inFlight (ws_key slug t) = None"
    and "(slug, meta, t) \<in> set items" "ParseDuration (tg_every t) = Some every"
      "triggerIsDue now (ws_key slug t) every (sv_ledger sv) = Inr True"
      "tg_on t = ''signals'' \<Longrightarrow> signals_ready w meta"
    and "idle_for w (ws_key slug t) (sv_ledger sv)" "\<And>k. k \<noteq> ws_key slug t \<Longrightarrow> tw_uuid w k \<noteq> tw_uuid w (ws_key slug t)"
  shows "concluded w slug t (sv_ledger sv) r'"
  using assms(1,3,5,7,9)
proof (induction items arbitrary: r sv)
  case (Cons x items)
  from sweep_step [OF Cons.prems(1) assms(2) Cons.prems(2)]
  obtain slug' meta' t' r1 sv1 where st: "x = (slug', meta', t')" "sweep_trigger w now inFlight meta' slug' t' (r, sv) = (r1, sv1)"
    "fold (sweep_item w now inFlight) items (r1, sv1) = (r', sv')" "trigger_inv (sv_ledger sv1)" "grows r1 r'"
    "sv_ledger sv1 = sv_ledger sv \<and> sr_fired r1 = sr_fired r
     \<or> fires w now slug' t' r (sv_ledger sv) r1 (sv_ledger sv1) \<and> inFlight (ws_key slug' t') = None" .
  have named: "slug \<noteq> []" "tg_name t \<noteq> []" using Cons.prems(4) by (simp_all add: due_iff)
  show ?case
  proof (cases "concluded w slug t (sv_ledger sv) r1")
    case True
    then show ?thesis using grows_concluded [OF st(5)] by blast
  next
    case False
    then have "x \<noteq> (slug, meta, t)"
      using sweep_trigger_idle [of sv w slug t now inFlight meta r r1 sv1, OF Cons.prems(1,5) named _ assms(4,6) Cons.prems(4) assms(8)] st(1,2)
      by auto
    then have item: "(slug, meta, t) \<in> set items" using Cons.prems(3) by simp
    have "triggerIsDue now (ws_key slug t) every (sv_ledger sv1) = Inr True \<and> idle_for w (ws_key slug t) (sv_ledger sv1)
        \<and> can_start w slug t (sv_ledger sv1) = can_start w slug t (sv_ledger sv)"
      using st(6)
    proof
      assume "fires w now slug' t' r (sv_ledger sv) r1 (sv_ledger sv1) \<and> inFlight (ws_key slug' t') = None"
      then obtain j where j: "sr_fired r1 = sr_fired r @ [\<lparr>tf_key = ws_key slug' t', tf_job_id = j\<rparr>]"
          "sv_ledger sv1 = (sv_ledger sv)\<lparr>tl_runs := tl_runs (sv_ledger sv) @ [fired_row w now (ws_key slug' t') t' j (sv_ledger sv)]\<rparr>"
        by (auto simp: fires_def)
      have k: "ws_key slug' t' \<noteq> ws_key slug t" using False j(1) by (auto simp: concluded_def)
      have row: "triggerRunKey (fired_row w now (ws_key slug' t') t' j (sv_ledger sv)) = ws_key slug' t'" by (simp add: fired_row_key)
      show ?thesis
        using Cons.prems(4,5) k assms(10) [OF k] unfolding due_iff j(2)
        by (auto simp: spaced_append idle_for_def row) (auto simp: spaced_def row)
    qed (use Cons.prems(4,5) in simp)
    then show ?thesis using Cons.IH [OF st(4,3) item] by (simp add: concluded_def)
  qed
qed simp

section \<open>The sweep and its ledger\<close>

lemma still_flying:
  "x \<in> set (update_where in_flight (settled w now) rows) \<and> in_flight x \<longleftrightarrow> x \<in> set rows \<and> in_flight x \<and> run_verdict w now x = None"
proof -
  have s: "in_flight (settled w now y) \<longleftrightarrow> in_flight y \<and> run_verdict w now y = None"
    "run_verdict w now y = None \<Longrightarrow> settled w now y = y" for y
    by (auto simp: settled_def close_row_def in_flight_def split: option.splits)
  show ?thesis
  proof
    assume "x \<in> set (update_where in_flight (settled w now) rows) \<and> in_flight x"
    then show "x \<in> set rows \<and> in_flight x \<and> run_verdict w now x = None" using s by (auto elim!: in_update_whereE)
  next
    assume "x \<in> set rows \<and> in_flight x \<and> run_verdict w now x = None"
    then show "x \<in> set (update_where in_flight (settled w now) rows) \<and> in_flight x"
      using s(2) [of x] by (auto simp: update_where_def image_iff intro!: bexI [of _ x])
  qed
qed

lemma SweepTriggers_cases:
  assumes inv: "trigger_inv (sv_ledger sv)" and sw: "SweepTriggers w now sv = (err, r, sv')"
  obtains (off) "err = None" "r = \<lparr>sr_fired = [], sr_skipped = [], sr_completed = []\<rparr>" "sv' = sv"
        "tw_meta w = None \<or> \<not> tw_triggers w \<or> tw_jobs w = None"
    | (reconciled) m where "sr_fired r = []" "sr_skipped r = []" "err = Some ErrListWorkspaces \<or> err = None"
        "sr_completed r = concat (map (verdict_reports w now) (ListInFlightTriggerRuns (sv_ledger sv)))"
        "sv' = sv\<lparr>sv_ledger := (sv_ledger sv)\<lparr>tl_runs := update_where in_flight (settled w now) (tl_runs (sv_ledger sv))\<rparr>\<rparr>"
        "tw_meta w = Some m" "\<And>slugs. as_workspace_list m \<noteq> Some (Inr slugs)" "tw_triggers w" "tw_jobs w \<noteq> None"
    | (swept) m slugs still sv2 r2 where "tw_meta w = Some m" "as_workspace_list m = Some (Inr slugs)" "err = None"
        "tw_triggers w" "tw_jobs w \<noteq> None"
        "\<And>k x. still k = Some x \<longleftrightarrow>
           x \<in> set (tl_runs (sv_ledger sv)) \<and> in_flight x \<and> run_verdict w now x = None \<and> triggerRunKey x = k"
        "sv2 = sv\<lparr>sv_ledger := (sv_ledger sv)\<lparr>tl_runs := update_where in_flight (settled w now) (tl_runs (sv_ledger sv))\<rparr>,
                sv_pending_timeouts := []\<rparr>"
        "r2 = \<lparr>sr_fired = [], sr_skipped = [],
                sr_completed = concat (map (verdict_reports w now) (ListInFlightTriggerRuns (sv_ledger sv)))
                  @ sv_pending_timeouts sv\<rparr>"
        "trigger_inv (sv_ledger sv2)"
        "fold (sweep_item w now still) (sweep_items w slugs) (r2, sv2) = (r, sv')"
proof -
  obtain still completed db where rec: "reconcileInFlight w now (Some []) (sv_ledger sv) = (still, completed, db)"
    by (cases "reconcileInFlight w now (Some []) (sv_ledger sv)")
  note rs = reconcile_settles [OF inv rec]
  show ?thesis
  proof (cases "tw_meta w = None \<or> \<not> tw_triggers w \<or> tw_jobs w = None")
    case True
    with sw off show ?thesis by (auto simp: SweepTriggers_def Let_def Option.is_none_def split: option.splits)
  next
    case False
    then obtain m where m: "tw_meta w = Some m" "tw_triggers w" "tw_jobs w \<noteq> None" by auto
    consider "as_workspace_list m = None \<or> as_workspace_list m = Some (Inl ())"
      | slugs where "as_workspace_list m = Some (Inr slugs)"
      by (cases "as_workspace_list m"; cases "the (as_workspace_list m)") auto
    then show ?thesis
    proof cases
      case 1
      with sw m rec rs(2,3) reconciled show ?thesis by (auto simp: SweepTriggers_def Let_def Option.is_none_def)
    next
      case 2
      show ?thesis
        by (rule swept [OF m(1) 2 _ m(2,3) rs(1) refl refl])
          (use sw m rec rs(2-4) 2 in \<open>auto simp: SweepTriggers_def Let_def Option.is_none_def drainTimeoutCompletions_def sweep_scopes_items\<close>)
    qed
  qed
qed

end
