(* ===== verification/Trigger_Properties.thy ===== *)
theory Trigger_Properties
  imports Trigger_Facts
begin

text \<open>The properties of triggers and their runs, with the ledgers their witnesses run on.\<close>

section \<open>Sample ledgers\<close>

definition sample_key :: trigger_key where
  "sample_key = \<lparr>tk_workspace_id = ''ws'', tk_project_id = [], tk_trigger_name = ''poll''\<rparr>"

definition sample_run :: "string \<Rightarrow> trigger_run" where
  "sample_run rid =
     \<lparr>tr_id = rid, tr_project_id = [], tr_workspace_id = ''ws'', tr_trigger_name = ''poll'', tr_job_id = ''job'',
      tr_started_at = 1000, tr_finished_at = None, tr_exit_code = None\<rparr>"

definition runs_ledger :: "trigger_run list \<Rightarrow> trigger_ledger" where
  "runs_ledger rows = \<lparr>tl_runs = rows, tl_projects = [], tl_project_workspaces = [], tl_workspaces = [''ws'']\<rparr>"

definition sample_trigger :: trigger where
  "sample_trigger =
     \<lparr>tg_name = ''poll'', tg_on = [], tg_every = ''10m'', tg_run = ''true'', tg_timeout = ''1h'', tg_connector = None\<rparr>"

definition sample_meta :: automation_meta where
  "sample_meta = \<lparr>am_triggers = [sample_trigger], am_secret_namespace = ''ws''\<rparr>"

definition sample_automation :: automation_source where
  "sample_automation =
     \<lparr>as_with_workspace = (\<lambda>_. None), as_get = (\<lambda>_. None), as_workspace_list = Some (Inr [''ws'']),
      as_workspace_meta = Some (\<lambda>slug. if slug = ''ws'' then Some sample_meta else None)\<rparr>"

text \<open>The job \<open>job\<close> has exited with code 7; the dispatcher answers \<open>next\<close>, or fails.\<close>

definition sample_wiring :: "bool \<Rightarrow> trigger_wiring" where
  "sample_wiring up =
     \<lparr>tw_triggers = True, tw_meta = Some sample_automation,
      tw_jobs = Some (\<lambda>j. if j = ''job'' then Some \<lparr>jb_status = JobStatusFailed, jb_exit_code = 7, jb_runtime_id = ''rt''\<rparr>
                      else None),
      tw_exec = Some (\<lambda>_. if up then Some ''next'' else None), tw_signals = None, tw_uuid = (\<lambda>_. ''u2'')\<rparr>"

definition sample_service :: "trigger_run list \<Rightarrow> trigger_service" where
  "sample_service rows =
     \<lparr>sv_ledger = runs_ledger rows, sv_timing_out = [], sv_endings = [], sv_pending_timeouts = []\<rparr>"

lemma sample_inv [simp]: "trigger_inv (runs_ledger [])" "trigger_inv (runs_ledger [sample_run ''u1''])"
  by (simp_all add: trigger_inv_def runs_ledger_def sample_run_def project_index_def workspace_index_def uniq_on_def)

lemmas create_defs = CreateTriggerRun_def insert_run_def runs_ledger_def sample_run_def defaulted_run_def
  zero_instant_def workspace_loads_def ValidWorkspaceSlug_def slug_char_def project_index_def workspace_index_def
  uniq_on_def in_flight_def Let_def

lemma sample_uuid [simp]: "tw_uuid (sample_wiring up) k = ''u2''"
  by (simp add: sample_wiring_def)

section \<open>Single flight\<close>

text \<open>
  C27. Runs of a trigger never overlap: in any interleaving of the statements on the ledger, two runs of
  one trigger were started only with the end or removal of the first between them.
\<close>

theorem trigger_runs_never_overlap:
  assumes "trigger_inv db"
    and "flight_run trigger_step db (pre @ Acquire key rid # mid @ Acquire key rid' # post) db'"
  shows "Release rid \<in> set mid"
  using trigger_slot.no_overlap [OF assms(2,1)] .

theorem trigger_runs_never_overlap_witness:
  "\<exists>db'. flight_run trigger_step (runs_ledger []) [Acquire sample_key ''u1'', Release ''u1'', Acquire sample_key ''u2''] db'
     \<and> Release ''u1'' \<in> set [Release ''u1'' :: (trigger_key, string) flight_event]"
proof -
  let ?r = "(sample_run ''u1'')\<lparr>tr_id := []\<rparr>"
  let ?done = "close_row 5000 0 (sample_run ''u1'')"
  have c1: "CreateTriggerRun ''u1'' 2000 ?r (runs_ledger []) = Inr (sample_run ''u1'', runs_ledger [sample_run ''u1''])"
    by (simp add: create_defs)
  have c2: "CompleteTriggerRun ''u1'' 5000 0 (runs_ledger [sample_run ''u1'']) = Inr (runs_ledger [?done])"
    by (simp add: CompleteTriggerRun_Inr runs_ledger_def sample_run_def in_flight_def update_where_def)
  have c3: "CreateTriggerRun ''u2'' 2000 ?r (runs_ledger [?done]) = Inr (sample_run ''u2'', runs_ledger [?done, sample_run ''u2''])"
    by (simp add: create_defs close_row_def)
  have k: "triggerRunKey (sample_run u) = sample_key" "tr_id (sample_run u) = u" for u
    by (simp_all add: triggerRunKey_def sample_run_def sample_key_def)
  have run: "flight_run trigger_step (runs_ledger [])
      ([] @ Acquire sample_key ''u1'' # [Release ''u1''] @ Acquire sample_key ''u2'' # []) (runs_ledger [?done, sample_run ''u2''])"
    using trigger_step.create [OF c1] trigger_step.complete [OF c2] trigger_step.create [OF c3]
    by (auto simp: k intro!: flight_cons flight_nil)
  from trigger_runs_never_overlap [OF sample_inv(1) run] run show ?thesis by auto
qed

text \<open>
  C32. The ledger implements the abstract map from triggers to the run that holds their slot: each
  statement takes a free slot, frees the slot of the run it ends, or leaves the map alone.
\<close>

theorem trigger_ledger_refines_slots:
  assumes "trigger_inv db" "trigger_step db e db'"
  shows "trigger_inv db' \<and>
    (case e of
       Acquire key rid \<Rightarrow> run_holder db key = None \<and> run_holder db' = (run_holder db)(key \<mapsto> rid)
     | Release rid \<Rightarrow> (\<exists>key. run_holder db key = Some rid \<and> run_holder db' = (run_holder db)(key := None))
     | Other \<Rightarrow> run_holder db' = run_holder db)"
  using trigger_slot.step_inv [OF assms] assms
  by (cases e) (auto dest: trigger_slot.acquire trigger_slot.release trigger_slot.other)

theorem trigger_ledger_refines_slots_witness:
  "\<exists>db'. trigger_step (runs_ledger [sample_run ''u1'']) (Release ''u1'') db'
     \<and> (\<exists>key. run_holder (runs_ledger [sample_run ''u1'']) key = Some ''u1''
          \<and> run_holder db' = (run_holder (runs_ledger [sample_run ''u1'']))(key := None))"
proof -
  have "CompleteTriggerRun ''u1'' 5000 0 (runs_ledger [sample_run ''u1'']) =
      Inr (runs_ledger [close_row 5000 0 (sample_run ''u1'')])"
    by (simp add: CompleteTriggerRun_Inr runs_ledger_def sample_run_def in_flight_def update_where_def)
  from trigger_step.complete [OF this] trigger_ledger_refines_slots [OF sample_inv(2) trigger_step.complete [OF this]]
  show ?thesis by auto
qed

section \<open>Outcomes\<close>

definition outcome_is :: "string \<Rightarrow> time \<Rightarrow> int \<Rightarrow> trigger_ledger \<Rightarrow> bool" where
  "outcome_is rid t c db \<longleftrightarrow>
     list_all (\<lambda>r. tr_id r = rid \<longrightarrow> tr_finished_at r = Some t \<and> tr_exit_code r = Some c) (tl_runs db)"

lemma outcome_step:
  assumes "trigger_step db e db'" "outcome_is rid t c db" "\<And>k. e \<noteq> Acquire k rid"
  shows "outcome_is rid t c db'"
  using assms(1)
proof (cases rule: trigger_step.cases)
  case (create uid now run row)
  then have "tr_id row \<noteq> rid" using assms(3) by blast
  then show ?thesis using CreateTriggerRun_Inr [OF create(2)] assms(2) by (simp add: outcome_is_def)
next
  case (complete rid' t' c')
  then show ?thesis using assms(2)
    by (auto simp: CompleteTriggerRun_Inr outcome_is_def list_all_iff close_row_def in_flight_def set_update_where split: if_splits)
qed (use assms(2) in \<open>auto simp: SetTriggerRunJobID_Inr DeleteTriggerRun_Inr GCTriggerRuns_def Let_def outcome_is_def
  list_all_iff set_update_where split: if_splits\<close>)

lemma outcome_run:
  "flight_run trigger_step db es db' \<Longrightarrow> outcome_is rid t c db \<Longrightarrow> rid \<notin> set (concat (map (\<lambda>e. case e of Acquire k h \<Rightarrow> [h] | _ \<Rightarrow> []) es))
   \<Longrightarrow> outcome_is rid t c db'"
proof (induction rule: flight_run.induct)
  case (flight_cons s e s' es s'')
  have "outcome_is rid t c s'" using outcome_step [OF flight_cons(1,4)] flight_cons(5) by auto
  then show ?case using flight_cons by auto
qed simp

text \<open>
  C28. The first recorded outcome of a run stands. After a run was completed, whatever the sweeps, the
  timeout goroutines, manual runs and collections do next, its row keeps that time and exit code for as
  long as it exists, and every further completion of it is refused.
\<close>

theorem first_outcome_stands:
  assumes "CompleteTriggerRun rid t c db = Inr db1" "trigger_inv db" "flight_run trigger_step db1 es db2"
    and "rid \<notin> set (concat (map (\<lambda>e. case e of Acquire k h \<Rightarrow> [h] | _ \<Rightarrow> []) es))"
  shows "CompleteTriggerRun rid t' c' db2 = Inl ErrTriggerRunAlreadyFinished
    \<and> filter (\<lambda>r. tr_id r = rid \<and> \<not> (tr_finished_at r = Some t \<and> tr_exit_code r = Some c)) (tl_runs db2) = []"
proof -
  have rid: "rid \<noteq> []" and r: "\<exists>r \<in> set (tl_runs db). tr_id r = rid \<and> in_flight r"
    and db1: "db1 = db\<lparr>tl_runs := update_where (\<lambda>r. tr_id r = rid \<and> in_flight r) (close_row t c) (tl_runs db)\<rparr>"
    using assms(1) by (auto simp: CompleteTriggerRun_Inr)
  have "outcome_is rid t c db1"
    using r run_by_id [OF assms(2)] unfolding db1
    by (auto simp: outcome_is_def list_all_iff set_update_where close_row_def split: if_splits)
  then have out: "outcome_is rid t c db2" using outcome_run [OF assms(3)] assms(4) by blast
  then have "rows_affected (\<lambda>r. tr_id r = rid \<and> in_flight r) (tl_runs db2) = 0"
    by (auto simp: outcome_is_def list_all_iff rows_affected_zero in_flight_def)
  then show ?thesis using rid out
    by (auto simp: CompleteTriggerRun_def Let_def outcome_is_def list_all_iff filter_empty_conv)
qed

theorem first_outcome_stands_witness:
  "\<exists>db1. CompleteTriggerRun ''u1'' 5000 7 (runs_ledger [sample_run ''u1'']) = Inr db1
     \<and> CompleteTriggerRun ''u1'' 6000 TriggerTimeoutExitCode db1 = Inl ErrTriggerRunAlreadyFinished"
proof -
  have c: "CompleteTriggerRun ''u1'' 5000 7 (runs_ledger [sample_run ''u1'']) =
      Inr (runs_ledger [close_row 5000 7 (sample_run ''u1'')])"
    by (simp add: CompleteTriggerRun_Inr runs_ledger_def sample_run_def in_flight_def update_where_def)
  from first_outcome_stands [OF c sample_inv(2) flight_nil] c show ?thesis by simp
qed

section \<open>Reconciliation and sweeps\<close>

text \<open>
  C31. Reconciliation gives every run in flight its verdict and nothing else: the exit code of a job that
  ended, the self-heal code for a run whose job cannot be found after the grace period, no change
  otherwise. It reports exactly the runs it closed, oldest first, and returns exactly the runs that are
  still in flight.
\<close>

theorem reconcile_exact:
  assumes "trigger_inv db"
  shows "case reconcileInFlight w now (Some []) db of (still, completed, db') \<Rightarrow>
      trigger_inv db'
      \<and> db' = db\<lparr>tl_runs := map (\<lambda>r. if in_flight r then settled w now r else r) (tl_runs db)\<rparr>
      \<and> completed = Some (concat (map (verdict_reports w now) (ListInFlightTriggerRuns db)))
      \<and> (\<forall>k r. still k = Some r \<longleftrightarrow> r \<in> set (tl_runs db') \<and> in_flight r \<and> triggerRunKey r = k)"
proof -
  obtain still completed db' where rec: "reconcileInFlight w now (Some []) db = (still, completed, db')"
    by (cases "reconcileInFlight w now (Some []) db")
  note s = reconcile_settles [OF assms rec]
  have "r \<in> set (tl_runs db') \<and> in_flight r \<longleftrightarrow> r \<in> set (tl_runs db) \<and> in_flight r \<and> run_verdict w now r = None" for r
    unfolding s(3) by (force simp: set_update_where settled_def split: option.splits if_splits)
  then have "still k = Some r \<longleftrightarrow> r \<in> set (tl_runs db') \<and> in_flight r \<and> triggerRunKey r = k" for k r
    using s(1) [of k r] by blast
  then show ?thesis using rec s(2-4) by (simp add: update_where_def)
qed

theorem reconcile_exact_witness:
  "case reconcileInFlight (sample_wiring True) 9000 (Some []) (runs_ledger [sample_run ''u1'']) of (still, completed, db') \<Rightarrow>
     tl_runs db' = [close_row 9000 7 (sample_run ''u1'')]
     \<and> completed = Some [\<lparr>tp_key = sample_key, tp_exit_code = 7\<rparr>] \<and> still sample_key = None"
proof -
  have v: "run_verdict (sample_wiring True) 9000 (sample_run ''u1'') = Some 7"
    by (simp add: run_verdict_def jobTerminalState_def sample_wiring_def sample_run_def)
  have l: "ListInFlightTriggerRuns (runs_ledger [sample_run ''u1'']) = [sample_run ''u1'']"
    by (simp add: ListInFlightTriggerRuns_def select_order_def runs_ledger_def sample_run_def in_flight_def)
  have k: "triggerRunKey (sample_run ''u1'') = sample_key" "in_flight (sample_run ''u1'')"
    by (simp_all add: triggerRunKey_def sample_run_def sample_key_def in_flight_def)
  obtain still completed db' where rec:
      "reconcileInFlight (sample_wiring True) 9000 (Some []) (runs_ledger [sample_run ''u1'']) = (still, completed, db')"
    by (cases "reconcileInFlight (sample_wiring True) 9000 (Some []) (runs_ledger [sample_run ''u1''])")
  note e = reconcile_exact [OF sample_inv(2), of "sample_wiring True" 9000, unfolded rec prod.case]
  have rows: "tl_runs db' = [close_row 9000 7 (sample_run ''u1'')]"
    using e v k(2) by (simp add: runs_ledger_def settled_def)
  have "still sample_key = None"
  proof (rule ccontr)
    assume "still sample_key \<noteq> None"
    then obtain r where "still sample_key = Some r" by blast
    with e rows show False by auto
  qed
  then show ?thesis using rows e k(1) v by (simp add: rec l verdict_reports_def)
qed

text \<open>
  Firing a trigger is all or nothing: when the claim of the slot or the dispatch fails the ledger is
  as before, so the next tick may try again at once; otherwise it has one more run, in flight, started
  now and carrying the job that was dispatched.
\<close>

theorem fire_all_or_nothing:
  assumes "trigger_inv db" "tw_uuid w key \<noteq> []"
  shows "case fireTrigger w now key trig db of
      (Inl e, db') \<Rightarrow> db' = db
    | (Inr j, db') \<Rightarrow> trigger_inv db' \<and> (\<exists>r. db' = db\<lparr>tl_runs := tl_runs db @ [r]\<rparr>
        \<and> in_flight r \<and> tr_job_id r = j \<and> tr_started_at r = now
        \<and> tr_project_id r = tk_project_id key \<and> tr_trigger_name r = tg_name trig
        \<and> (tk_project_id key = [] \<longrightarrow> tr_workspace_id r = tk_workspace_id key))"
proof -
  obtain res db' where f: "fireTrigger w now key trig db = (res, db')" by fastforce
  from fire_outcome [OF assms f] show ?thesis
  proof
    assume "\<exists>j. res = Inr j \<and> db' = db\<lparr>tl_runs := tl_runs db @ [fired_row w now key trig j db]\<rparr>
        \<and> tw_uuid w key \<notin> set (map tr_id (tl_runs db)) \<and> trigger_inv db'"
    then obtain j where j: "res = Inr j" "db' = db\<lparr>tl_runs := tl_runs db @ [fired_row w now key trig j db]\<rparr>" "trigger_inv db'"
      by blast
    then show ?thesis using f
      by (simp, intro exI [of _ "fired_row w now key trig j db"]) (simp add: fired_row_def in_flight_def)
  qed (use f in auto)
qed

theorem fire_all_or_nothing_witness:
  "snd (fireTrigger (sample_wiring False) 9000 sample_key sample_trigger (runs_ledger [])) = runs_ledger []
   \<and> fst (fireTrigger (sample_wiring False) 9000 sample_key sample_trigger (runs_ledger [])) = Inl StartExecFailed
   \<and> (\<exists>r. snd (fireTrigger (sample_wiring True) 9000 sample_key sample_trigger (runs_ledger [])) = runs_ledger [r]
        \<and> tr_job_id r = ''next'')"
proof -
  have "fst (fireTrigger (sample_wiring False) 9000 sample_key sample_trigger (runs_ledger [])) = Inl StartExecFailed"
    "fst (fireTrigger (sample_wiring True) 9000 sample_key sample_trigger (runs_ledger [])) = Inr ''next''"
    by (simp_all add: fireTrigger_def create_defs sample_wiring_def sample_key_def sample_trigger_def)
  then show ?thesis
    using fire_all_or_nothing [OF sample_inv(1), of "sample_wiring False" sample_key 9000 sample_trigger]
      fire_all_or_nothing [OF sample_inv(1), of "sample_wiring True" sample_key 9000 sample_trigger]
    by (auto simp: runs_ledger_def split: prod.splits)
qed

text \<open>The ledger on which a sweep decides: reconciled, unless a part of the wiring that the sweep needs is missing.\<close>

definition swept_rows :: "trigger_wiring \<Rightarrow> time \<Rightarrow> trigger_ledger \<Rightarrow> trigger_run list" where
  "swept_rows w now db =
     (if tw_meta w \<noteq> None \<and> tw_triggers w \<and> tw_jobs w \<noteq> None then update_where in_flight (settled w now) (tl_runs db) else tl_runs db)"

text \<open>
  A run that a sweep may start: its trigger is configured in a listed workspace, idle and due, has a pending signal
  if it waits for signals, and the job is the one that the dispatcher started for its command.
\<close>

definition rightful :: "trigger_wiring \<Rightarrow> time \<Rightarrow> trigger_run list \<Rightarrow> trigger_run \<Rightarrow> bool" where
  "rightful w now rows n \<longleftrightarrow>
     in_flight n \<and> tr_started_at n = now
     \<and> filter (\<lambda>x. in_flight x \<and> triggerRunKey x = triggerRunKey n) rows = []
     \<and> (\<exists>m slugs slug meta t every. tw_meta w = Some m \<and> as_workspace_list m = Some (Inr slugs) \<and> slug \<in> set slugs
          \<and> hydrateAutomationMeta w [] slug = Some meta \<and> t \<in> set (am_triggers meta)
          \<and> triggerRunKey n = ws_key slug t \<and> exec_job w slug t = Some (tr_job_id n)
          \<and> (tg_on t = ''signals'' \<longrightarrow> signals_ready w meta)
          \<and> ParseDuration (tg_every t) = Some every \<and> spaced now (triggerRunKey n) every rows)"

text \<open>
  C29. A sweep fires only what it should. Its ledger is the reconciled ledger with one new run per fired trigger, in
  the order of the report. Each of them belongs to a trigger of a listed workspace, is the job that the dispatcher
  started for the trigger's command, had no run in flight and no recorded run that started less than its period
  ago, and a pending signal if the trigger waits for signals. So a sweep never starts two runs of one trigger. A
  sweep that is not wired leaves the ledger alone.
\<close>

theorem sweep_fires_rightly:
  assumes "trigger_inv (sv_ledger sv)" "\<And>k. tw_uuid w k \<noteq> []" "SweepTriggers w now sv = (err, r, sv')"
  shows "\<exists>news. tl_runs (sv_ledger sv') = swept_rows w now (sv_ledger sv) @ news \<and> trigger_inv (sv_ledger sv')
    \<and> sr_fired r = map fired_of news \<and> distinct (map tf_key (sr_fired r))
    \<and> list_all (rightful w now (swept_rows w now (sv_ledger sv))) news"
  using assms(1,3)
proof (cases rule: SweepTriggers_cases)
  case off
  then show ?thesis using assms(1) by (intro exI [of _ "[]"]) (auto simp: swept_rows_def)
next
  case (reconciled m)
  have "trigger_inv (sv_ledger sv')"
    unfolding reconciled(5) using assms(1) by (simp, rule_tac trigger_inv_update) (auto simp: settled_def split: option.splits)
  then show ?thesis using reconciled by (intro exI [of _ "[]"]) (simp add: swept_rows_def)
next
  case (swept m slugs still sv2 r2)
  let ?rows = "swept_rows w now (sv_ledger sv)"
  have rows: "tl_runs (sv_ledger sv2) = ?rows" using swept(1,4,5,7) by (simp add: swept_rows_def)
  obtain news where n: "sv_ledger sv' = (sv_ledger sv2)\<lparr>tl_runs := ?rows @ news\<rparr>"
      "trigger_inv (sv_ledger sv')" "sr_fired r = sr_fired r2 @ map fired_of news"
      "\<forall>n \<in> set news. rightly_fired w now still (sweep_items w slugs) ?rows n"
    using sweep_items_safe [OF swept(9) assms(2) swept(10)] unfolding rows by blast
  have fl: "\<forall>n \<in> set news. in_flight n" using n(4) by (simp add: rightly_fired_def)
  have dist: "distinct (map tf_key (map fired_of news))"
    using n(2) fl unfolding trigger_inv_iff n(1) by (auto simp: uniq_on_def fired_of_def comp_def filter_True)
  have "rightful w now ?rows n" if "n \<in> set news" for n
  proof -
    have idle: "filter (\<lambda>x. in_flight x \<and> triggerRunKey x = triggerRunKey n) ?rows = []"
      using n(2) that fl unfolding trigger_inv_iff n(1) by (auto simp: uniq_on_def filter_empty_conv)
    from n(4) that obtain slug meta t every where x: "(slug, meta, t) \<in> set (sweep_items w slugs)" "triggerRunKey n = ws_key slug t"
        "exec_job w slug t = Some (tr_job_id n)" "tg_on t = ''signals'' \<longrightarrow> signals_ready w meta"
        "ParseDuration (tg_every t) = Some every" "spaced now (triggerRunKey n) every ?rows" "in_flight n" "tr_started_at n = now"
      unfolding rightly_fired_def by blast
    have "slug \<in> set slugs \<and> hydrateAutomationMeta w [] slug = Some meta \<and> t \<in> set (am_triggers meta)"
      using x(1) by (auto simp: sweep_items_def split: option.splits)
    then show ?thesis unfolding rightful_def using idle x(2-8) swept(1,2) by blast
  qed
  then have "list_all (rightful w now ?rows) news" by (simp add: list_all_iff)
  then show ?thesis using n(1-3) dist by (intro exI [of _ news]) (simp add: swept(8))
qed

theorem sweep_fires_rightly_witness:
  "\<exists>n. tl_runs (sv_ledger (snd (snd (SweepTriggers (sample_wiring True) 9000 (sample_service []))))) = [n]
     \<and> in_flight n \<and> tr_started_at n = 9000 \<and> triggerRunKey n = sample_key \<and> tr_job_id n = ''next''"
proof -
  obtain err r sv' where sw: "SweepTriggers (sample_wiring True) 9000 (sample_service []) = (err, r, sv')"
    by (cases "SweepTriggers (sample_wiring True) 9000 (sample_service [])")
  have f: "map tf_key (sr_fired (fst (snd (SweepTriggers (sample_wiring True) 9000 (sample_service []))))) = [sample_key]"
    by code_simp
  have "trigger_inv (sv_ledger (sample_service []))" by (simp add: sample_service_def)
  from sweep_fires_rightly [OF this _ sw] obtain news where
    n: "tl_runs (sv_ledger sv') = swept_rows (sample_wiring True) 9000 (sv_ledger (sample_service [])) @ news" "sr_fired r = map fired_of news"
      "list_all (rightful (sample_wiring True) 9000 (swept_rows (sample_wiring True) 9000 (sv_ledger (sample_service [])))) news" by auto
  have "swept_rows (sample_wiring True) 9000 (sv_ledger (sample_service [])) = []"
    by (simp add: swept_rows_def sample_service_def runs_ledger_def update_where_def)
  moreover obtain x where x: "news = [x]" "triggerRunKey x = sample_key" using f n(2) sw by (auto simp: map_eq_Cons_conv fired_of_def)
  moreover have "exec_job (sample_wiring True) slug t = Some ''next''" for slug t by (simp add: exec_job_def sample_wiring_def)
  ultimately show ?thesis using n(1,3) sw by (auto simp: rightful_def)
qed

text \<open>
  C30. No due trigger is forgotten. When a sweep runs to its end, the report tells what became of every configured
  trigger whose period has passed since its last recorded start and that has a pending signal if it waits for
  signals. With a run still in flight it is skipped, with the start of that run. Otherwise it is fired if its
  workspace loads and the dispatcher accepts its job; if not, and no trigger of the same name was fired, its failed
  dispatch is reported. The ids drawn are fresh.
\<close>

theorem due_triggers_are_reported:
  assumes "trigger_inv (sv_ledger sv)" "\<And>k. tw_uuid w k \<noteq> []" "SweepTriggers w now sv = (None, r, sv')"
    and "tw_triggers w" "tw_jobs w = Some jobs" "tw_meta w = Some m" "as_workspace_list m = Some (Inr slugs)"
    and "slug \<in> set slugs" "hydrateAutomationMeta w [] slug = Some meta" "t \<in> set (am_triggers meta)"
    and "slug \<noteq> []" "tg_name t \<noteq> []" "ParseDuration (tg_every t) = Some every"
    and "spaced now (ws_key slug t) every (tl_runs (sv_ledger sv))"
    and "tg_on t = ''signals'' \<Longrightarrow> signals_ready w meta"
    and "tw_uuid w (ws_key slug t) \<notin> set (map tr_id (tl_runs (sv_ledger sv)))"
    and "\<And>k. k \<noteq> ws_key slug t \<Longrightarrow> tw_uuid w k \<noteq> tw_uuid w (ws_key slug t)"
  shows "case find (\<lambda>x. in_flight x \<and> triggerRunKey x = ws_key slug t) (swept_rows w now (sv_ledger sv)) of
      Some run \<Rightarrow> (\<exists>s \<in> set (sr_skipped r). ts_key s = ws_key slug t \<and> ts_since s = tr_started_at run)
    | None \<Rightarrow>
        if can_start w slug t (sv_ledger sv) then ws_key slug t \<in> tf_key ` set (sr_fired r)
        else ws_key slug t \<in> tf_key ` set (sr_fired r)
          \<or> \<lparr>tp_key = ws_key slug t, tp_exit_code = TriggerDispatchFailureExitCode\<rparr> \<in> set (sr_completed r)"
  using assms(1,3)
proof (cases rule: SweepTriggers_cases)
  case off
  then show ?thesis using assms(4-6) by simp
next
  case (reconciled m')
  then show ?thesis using assms(6,7) by simp
next
  case (swept m' slugs' still sv2 r2)
  let ?k = "ws_key slug t" and ?rows = "swept_rows w now (sv_ledger sv)"
  have rows: "?rows = update_where in_flight (settled w now) (tl_runs (sv_ledger sv))" "tl_runs (sv_ledger sv2) = ?rows"
    using assms(4-6) by (simp_all add: swept_rows_def swept(7))
  have "spaced now ?k every ?rows"
    using assms(14) by (auto simp: rows(1) spaced_def set_update_where settled_def close_row_def split: option.splits)
  then have due: "triggerIsDue now ?k every (sv_ledger sv2) = Inr True" unfolding due_iff by (simp add: rows(2) assms)
  have item: "(slug, meta, t) \<in> set (sweep_items w slugs')"
    using assms(6-10) swept(1,2) by (force simp: sweep_items_def)
  have still: "still ?k = Some x \<longleftrightarrow> x \<in> set ?rows \<and> in_flight x \<and> triggerRunKey x = ?k" for x
    unfolding swept(6) rows(1) using still_flying [of x w now "tl_runs (sv_ledger sv)"] by blast
  show ?thesis
  proof (cases "find (\<lambda>x. in_flight x \<and> triggerRunKey x = ?k) ?rows")
    case (Some run)
    then have "still ?k = Some run" unfolding still by (auto dest: find_SomeD)
    then show ?thesis using sweep_items_busy [OF swept(9) assms(2) swept(10) _ item assms(13) due] Some by simp
  next
    case None
    then have free: "x \<in> set ?rows \<Longrightarrow> in_flight x \<Longrightarrow> triggerRunKey x \<noteq> ?k" for x by (auto simp: find_None_iff)
    then have "still ?k = None" using still by (metis not_None_eq)
    moreover have "map tr_id ?rows = map tr_id (tl_runs (sv_ledger sv))"
      by (simp add: rows(1) update_where_def settled_def close_row_def split: option.split)
    then have "idle_for w ?k (sv_ledger sv2)" using free assms(16) by (simp add: idle_for_def rows(2) flip: set_map)
    ultimately have "concluded w slug t (sv_ledger sv2) r"
      using sweep_items_idle [OF swept(9) assms(2) swept(10) _ item assms(13) due assms(15) _ assms(17)] by blast
    then show ?thesis using None by (auto simp: concluded_def swept(7))
  qed
qed

text \<open>The dispatcher is up, and it is down.\<close>

definition fresh_wiring :: "bool \<Rightarrow> trigger_wiring" where
  "fresh_wiring up = (sample_wiring up)\<lparr>tw_uuid := (\<lambda>k. if k = sample_key then ''u2'' else ''u3'')\<rparr>"

theorem due_triggers_are_reported_witness:
  "sample_key \<in> tf_key ` set (sr_fired (fst (snd (SweepTriggers (fresh_wiring True) 9000 (sample_service [])))))
   \<and> (sample_key \<in> tf_key ` set (sr_fired (fst (snd (SweepTriggers (fresh_wiring False) 9000 (sample_service [])))))
      \<or> \<lparr>tp_key = sample_key, tp_exit_code = TriggerDispatchFailureExitCode\<rparr>
          \<in> set (sr_completed (fst (snd (SweepTriggers (fresh_wiring False) 9000 (sample_service []))))))"
proof -
  have e: "ParseDuration (tg_every sample_trigger) = Some 600000000000" by code_simp
  have key: "ws_key ''ws'' sample_trigger = sample_key" by (simp add: sample_trigger_def sample_key_def)
  have rep: "case find (\<lambda>x. in_flight x \<and> triggerRunKey x = sample_key) (swept_rows (fresh_wiring up) 9000 (sv_ledger (sample_service []))) of
      Some run \<Rightarrow> (\<exists>s \<in> set (sr_skipped r). ts_key s = sample_key \<and> ts_since s = tr_started_at run)
    | None \<Rightarrow>
        if can_start (fresh_wiring up) ''ws'' sample_trigger (sv_ledger (sample_service [])) then sample_key \<in> tf_key ` set (sr_fired r)
        else sample_key \<in> tf_key ` set (sr_fired r)
          \<or> \<lparr>tp_key = sample_key, tp_exit_code = TriggerDispatchFailureExitCode\<rparr> \<in> set (sr_completed r)"
    if sw: "SweepTriggers (fresh_wiring up) 9000 (sample_service []) = (None, r, sv')" for up r sv'
    unfolding key [symmetric]
    by (rule due_triggers_are_reported [OF _ _ sw _ _ _ _ _ _ _ _ _ e, where slugs = "[''ws'']" and meta = sample_meta and m = sample_automation])
      (simp_all add: key [unfolded sample_trigger_def, simplified] sample_service_def fresh_wiring_def sample_wiring_def sample_automation_def sample_meta_def
        sample_trigger_def spaced_def runs_ledger_def hydrateAutomationMeta_def trigger_inv_def project_index_def workspace_index_def)
  have none: "find P (swept_rows w 9000 (sv_ledger (sample_service []))) = None" for P w
    by (simp add: swept_rows_def sample_service_def runs_ledger_def update_where_def)
  have up: "can_start (fresh_wiring True) ''ws'' sample_trigger (sv_ledger (sample_service []))" by code_simp
  have ends: "\<exists>r sv'. SweepTriggers (fresh_wiring up) 9000 (sample_service []) = (None, r, sv')" for up
  proof -
    have "fst (SweepTriggers (fresh_wiring up) 9000 (sample_service [])) = None"
      by (simp add: SweepTriggers_def Let_def fresh_wiring_def sample_wiring_def sample_automation_def Option.is_none_def split: prod.split)
    then show ?thesis by (metis prod.collapse)
  qed
  from ends [of True] ends [of False] obtain r1 sv1 r2 sv2 where
    "SweepTriggers (fresh_wiring True) 9000 (sample_service []) = (None, r1, sv1)"
    "SweepTriggers (fresh_wiring False) 9000 (sample_service []) = (None, r2, sv2)" by blast
  then show ?thesis using rep [of True r1 sv1] rep [of False r2 sv2] up by (auto simp: none split: if_splits)
qed

section \<open>Configuration\<close>

definition well_formed_trigger :: "trigger \<Rightarrow> bool" where
  "well_formed_trigger t \<longleftrightarrow>
     tg_name t \<noteq> [] \<and> tg_run t \<noteq> [] \<and> tg_on t \<in> {[], ''schedule'', ''signals''}
     \<and> (\<exists>every. ParseDuration (tg_every t) = Some every \<and> every \<ge> TriggerSweepResolution)
     \<and> (tg_timeout t = [] \<and> TriggerTimeout t = 0
        \<or> ParseDuration (tg_timeout t) = Some (TriggerTimeout t) \<and> TriggerTimeout t > 0)"

lemma validate_triggers_iff:
  "validate_triggers i seen ts = Inr () \<longleftrightarrow>
     list_all well_formed_trigger ts \<and> distinct (map tg_name ts) \<and> set (map tg_name ts) \<inter> set seen = {}"
proof (induction ts arbitrary: i seen)
  case (Cons t ts)
  have empty: "ParseDuration [] = None" by code_simp
  have t: "(if tg_timeout t = [] then Inr () else case ParseDuration (tg_timeout t) of
        None \<Rightarrow> Inl (BadTimeout i) | Some timeout \<Rightarrow> guard (timeout > 0) (NonPositiveTimeout i)) = Inr () \<longleftrightarrow>
      (tg_timeout t = [] \<and> TriggerTimeout t = 0
        \<or> ParseDuration (tg_timeout t) = Some (TriggerTimeout t) \<and> TriggerTimeout t > 0)"
    using empty by (auto simp: TriggerTimeout_def guard_def split: option.splits)
  have "validate_triggers i seen (t # ts) = Inr () \<longleftrightarrow>
      well_formed_trigger t \<and> tg_name t \<notin> set seen \<and> validate_triggers (i + 1) (tg_name t # seen) ts = Inr ()"
    using empty t
    by (cases "ParseDuration (tg_every t)")
      (auto simp: well_formed_trigger_def TriggerSweepResolution_def guard_def and_then_def split: if_splits sum.splits)
  then show ?case using Cons by auto
qed simp

text \<open>
  \<open>ValidateTriggers\<close> accepts exactly the configurations the loop can run: distinct names, a command,
  a known \<open>on\<close>, a period that parses to at least the one minute of a tick, and a timeout that is
  undeclared or parses to a positive bound, which is then the bound the sweep enforces.
\<close>

theorem validated_triggers:
  "ValidateTriggers ts = Inr () \<longleftrightarrow> list_all well_formed_trigger ts \<and> distinct (map tg_name ts)"
  by (simp add: ValidateTriggers_def validate_triggers_iff)

section \<open>Failure streaks\<close>

text \<open>The failures of a trigger since its last success, on top of \<open>before\<close> earlier ones.\<close>

definition consecutive :: "trigger_key \<Rightarrow> int \<Rightarrow> trigger_completion list \<Rightarrow> int" where
  "consecutive k before cs =
     (let own = filter (\<lambda>c. tp_key c = k) cs; tail = takeWhile (\<lambda>c. tp_exit_code c \<noteq> 0) (rev own)
      in int (length tail) + (if length tail = length own then before else 0))"

lemma consecutive_snoc:
  "consecutive k before (cs @ [c]) =
     (if tp_key c \<noteq> k then consecutive k before cs
      else if tp_exit_code c = 0 then 0 else consecutive k before cs + 1)"
  by (simp add: consecutive_def Let_def)

lemma smod_3: "a smod 3 = 0 \<longleftrightarrow> 3 dvd a" for a :: int
  by (auto simp: signed_modulo_int_def signed_divide_int_def sgn_if abs_if)

lemma snoc_split:
  "(\<exists>us y vs. cs @ [x] = us @ y # vs \<and> P us y) \<longleftrightarrow> P cs x \<or> (\<exists>us y vs. cs = us @ y # vs \<and> P us y)"
proof
  assume "\<exists>us y vs. cs @ [x] = us @ y # vs \<and> P us y"
  then obtain us y vs where s: "cs @ [x] = us @ y # vs" "P us y" by blast
  then show "P cs x \<or> (\<exists>us y vs. cs = us @ y # vs \<and> P us y)" by (cases vs rule: rev_cases) auto
next
  show "\<exists>us y vs. cs @ [x] = us @ y # vs \<and> P us y" if "P cs x \<or> (\<exists>us y vs. cs = us @ y # vs \<and> P us y)"
    using that by (metis append_Cons append_assoc)
qed

lemma track_fail_fold:
  "fold track_fail cs ([], m) = (ns, m') \<Longrightarrow>
     streak m' k = consecutive k (streak m k) cs
     \<and> (NoticeFailing k n c \<in> set ns \<longleftrightarrow>
          (\<exists>us x vs. cs = us @ x # vs \<and> tp_key x = k \<and> tp_exit_code x = c \<and> c \<noteq> 0
             \<and> n = consecutive k (streak m k) (us @ [x]) \<and> 3 dvd n))"
proof (induction cs arbitrary: ns m' rule: rev_induct)
  case Nil
  then show ?case by (auto simp: consecutive_def)
next
  case (snoc x cs)
  obtain ns0 m0 where f: "fold track_fail cs ([], m) = (ns0, m0)" by fastforce
  note IH = snoc.IH [OF f]
  have last: "track_fail x (ns0, m0) = (ns, m')" using snoc.prems f by simp
  have new: "streak m' k = consecutive k (streak m k) (cs @ [x])"
    using last IH by (auto simp: track_fail_def consecutive_snoc streak_def Let_def split: if_splits)
  have "NoticeFailing k n c \<in> set ns \<longleftrightarrow> NoticeFailing k n c \<in> set ns0
      \<or> tp_key x = k \<and> tp_exit_code x = c \<and> c \<noteq> 0 \<and> n = consecutive k (streak m k) (cs @ [x]) \<and> 3 dvd n"
    using last IH by (auto simp: track_fail_def consecutive_snoc Let_def smod_3 TriggerStuckFailStreakThreshold_def split: if_splits)
  with IH new show ?case
    unfolding snoc_split [of cs x "\<lambda>us y. tp_key y = k \<and> tp_exit_code y = c \<and> c \<noteq> 0
      \<and> n = consecutive k (streak m k) (us @ [y]) \<and> 3 dvd n"] by blast
qed

text \<open>
  The loop tells about a failing trigger at every third failure in a row: its counter is the number of
  failed completions since the last success, completions of other triggers in between do not matter,
  and a notice is sent exactly at the completions where that number is a multiple of three.
\<close>

theorem failing_trigger_notices:
  "case trackFailStreak cs lp of (ns, lp') \<Rightarrow>
     streak (lp_fail_streak lp') k = consecutive k (streak (lp_fail_streak lp) k) cs
     \<and> lp_skip_streak lp' = lp_skip_streak lp
     \<and> (NoticeFailing k n c \<in> set ns \<longleftrightarrow>
          (\<exists>us x vs. cs = us @ x # vs \<and> tp_key x = k \<and> tp_exit_code x = c \<and> c \<noteq> 0
             \<and> n = consecutive k (streak (lp_fail_streak lp) k) (us @ [x]) \<and> 3 dvd n))"
proof -
  obtain ns m' where f: "fold track_fail cs ([], lp_fail_streak lp) = (ns, m')" by fastforce
  then show ?thesis using track_fail_fold [OF f] by (simp add: trackFailStreak_def)
qed

section \<open>Timeouts\<close>

text \<open>
  What happens to the service around timeouts: the sweep finds an overrun, a goroutine closes its run or
  ends, the sweep drains the reports, and any statement on the ledger.
\<close>

inductive timeout_step :: "trigger_service \<Rightarrow> trigger_service \<Rightarrow> bool" where
  overrun: "timeout_step sv (beginTimeOutTriggerRun key run timeout sv)"
| close_round: "e \<in> set (sv_endings sv) \<Longrightarrow> finishTimeOutTriggerRun w waits abort lifecycle now e sv = (stopped, sv') \<Longrightarrow>
    timeout_step sv sv'"
| exit_round: "e \<in> set (sv_endings sv) \<Longrightarrow>
    timeout_step sv (releaseTimeout (en_run_id e) (sv\<lparr>sv_endings := remove1 e (sv_endings sv)\<rparr>))"
| drain: "timeout_step sv (snd (drainTimeoutCompletions sv))"
| statement: "trigger_step (sv_ledger sv) ev db \<Longrightarrow> timeout_step sv (sv\<lparr>sv_ledger := db\<rparr>)"

definition claims_ok :: "trigger_service \<Rightarrow> bool" where
  "claims_ok sv \<longleftrightarrow>
     distinct (map en_run_id (sv_endings sv)) \<and> set (sv_timing_out sv) = set (map en_run_id (sv_endings sv))"

lemma timeout_step_claims:
  assumes "timeout_step sv sv'" "claims_ok sv"
  shows "claims_ok sv'"
  using assms(1)
proof (cases rule: timeout_step.cases)
  case (overrun key run timeout)
  then show ?thesis using assms(2) by (auto simp: claims_ok_def beginTimeOutTriggerRun_def claimTimeout_def)
next
  case (close_round e w waits abort lifecycle now stopped)
  then show ?thesis using assms(2)
    by (auto simp: claims_ok_def finishTimeOutTriggerRun_def stashTimeoutCompletion_def Let_def split: if_splits sum.splits)
next
  case (exit_round e)
  obtain us vs where e: "sv_endings sv = us @ e # vs" "e \<notin> set us"
    using exit_round(2) by (metis split_list_first)
  then have "remove1 e (sv_endings sv) = us @ vs" by (simp add: remove1_append)
  then show ?thesis using assms(2) e exit_round(1) by (auto simp: claims_ok_def releaseTimeout_def)
qed (use assms(2) in \<open>auto simp: claims_ok_def drainTimeoutCompletions_def\<close>)

text \<open>
  C33. A round is ended by at most one goroutine at a time: however sweeps, goroutines and statements
  interleave, the goroutines alive belong to distinct runs, and the runs claimed are exactly theirs, so a
  claim is never left behind once its goroutine is gone.
\<close>

theorem one_goroutine_per_round:
  assumes "timeout_step\<^sup>*\<^sup>* sv sv'" "sv_endings sv = []" "sv_timing_out sv = []"
  shows "distinct (map en_run_id (sv_endings sv')) \<and> set (sv_timing_out sv') = set (map en_run_id (sv_endings sv'))"
proof -
  from assms(1) have "claims_ok sv \<longrightarrow> claims_ok sv'" by induction (auto intro: timeout_step_claims)
  then show ?thesis using assms(2,3) by (simp add: claims_ok_def)
qed

theorem one_goroutine_per_round_witness:
  "\<exists>sv'. timeout_step\<^sup>*\<^sup>* (sample_service []) sv' \<and> sv_timing_out sv' = [''u1'']
     \<and> map en_run_id (sv_endings sv') = [''u1''] \<and> distinct (map en_run_id (sv_endings sv'))"
proof -
  let ?b = "\<lambda>sv. beginTimeOutTriggerRun sample_key (sample_run ''u1'') 5 sv"
  let ?sv = "?b (?b (sample_service []))"
  have run: "timeout_step\<^sup>*\<^sup>* (sample_service []) ?sv"
    using overrun [of "sample_service []"] overrun [of "?b (sample_service [])"]
    by (blast intro: rtranclp.rtrancl_into_rtrancl)
  have sv: "sv_timing_out ?sv = [''u1''] \<and> map en_run_id (sv_endings ?sv) = [''u1'']"
    by (simp add: beginTimeOutTriggerRun_def claimTimeout_def sample_service_def sample_run_def)
  have d: "distinct (map en_run_id (sv_endings ?sv))"
    by (rule one_goroutine_per_round [OF run, THEN conjunct1]) (simp_all add: sample_service_def)
  show ?thesis
    by (rule exI [of _ ?sv]) (intro conjI run sv [THEN conjunct1] sv [THEN conjunct2] d)
qed

end
