(* ===== verification/Task_Identity.thy ===== *)
theory Task_Identity
  imports Task_Model Trigger_Runs
begin

text \<open>
  The index of external identities, \<open>task_identity.go\<close>: an identity such as a ticket key names at most one
  task per project, or per workspace for tasks without a project. The tasks are read through \<open>GetTask\<close> of
  \<open>store.go\<close>, which falls back to a prefix match.
\<close>

section \<open>Tables\<close>

text \<open>An empty project id stands for \<open>NULL\<close>, as do an empty URL and an empty display name.\<close>

record identity_row =
  id_identity :: string
  id_project_id :: string
  id_workspace_id :: string
  id_task_id :: string
  id_created_at :: time
  id_url :: string
  id_display_name :: string

record identity_store =
  is_rows :: "identity_row list"
  is_tasks :: "task list"

record identity_scope =
  sc_project_id :: string
  sc_workspace_id :: string

record task_identity =
  ti_identity :: string
  ti_url :: string
  ti_display_name :: string

datatype identity_error =
    ErrIdentityArgument string
  | ErrIdentityScope
  | ErrIdentityForeignScope
  | ErrIdentityConflict
  | ErrIdentityBindingChanged
  | ErrIdentityURL
  | ErrIdentityInsert
  | ErrTaskNotFound

text \<open>\<open>UNIQUE (project_id, identity)\<close>, where \<open>NULL\<close> is never equal, and \<open>idx_task_identities_workspace\<close>.\<close>

definition identity_project_index :: "identity_row list \<Rightarrow> bool" where
  "identity_project_index rows \<longleftrightarrow> uniq_on (\<lambda>r. (id_project_id r, id_identity r)) (\<lambda>r. id_project_id r \<noteq> []) rows"

definition identity_workspace_index :: "identity_row list \<Rightarrow> bool" where
  "identity_workspace_index rows \<longleftrightarrow> uniq_on (\<lambda>r. (id_workspace_id r, id_identity r)) (\<lambda>r. id_project_id r = []) rows"

section \<open>Reading a task\<close>

text \<open>SQLite's \<open>LIKE\<close>: \<open>%\<close> and \<open>_\<close> are wildcards, ASCII letters match in either case.\<close>

fun sql_like :: "string \<Rightarrow> string \<Rightarrow> bool" where
  "sql_like [] s = (s = [])"
| "sql_like (p # ps) s =
     (if p = CHR ''%'' then list_ex (\<lambda>n. sql_like ps (drop n s)) [0..<Suc (length s)]
      else case s of
        [] \<Rightarrow> False
      | c # cs \<Rightarrow> (p = CHR ''_'' \<or> lower_byte p = lower_byte c) \<and> sql_like ps cs)"

definition GetTask :: "string \<Rightarrow> identity_store \<Rightarrow> identity_error + task" where
  "GetTask tid st =
     (case find (\<lambda>t. t_id t = tid) (is_tasks st) of
        Some t \<Rightarrow> Inr t
      | None \<Rightarrow>
          if length tid < 8 then Inl ErrTaskNotFound
          else case find (\<lambda>t. sql_like (tid @ ''%'') (t_id t)) (is_tasks st) of
            Some t \<Rightarrow> Inr t
          | None \<Rightarrow> Inl ErrTaskNotFound)"

section \<open>Scopes\<close>

definition scope_validate :: "identity_scope \<Rightarrow> identity_error + unit" where
  "scope_validate scope =
     (if sc_project_id scope \<noteq> [] then Inr ()
      else guard (sc_workspace_id scope \<noteq> [] \<and> ValidWorkspaceSlug (sc_workspace_id scope)) ErrIdentityScope)"

definition scope_predicate :: "identity_scope \<Rightarrow> identity_row \<Rightarrow> bool" where
  "scope_predicate scope r =
     (if sc_project_id scope = [] then id_project_id r = [] \<and> id_workspace_id r = sc_workspace_id scope
      else id_project_id r = sc_project_id scope)"

definition binds :: "identity_scope \<Rightarrow> string \<Rightarrow> identity_row \<Rightarrow> bool" where
  "binds scope identity r \<longleftrightarrow> scope_predicate scope r \<and> id_identity r = identity"

definition queryIdentityTaskID :: "identity_scope \<Rightarrow> string \<Rightarrow> identity_store \<Rightarrow> string" where
  "queryIdentityTaskID scope identity st =
     (case find (binds scope identity) (is_rows st) of None \<Rightarrow> [] | Some r \<Rightarrow> id_task_id r)"

section \<open>Operations\<close>

text \<open>
  After a violated unique index the row that won is read again: the same task is success, another one a
  conflict.
\<close>

definition insert_identity :: "identity_scope \<Rightarrow> identity_row \<Rightarrow> identity_store \<Rightarrow> identity_error + identity_store" where
  "insert_identity scope row st =
     (let rows = is_rows st @ [row] in
      if id_workspace_id row = [] then Inl ErrIdentityInsert
      else if \<not> identity_project_index rows \<or> \<not> identity_workspace_index rows
      then (let raceTaskID = queryIdentityTaskID scope (id_identity row) st in
            if raceTaskID = [] then Inl ErrIdentityInsert
            else if raceTaskID = id_task_id row then Inr st else Inl ErrIdentityConflict)
      else if id_task_id row \<notin> set (map t_id (is_tasks st)) then Inl ErrIdentityInsert
      else Inr (st\<lparr>is_rows := rows\<rparr>))"

definition task_in_scope :: "identity_scope \<Rightarrow> task \<Rightarrow> bool" where
  "task_in_scope scope t =
     (if sc_project_id scope = [] then t_project_id t = [] \<and> t_workspace_id t = sc_workspace_id scope
      else t_project_id t = sc_project_id scope)"

definition LinkIdentityInScope ::
  "time \<Rightarrow> identity_scope \<Rightarrow> string \<Rightarrow> string \<Rightarrow> identity_store \<Rightarrow> identity_error + identity_store" where
  "LinkIdentityInScope now scope identity taskID st =
     and_then (guard (identity \<noteq> []) (ErrIdentityArgument ''identity must not be empty'')) (\<lambda>_.
     and_then (scope_validate scope) (\<lambda>_.
     and_then (guard (taskID \<noteq> []) (ErrIdentityArgument ''task id must not be empty'')) (\<lambda>_.
     and_then (GetTask taskID st) (\<lambda>t.
     and_then (guard (task_in_scope scope t) ErrIdentityForeignScope) (\<lambda>_.
     let existingTaskID = queryIdentityTaskID scope identity st in
     if existingTaskID \<noteq> [] then (if existingTaskID = taskID then Inr st else Inl ErrIdentityConflict)
     else insert_identity scope
       \<lparr>id_identity = identity, id_project_id = sc_project_id scope, id_workspace_id = t_workspace_id t,
        id_task_id = taskID, id_created_at = now, id_url = [], id_display_name = []\<rparr> st)))))"

definition UnlinkIdentityInScope :: "identity_scope \<Rightarrow> string \<Rightarrow> identity_store \<Rightarrow> identity_error + identity_store" where
  "UnlinkIdentityInScope scope identity st =
     and_then (guard (identity \<noteq> []) (ErrIdentityArgument ''identity must not be empty'')) (\<lambda>_.
     and_then (scope_validate scope) (\<lambda>_.
     Inr (st\<lparr>is_rows := delete_where (binds scope identity) (is_rows st)\<rparr>)))"

definition UnlinkAllForTask :: "string \<Rightarrow> identity_store \<Rightarrow> identity_store" where
  "UnlinkAllForTask taskID st = st\<lparr>is_rows := delete_where (\<lambda>r. id_task_id r = taskID) (is_rows st)\<rparr>"

definition ResolveIdentityInScope :: "identity_scope \<Rightarrow> string \<Rightarrow> identity_store \<Rightarrow> identity_error + task" where
  "ResolveIdentityInScope scope identity st =
     and_then (guard (identity \<noteq> []) (ErrIdentityArgument ''identity must not be empty'')) (\<lambda>_.
     and_then (scope_validate scope) (\<lambda>_.
     let taskID = queryIdentityTaskID scope identity st in
     if taskID = [] then Inl ErrTaskNotFound else GetTask taskID st))"

text \<open>\<open>valid_url\<close> is the verdict of \<open>ValidateIdentityURL\<close>.\<close>

definition UpdateIdentityMetadataInScope ::
  "(string \<Rightarrow> bool) \<Rightarrow> identity_scope \<Rightarrow> string \<Rightarrow> string \<Rightarrow> string option \<Rightarrow> string option \<Rightarrow> identity_store \<Rightarrow>
     identity_error + identity_store" where
  "UpdateIdentityMetadataInScope valid_url scope identity taskID urlValue displayName st =
     and_then (scope_validate scope) (\<lambda>_.
     and_then (guard (identity \<noteq> []) (ErrIdentityArgument ''identity metadata requires an identity'')) (\<lambda>_.
     and_then (guard (taskID \<noteq> []) (ErrIdentityArgument ''identity metadata requires an expected task'')) (\<lambda>_.
     and_then (case urlValue of None \<Rightarrow> Inr () | Some u \<Rightarrow> guard (valid_url u) ErrIdentityURL) (\<lambda>_.
     if urlValue = None \<and> displayName = None then Inr st
     else let P = (\<lambda>r. binds scope identity r \<and> id_task_id r = taskID) in
       and_then (guard (rows_affected P (is_rows st) = 1) ErrIdentityBindingChanged) (\<lambda>_.
       Inr (st\<lparr>is_rows := update_where P
         (\<lambda>r. r\<lparr>id_url := (case urlValue of None \<Rightarrow> id_url r | Some u \<Rightarrow> u),
                id_display_name := (case displayName of None \<Rightarrow> id_display_name r | Some d \<Rightarrow> d)\<rparr>) (is_rows st)\<rparr>))))))"

definition ListIdentityMetadataByTask :: "string \<Rightarrow> identity_store \<Rightarrow> task_identity list" where
  "ListIdentityMetadataByTask taskID st =
     map (\<lambda>r. \<lparr>ti_identity = id_identity r, ti_url = id_url r, ti_display_name = id_display_name r\<rparr>)
       (select_order id_identity (\<lambda>r. id_task_id r = taskID) (is_rows st))"

definition ListIdentitiesByTask :: "string \<Rightarrow> identity_store \<Rightarrow> string list" where
  "ListIdentitiesByTask taskID st =
     map id_identity (select_order id_identity (\<lambda>r. id_task_id r = taskID) (is_rows st))"

text \<open>The project-scoped entry points.\<close>

definition LinkIdentity :: "time \<Rightarrow> string \<Rightarrow> string \<Rightarrow> string \<Rightarrow> identity_store \<Rightarrow> identity_error + identity_store" where
  "LinkIdentity now projectID identity taskID st =
     LinkIdentityInScope now \<lparr>sc_project_id = projectID, sc_workspace_id = []\<rparr> identity taskID st"

definition UnlinkIdentity :: "string \<Rightarrow> string \<Rightarrow> identity_store \<Rightarrow> identity_error + identity_store" where
  "UnlinkIdentity projectID identity st =
     UnlinkIdentityInScope \<lparr>sc_project_id = projectID, sc_workspace_id = []\<rparr> identity st"

definition UpdateIdentityMetadata ::
  "(string \<Rightarrow> bool) \<Rightarrow> string \<Rightarrow> string \<Rightarrow> string \<Rightarrow> string option \<Rightarrow> string option \<Rightarrow> identity_store \<Rightarrow>
     identity_error + identity_store" where
  "UpdateIdentityMetadata valid_url projectID identity taskID urlValue displayName st =
     UpdateIdentityMetadataInScope valid_url \<lparr>sc_project_id = projectID, sc_workspace_id = []\<rparr> identity taskID
       urlValue displayName st"

definition ResolveIdentity :: "string \<Rightarrow> string \<Rightarrow> identity_store \<Rightarrow> identity_error + task" where
  "ResolveIdentity projectID identity st =
     ResolveIdentityInScope \<lparr>sc_project_id = projectID, sc_workspace_id = []\<rparr> identity st"

end
