(* ===== verification/Identity_Properties.thy ===== *)
theory Identity_Properties
  imports Task_Identity
begin

text \<open>The properties of the identity index.\<close>

section \<open>Invariant\<close>

definition identities_ok :: "identity_store \<Rightarrow> bool" where
  "identities_ok st \<longleftrightarrow>
     distinct (map t_id (is_tasks st)) \<and> [] \<notin> set (map t_id (is_tasks st))
     \<and> identity_project_index (is_rows st) \<and> identity_workspace_index (is_rows st)
     \<and> list_all (\<lambda>r. id_task_id r \<in> set (map t_id (is_tasks st))) (is_rows st)"

text \<open>The scope a row belongs to.\<close>

definition row_scope :: "identity_row \<Rightarrow> string \<times> string \<times> string" where
  "row_scope r = (id_project_id r, if id_project_id r = [] then id_workspace_id r else [], id_identity r)"

lemma binds_scope:
  "binds scope identity r \<longleftrightarrow>
     row_scope r = (sc_project_id scope, if sc_project_id scope = [] then sc_workspace_id scope else [], identity)"
  by (auto simp: binds_def scope_predicate_def row_scope_def)

text \<open>Both indexes together allow one row per scope and identity.\<close>

lemma identity_index:
  "identity_project_index rows \<and> identity_workspace_index rows \<longleftrightarrow> distinct (map row_scope rows)"
  unfolding identity_project_index_def identity_workspace_index_def uniq_on_def
  by (induction rows) (auto simp: row_scope_def image_iff)

lemma query_None: "queryIdentityTaskID scope i st = [] \<Longrightarrow> identities_ok st \<Longrightarrow> find (binds scope i) (is_rows st) = None"
  by (auto simp: queryIdentityTaskID_def identities_ok_def list_all_iff split: option.splits dest!: find_SomeD) metis

lemma GetTask_exact:
  assumes "identities_ok st" "t \<in> set (is_tasks st)"
  shows "GetTask (t_id t) st = Inr t"
  using find_distinct_key [of t_id "is_tasks st" t] assms by (simp add: GetTask_def identities_ok_def)

section \<open>Linking\<close>

lemma link_cases:
  assumes ok: "identities_ok st" and link: "LinkIdentityInScope now scope i tid st = Inr st'"
  obtains (same) r where "st' = st" "find (binds scope i) (is_rows st) = Some r" "id_task_id r = tid"
    | (new) r where "st' = st\<lparr>is_rows := is_rows st @ [r]\<rparr>" "find (binds scope i) (is_rows st) = None"
      "binds scope i r" "id_task_id r = tid" "tid \<in> set (map t_id (is_tasks st))" "identities_ok st'"
proof -
  obtain t where t: "GetTask tid st = Inr t" "task_in_scope scope t" and tid: "tid \<noteq> []"
    using link by (auto simp: LinkIdentityInScope_def Let_def)
  show thesis
  proof (cases "queryIdentityTaskID scope i st = []")
    case False
    then obtain r where "find (binds scope i) (is_rows st) = Some r" "id_task_id r = queryIdentityTaskID scope i st"
      by (auto simp: queryIdentityTaskID_def split: option.splits)
    then show thesis using same link False by (auto simp: LinkIdentityInScope_def Let_def split: if_splits)
  next
    case True
    let ?r = "\<lparr>id_identity = i, id_project_id = sc_project_id scope, id_workspace_id = t_workspace_id t,
        id_task_id = tid, id_created_at = now, id_url = [], id_display_name = []\<rparr>"
    have "insert_identity scope ?r st = Inr st'"
      using link t True by (auto simp: LinkIdentityInScope_def Let_def)
    then have ins: "st' = st\<lparr>is_rows := is_rows st @ [?r]\<rparr>" "tid \<in> set (map t_id (is_tasks st))"
        "identity_project_index (is_rows st @ [?r])" "identity_workspace_index (is_rows st @ [?r])"
      using True by (auto simp: insert_identity_def Let_def split: if_splits)
    have "binds scope i ?r" using t(2) by (auto simp: binds_def scope_predicate_def task_in_scope_def)
    moreover have "identities_ok st'" using ok ins by (simp add: identities_ok_def)
    ultimately show thesis using new [of ?r] ins query_None [OF True ok] by simp
  qed
qed

lemma find_binds_snoc:
  "find (binds scope i) (rows @ [r]) = (case find (binds scope i) rows of Some x \<Rightarrow> Some x
     | None \<Rightarrow> if binds scope i r then Some r else None)"
  by (induction rows) auto

section \<open>Every operation keeps the index\<close>

text \<open>The operations on the index, and the creation, change and deletion of tasks with its cascade.\<close>

inductive identity_step :: "identity_store \<Rightarrow> identity_store \<Rightarrow> bool" where
  link: "LinkIdentityInScope now scope i tid st = Inr st' \<Longrightarrow> identity_step st st'"
| unlink: "UnlinkIdentityInScope scope i st = Inr st' \<Longrightarrow> identity_step st st'"
| unlink_all: "identity_step st (UnlinkAllForTask tid st)"
| metadata: "UpdateIdentityMetadataInScope valid_url scope i tid u d st = Inr st' \<Longrightarrow> identity_step st st'"
| new_task: "t_id t \<noteq> [] \<Longrightarrow> t_id t \<notin> set (map t_id (is_tasks st)) \<Longrightarrow> identity_step st (st\<lparr>is_tasks := is_tasks st @ [t]\<rparr>)"
| edit_task: "map t_id ts = map t_id (is_tasks st) \<Longrightarrow> identity_step st (st\<lparr>is_tasks := ts\<rparr>)"
| delete_task: "identity_step st (st\<lparr>is_tasks := delete_where (\<lambda>t. t_id t = tid) (is_tasks st),
    is_rows := delete_where (\<lambda>r. id_task_id r = tid) (is_rows st)\<rparr>)"

lemma identities_ok_iff:
  "identities_ok st \<longleftrightarrow>
     distinct (map t_id (is_tasks st)) \<and> [] \<notin> set (map t_id (is_tasks st)) \<and> distinct (map row_scope (is_rows st))
     \<and> list_all (\<lambda>r. id_task_id r \<in> set (map t_id (is_tasks st))) (is_rows st)"
  unfolding identities_ok_def using identity_index by blast

lemma identities_ok_delete:
  "identities_ok st \<Longrightarrow> identities_ok (st\<lparr>is_rows := delete_where P (is_rows st)\<rparr>)"
  by (auto simp: identities_ok_iff delete_where_def distinct_map_filter list_all_iff)

lemma identities_ok_update:
  assumes "identities_ok st" "map row_scope rows = map row_scope (is_rows st)"
    "map id_task_id rows = map id_task_id (is_rows st)"
  shows "identities_ok (st\<lparr>is_rows := rows\<rparr>)"
proof -
  have "list_all (\<lambda>r. id_task_id r \<in> A) rs = list_all (\<lambda>i. i \<in> A) (map id_task_id rs)" for A rs
    by (simp add: list.pred_map o_def)
  from this [of _ rows] this [of _ "is_rows st"] show ?thesis using assms by (auto simp: identities_ok_iff)
qed

lemma identity_step_ok:
  assumes "identity_step st st'" "identities_ok st"
  shows "identities_ok st'"
  using assms(1)
proof (cases rule: identity_step.cases)
  case (link now scope i tid)
  show ?thesis using assms(2) by (rule link_cases [OF _ link]) (use assms(2) in auto)
next
  case (metadata valid_url scope i tid u d)
  then show ?thesis
    using assms(2)
    by (auto simp: UpdateIdentityMetadataInScope_def Let_def row_scope_def split: if_splits
        intro!: identities_ok_update map_update_where)
next
  case (new_task t)
  then show ?thesis using assms(2) by (auto simp: identities_ok_iff list_all_iff)
next
  case (edit_task ts)
  then show ?thesis using assms(2) by (simp add: identities_ok_iff flip: set_map)
next
  case (delete_task tid)
  then show ?thesis using assms(2)
    by (auto simp: identities_ok_iff delete_where_def distinct_map_filter list_all_iff)
qed (use assms(2) identities_ok_delete in \<open>auto simp: UnlinkIdentityInScope_def UnlinkAllForTask_def\<close>)

section \<open>One task per identity\<close>

text \<open>
  C39. An identity names one task. In every store that the operations reach, after a link the identity resolves to
  that task, every other identity resolves as before, linking the same task again changes nothing, and
  linking another task is refused.
\<close>

theorem link_then_resolve:
  assumes "identities_ok st0" "identity_step\<^sup>*\<^sup>* st0 st" "LinkIdentityInScope now scope i tid st = Inr st'"
  shows "is_tasks st' = is_tasks st
    \<and> (\<exists>t. ResolveIdentityInScope scope i st' = Inr t \<and> t_id t = tid)
    \<and> LinkIdentityInScope now' scope i tid st' = Inr st'
    \<and> (tid' \<noteq> tid \<longrightarrow> \<not> is_ok (LinkIdentityInScope now' scope i tid' st'))
    \<and> (\<not> (\<forall>r. binds scope' i' r = binds scope i r) \<longrightarrow>
         queryIdentityTaskID scope' i' st' = queryIdentityTaskID scope' i' st)"
proof -
  from assms(2,1) have ok: "identities_ok st" by induction (auto intro: identity_step_ok)
  have args: "i \<noteq> []" "scope_validate scope = Inr ()" "tid \<noteq> []"
    using assms(3) by (auto simp: LinkIdentityInScope_def Let_def)
  have st': "identities_ok st'" "is_tasks st' = is_tasks st" "queryIdentityTaskID scope i st' = tid"
    "tid \<in> set (map t_id (is_tasks st))"
    using ok
    by (rule link_cases [OF _ assms(3)];
        auto simp: queryIdentityTaskID_def find_binds_snoc identities_ok_def list_all_iff dest!: find_SomeD)+
  obtain t where t: "t \<in> set (is_tasks st)" "t_id t = tid" using st'(4) by auto
  have get: "GetTask tid st' = Inr t" using GetTask_exact [OF st'(1), of t] t st'(2) by simp
  have other: "queryIdentityTaskID scope' i' st' = queryIdentityTaskID scope' i' st"
    if "\<not> (\<forall>r. binds scope' i' r = binds scope i r)"
    using ok
  proof (rule link_cases [OF _ assms(3)])
    fix r assume "st' = st\<lparr>is_rows := is_rows st @ [r]\<rparr>" "binds scope i r"
    moreover from this(2) that have "\<not> binds scope' i' r" by (auto simp: binds_scope)
    ultimately show ?thesis by (simp add: queryIdentityTaskID_def find_binds_snoc split: option.splits)
  qed simp
  have inscope: "task_in_scope scope t"
    using assms(3) GetTask_exact [OF ok t(1)] t(2) by (auto simp: LinkIdentityInScope_def Let_def)
  show ?thesis
    using st' args get t(2) other inscope
    by (auto simp: ResolveIdentityInScope_def LinkIdentityInScope_def Let_def and_then_def split: sum.splits)
qed

definition identity_sample :: identity_store where
  "identity_sample =
     \<lparr>is_rows = [],
      is_tasks = [\<lparr>t_id = ''c1'', t_type = TaskTypeUnknown [], t_project_id = ''p'', t_workspace_id = ''w'',
        t_remote_id = [], t_title = [], t_description = [], t_status = Parked, t_ref = [],
        t_parent_id = [], t_idempotency_key = [], t_created_at = 0, t_updated_at = 0,
        t_card = None, t_exec = None, t_total_child_count = 0, t_done_child_count = 0, t_aborted_child_count = 0,
        t_open_child_count = 0, t_awaiting_child_count = 0, t_blocked = False\<rparr>]\<rparr>"

theorem link_then_resolve_witness:
  "\<exists>st'. LinkIdentity 5 ''p'' ''jira:1'' ''c1'' identity_sample = Inr st'
     \<and> map_option t_id (case ResolveIdentity ''p'' ''jira:1'' st' of Inl _ \<Rightarrow> None | Inr t \<Rightarrow> Some t) = Some ''c1''"
proof -
  have "is_ok (LinkIdentity 5 ''p'' ''jira:1'' ''c1'' identity_sample)" by code_simp
  then obtain st' where l: "LinkIdentity 5 ''p'' ''jira:1'' ''c1'' identity_sample = Inr st'" by (auto simp: is_ok_iff)
  have ok: "identities_ok identity_sample"
    by (simp add: identities_ok_def identity_sample_def identity_project_index_def identity_workspace_index_def)
  obtain t where "ResolveIdentity ''p'' ''jira:1'' st' = Inr t" "t_id t = ''c1''"
    using link_then_resolve [OF ok rtranclp.rtrancl_refl l [unfolded LinkIdentity_def]]
    unfolding ResolveIdentity_def by blast
  then show ?thesis using l by simp
qed

end
