(* ===== verification/Card_Detail.thy ===== *)
theory Card_Detail
  imports Card_Outcome
begin

text \<open>
  The attributes of a card, \<open>card.go\<close>: the card columns of a task row, and the detail blob with its
  \<open>children\<close> list, its \<open>attrs\<close> object and the suggestion in it. The blob is schema-light: every
  function replaces one top-level key and leaves the others alone.
\<close>

section \<open>Children\<close>

record child_spec =
  cs_project :: string
  cs_behavior :: string
  cs_description :: string
  cs_instruction :: string

record triage_child =
  ch_id :: string
  ch_title :: string
  ch_status :: string
  ch_spec :: "child_spec option"
  ch_task_ref :: string

definition ChildOpen :: string where "ChildOpen = ''open''"

definition ChildSpecced :: string where "ChildSpecced = ''specced''"

definition ChildDispatched :: string where "ChildDispatched = ''dispatched''"

definition ChildClosed :: string where "ChildClosed = ''closed''"

lemmas child_status_defs = ChildOpen_def ChildSpecced_def ChildDispatched_def ChildClosed_def

datatype detail_error =
  ErrDetailChildren | ErrDetailMap | ErrDetailAttrs | ErrChildNotFound string | ErrChildDispatched string

definition spec_zero :: child_spec where
  "spec_zero = \<lparr>cs_project = [], cs_behavior = [], cs_description = [], cs_instruction = []\<rparr>"

definition spec_fields :: "(string \<times> child_spec field_dec) list" where
  "spec_fields =
     [(''project'', dec_string (\<lambda>s r. r\<lparr>cs_project := s\<rparr>)), (''behavior'', dec_string (\<lambda>s r. r\<lparr>cs_behavior := s\<rparr>)),
      (''description'', dec_string (\<lambda>s r. r\<lparr>cs_description := s\<rparr>)),
      (''instruction'', dec_string (\<lambda>s r. r\<lparr>cs_instruction := s\<rparr>))]"

text \<open>A pointer field: \<open>null\<close> gives nil, an object decodes into the struct pointed to, or a new one.\<close>

definition dec_spec :: "triage_child field_dec" where
  "dec_spec v r =
     (if v = JNull then Some (r\<lparr>ch_spec := None\<rparr>)
      else map_option (\<lambda>s. r\<lparr>ch_spec := Some s\<rparr>)
             (decode_struct spec_fields v (case ch_spec r of None \<Rightarrow> spec_zero | Some s \<Rightarrow> s)))"

definition child_zero :: triage_child where
  "child_zero = \<lparr>ch_id = [], ch_title = [], ch_status = [], ch_spec = None, ch_task_ref = []\<rparr>"

definition child_fields :: "(string \<times> triage_child field_dec) list" where
  "child_fields =
     [(''id'', dec_string (\<lambda>s r. r\<lparr>ch_id := s\<rparr>)), (''title'', dec_string (\<lambda>s r. r\<lparr>ch_title := s\<rparr>)),
      (''status'', dec_string (\<lambda>s r. r\<lparr>ch_status := s\<rparr>)), (''spec'', dec_spec),
      (''task_ref'', dec_string (\<lambda>s r. r\<lparr>ch_task_ref := s\<rparr>))]"

definition wrapper_fields :: "(string \<times> triage_child list field_dec) list" where
  "wrapper_fields = [(''children'', dec_slice child_zero (decode_struct child_fields) (\<lambda>cs _. cs))]"

definition DetailChildren :: "raw_message \<Rightarrow> detail_error + triage_child list" where
  "DetailChildren detail =
     (if detail = RawEmpty \<or> detail = Raw JNull then Inr []
      else case unmarshal_struct wrapper_fields detail [] of
        None \<Rightarrow> Inl ErrDetailChildren | Some cs \<Rightarrow> Inr cs)"

definition occupies_slot :: "triage_child \<Rightarrow> bool" where
  "occupies_slot c \<longleftrightarrow> ch_status c = ChildOpen \<or> ch_status c = ChildSpecced"

definition DetailOpenSlotChildID :: "raw_message \<Rightarrow> detail_error + string" where
  "DetailOpenSlotChildID detail =
     and_then (DetailChildren detail) (\<lambda>cs.
     Inr (case find occupies_slot cs of None \<Rightarrow> [] | Some c \<Rightarrow> ch_id c))"

definition CountUnresolvedChildren :: "raw_message \<Rightarrow> task list \<Rightarrow> detail_error + nat" where
  "CountUnresolvedChildren detail live =
     and_then (DetailChildren detail) (\<lambda>cs.
     let jsonOccupants = remdups (map ch_id (filter occupies_slot cs)) in
     Inr (length jsonOccupants
          + length (filter (\<lambda>t. \<not> IsTerminalStatus (t_status t) \<and> \<not> (t_ref t \<noteq> [] \<and> t_ref t \<in> set jsonOccupants)) live)))"

text \<open>Marshalling: the fields marked \<open>omitempty\<close> are left out when empty.\<close>

definition omit_empty :: "string \<times> string \<Rightarrow> (string \<times> json) list" where
  "omit_empty kv = (if snd kv = [] then [] else [(fst kv, JStr (snd kv))])"

definition marshal_spec :: "child_spec \<Rightarrow> json" where
  "marshal_spec s =
     JObj ((''project'', JStr (cs_project s)) # omit_empty (''behavior'', cs_behavior s)
       @ omit_empty (''description'', cs_description s) @ omit_empty (''instruction'', cs_instruction s))"

definition marshal_child :: "triage_child \<Rightarrow> json" where
  "marshal_child c =
     JObj ((''id'', JStr (ch_id c)) # omit_empty (''title'', ch_title c) @ (''status'', JStr (ch_status c))
       # (case ch_spec c of None \<Rightarrow> [] | Some s \<Rightarrow> [(''spec'', marshal_spec s)]) @ omit_empty (''task_ref'', ch_task_ref c))"

definition parseDetailMap :: "raw_message \<Rightarrow> detail_error + gomap" where
  "parseDetailMap detail =
     (if detail = RawEmpty \<or> detail = Raw JNull then Inr []
      else case unmarshal_map detail of None \<Rightarrow> Inl ErrDetailMap | Some m \<Rightarrow> Inr m)"

text \<open>The callers pass a list with at least one child.\<close>

definition SetDetailChildren :: "raw_message \<Rightarrow> triage_child list \<Rightarrow> detail_error + raw_message" where
  "SetDetailChildren detail children =
     and_then (parseDetailMap detail) (\<lambda>m.
     Inr (Raw (marshal_map (AList.update ''children'' (JArr (map marshal_child children)) m))))"

definition AddDetailChild :: "raw_message \<Rightarrow> triage_child \<Rightarrow> detail_error + raw_message" where
  "AddDetailChild detail child =
     and_then (DetailChildren detail) (\<lambda>children.
     if ch_id child \<in> set (map ch_id children) then Inr detail
     else SetDetailChildren detail
       (children @ [child\<lparr>ch_status := (if ch_status child = [] then ChildOpen else ch_status child)\<rparr>]))"

text \<open>The update of the first child that satisfies a predicate.\<close>

fun update_first :: "('a \<Rightarrow> bool) \<Rightarrow> ('a \<Rightarrow> 'a) \<Rightarrow> 'a list \<Rightarrow> 'a list" where
  "update_first P f [] = []"
| "update_first P f (x # xs) = (if P x then f x # xs else x # update_first P f xs)"

definition SpecDetailChild :: "raw_message \<Rightarrow> string \<Rightarrow> child_spec \<Rightarrow> string \<Rightarrow> detail_error + raw_message" where
  "SpecDetailChild detail cid spec title =
     and_then (DetailChildren detail) (\<lambda>children.
     case find (\<lambda>c. ch_id c = cid) children of
       None \<Rightarrow> Inl (ErrChildNotFound cid)
     | Some c \<Rightarrow>
         if ch_status c = ChildDispatched \<or> ch_status c = ChildClosed then Inr detail
         else SetDetailChildren detail
           (update_first (\<lambda>c. ch_id c = cid)
             (\<lambda>c. c\<lparr>ch_spec := Some spec, ch_title := (if title \<noteq> [] then title else ch_title c),
                    ch_status := ChildSpecced\<rparr>) children))"

definition MarkDetailChildClosed :: "raw_message \<Rightarrow> string \<Rightarrow> detail_error + (raw_message \<times> bool)" where
  "MarkDetailChildClosed detail childTaskID =
     and_then (DetailChildren detail) (\<lambda>children.
     let P = (\<lambda>c. ch_task_ref c = childTaskID \<and> ch_status c \<noteq> ChildClosed) in
     if list_ex P children
     then and_then (SetDetailChildren detail (update_first P (\<lambda>c. c\<lparr>ch_status := ChildClosed\<rparr>) children))
            (\<lambda>newDetail. Inr (newDetail, True))
     else Inr (detail, False))"

definition DropDetailChild :: "raw_message \<Rightarrow> string \<Rightarrow> detail_error + (raw_message \<times> bool)" where
  "DropDetailChild detail cid =
     and_then (DetailChildren detail) (\<lambda>children.
     case find (\<lambda>c. ch_id c = cid) children of
       None \<Rightarrow> Inl (ErrChildNotFound cid)
     | Some c \<Rightarrow>
         if ch_status c = ChildClosed then Inr (detail, False)
         else if ch_status c = ChildDispatched then Inl (ErrChildDispatched cid)
         else and_then (SetDetailChildren detail
                (update_first (\<lambda>c. ch_id c = cid) (\<lambda>c. c\<lparr>ch_status := ChildClosed\<rparr>) children))
              (\<lambda>newDetail. Inr (newDetail, True)))"

section \<open>Attributes\<close>

definition StripDetailAttrs :: "raw_message \<Rightarrow> string list \<Rightarrow> detail_error + raw_message" where
  "StripDetailAttrs detail keys =
     and_then (parseDetailMap detail) (\<lambda>m.
     case map_of m ''attrs'' of
       None \<Rightarrow> Inr detail
     | Some raw \<Rightarrow>
         if raw = JNull then Inr detail
         else case unmarshal_map (Raw raw) of
           None \<Rightarrow> Inl ErrDetailAttrs
         | Some attrs \<Rightarrow>
             if list_all (\<lambda>k. map_of attrs k = None) keys then Inr detail
             else Inr (Raw (marshal_map (AList.update ''attrs''
                    (marshal_map (fold AList.delete keys attrs)) m))))"

definition FoldDetailAttrs :: "raw_message \<Rightarrow> gomap \<Rightarrow> detail_error + raw_message" where
  "FoldDetailAttrs detail patch =
     and_then (parseDetailMap detail) (\<lambda>m.
     and_then (case map_of m ''attrs'' of
                 None \<Rightarrow> Inr []
               | Some raw \<Rightarrow>
                   if raw = JNull then Inr []
                   else (case unmarshal_map (Raw raw) of None \<Rightarrow> Inl ErrDetailAttrs | Some a \<Rightarrow> Inr a)) (\<lambda>attrs.
     Inr (Raw (marshal_map (AList.update ''attrs'' (marshal_map (maps_copy attrs patch)) m)))))"

section \<open>The suggestion\<close>

record suggestion =
  sg_verb :: string
  sg_action :: string
  sg_reason :: string
  sg_basis :: string

definition suggestion_zero :: suggestion where
  "suggestion_zero = \<lparr>sg_verb = [], sg_action = [], sg_reason = [], sg_basis = []\<rparr>"

definition suggestion_fields :: "(string \<times> suggestion field_dec) list" where
  "suggestion_fields =
     [(''verb'', dec_string (\<lambda>s r. r\<lparr>sg_verb := s\<rparr>)), (''action'', dec_string (\<lambda>s r. r\<lparr>sg_action := s\<rparr>)),
      (''reason'', dec_string (\<lambda>s r. r\<lparr>sg_reason := s\<rparr>)), (''basis'', dec_string (\<lambda>s r. r\<lparr>sg_basis := s\<rparr>))]"

definition decodeSuggestion :: "json option \<Rightarrow> suggestion option" where
  "decodeSuggestion raw =
     (case raw of
        None \<Rightarrow> None
      | Some v \<Rightarrow>
          if v = JNull then None
          else case decode_struct suggestion_fields v suggestion_zero of
            None \<Rightarrow> None
          | Some s \<Rightarrow> if s = suggestion_zero then None else Some s)"

text \<open>The two places of a suggestion, in the order they are tried.\<close>

definition suggestion_candidates :: "raw_message \<Rightarrow> json option list" where
  "suggestion_candidates detail =
     (if detail = RawEmpty \<or> detail = Raw JNull then []
      else case unmarshal_map detail of
        None \<Rightarrow> []
      | Some m \<Rightarrow>
          map_of m ''suggestion''
          # (case map_of m ''attrs'' of
               None \<Rightarrow> []
             | Some raw \<Rightarrow> (case unmarshal_map (Raw raw) of None \<Rightarrow> [] | Some attrs \<Rightarrow> [map_of attrs ''suggestion''])))"

definition DetailSuggestion :: "raw_message \<Rightarrow> suggestion option" where
  "DetailSuggestion detail =
     (case find (\<lambda>c. decodeSuggestion c \<noteq> None) (suggestion_candidates detail) of
        None \<Rightarrow> None | Some c \<Rightarrow> decodeSuggestion c)"

definition DetailSuggestionRaw :: "raw_message \<Rightarrow> json option" where
  "DetailSuggestionRaw detail =
     (case find (\<lambda>c. decodeSuggestion c \<noteq> None) (suggestion_candidates detail) of
        None \<Rightarrow> None | Some c \<Rightarrow> c)"

section \<open>The card columns of a task row\<close>

definition card_zero :: "string \<Rightarrow> card_attrs" where
  "card_zero taskID =
     \<lparr>ca_task_id = taskID, ca_kind = [], ca_urgency = [], ca_wake_at = None, ca_wake_task_id = [],
      ca_suggestion_verb = [], ca_detail = RawEmpty\<rparr>"

definition is_card_row :: "string \<Rightarrow> task \<Rightarrow> bool" where
  "is_card_row taskID t \<longleftrightarrow> t_id t = taskID \<and> t_type t = TaskTypeCard"

text \<open>\<open>None\<close> is \<open>sql.ErrNoRows\<close>.\<close>

definition GetTaskTriage :: "string \<Rightarrow> orch_store \<Rightarrow> card_attrs option" where
  "GetTaskTriage taskID st =
     (case find (is_card_row taskID) (st_tasks st) of
        None \<Rightarrow> None
      | Some t \<Rightarrow> Some (case t_card t of None \<Rightarrow> card_zero taskID | Some ca \<Rightarrow> ca\<lparr>ca_task_id := taskID\<rparr>))"

definition UpsertTaskTriage :: "card_attrs \<Rightarrow> orch_store \<Rightarrow> orch_store option" where
  "UpsertTaskTriage tt st =
     (if ca_task_id tt = [] then None
      else let tt' = tt\<lparr>ca_detail := (if ca_detail tt = RawEmpty then Raw (JObj []) else ca_detail tt)\<rparr> in
      if rows_affected (is_card_row (ca_task_id tt)) (st_tasks st) = 0 then None
      else Some (st\<lparr>st_tasks := update_where (is_card_row (ca_task_id tt)) (\<lambda>t. t\<lparr>t_card := Some tt'\<rparr>) (st_tasks st)\<rparr>))"

definition DeleteTaskTriage :: "string \<Rightarrow> orch_store \<Rightarrow> orch_store option" where
  "DeleteTaskTriage taskID st =
     (if rows_affected (is_card_row taskID) (st_tasks st) = 0 then None
      else Some (st\<lparr>st_tasks := update_where (is_card_row taskID)
             (\<lambda>t. t\<lparr>t_card := Some ((card_zero taskID)\<lparr>ca_detail := Raw (JObj [])\<rparr>)\<rparr>) (st_tasks st)\<rparr>))"

text \<open>The ids are queried in chunks and the rows collected; a chunk whose query fails is not modelled.\<close>

definition ListTaskTriageByTaskIDs :: "string list \<Rightarrow> orch_store \<Rightarrow> (string \<times> card_attrs) list" where
  "ListTaskTriageByTaskIDs taskIDs st =
     map (\<lambda>t. (t_id t, case t_card t of None \<Rightarrow> card_zero (t_id t) | Some ca \<Rightarrow> ca\<lparr>ca_task_id := t_id t\<rparr>))
       (filter (\<lambda>t. t_type t = TaskTypeCard \<and> t_id t \<in> set taskIDs) (st_tasks st))"

text \<open>
  \<open>None\<close> stands for no park action, or one without a known origin. The query orders by time only: \<open>one\<close> is the
  row that SQLite returns among the park actions of the latest time.
\<close>

definition ParkedFrom :: "(action list \<Rightarrow> action) \<Rightarrow> string \<Rightarrow> orch_store \<Rightarrow> task_status option" where
  "ParkedFrom one taskID st =
     (let parks = filter (\<lambda>a. ac_task_id a = taskID \<and> ac_type a = ''park'') (st_actions st);
          latest = filter (\<lambda>a. list_all (\<lambda>b. ac_created_at b \<le> ac_created_at a) parks) parks
      in if latest = [] then None else ac_from_status (one latest))"

end
