(* ===== verification/Card_Detail_Facts.thy ===== *)
theory Card_Detail_Facts
  imports Card_Detail
begin

text \<open>
  The detail blob read back after a write: the children, the attributes and every key that a function does not
  name. Decoding into a struct also accepts a member that spells a field in another case, so the order in which
  the members are written matters: the exact name sorts after every other spelling and is decoded last.
\<close>

section \<open>Other spellings of a field\<close>

lemma fold_name_plain: "CHR ''S'' \<notin> set (fold_name s) \<Longrightarrow> CHR ''K'' \<notin> set (fold_name s) \<Longrightarrow> fold_name s = map upper_byte s"
  by (induction s rule: fold_name.induct) (auto split: if_splits)

lemma lex_le: "list_all2 (\<le>) xs ys \<Longrightarrow> xs \<le> (ys :: 'a :: linorder list)"
  by (induction rule: list_all2_induct) (auto simp: order.order_iff_strict)

lemma upper_byte_le:
  assumes "upper_byte c = upper_byte d" "97 \<le> (of_char d :: nat)" "(of_char d :: nat) \<le> 122"
  shows "c \<le> d"
proof -
  have "(of_char (upper_byte d) :: nat) = of_char d - 32" using assms(2,3) by (simp add: upper_byte_def)
  moreover have "(of_char (upper_byte c) :: nat) =
      (if 97 \<le> (of_char c :: nat) \<and> (of_char c :: nat) \<le> 122 then of_char c - 32 else of_char c)"
    by (auto simp: upper_byte_def Let_def)
  ultimately show ?thesis using assms by (auto simp: less_eq_char_def split: if_splits)
qed

definition spells_children :: "string \<Rightarrow> bool" where
  "spells_children k \<longleftrightarrow> fold_name k = fold_name ''children''"

lemma children_spelling:
  assumes "spells_children k"
  shows "k \<le> ''children''"
proof -
  note assms = assms [unfolded spells_children_def]
  have up: "fold_name ''children'' = map upper_byte ''children''" "map upper_byte ''children'' = ''CHILDREN''" by code_simp+
  then have "fold_name k = map upper_byte k" using assms by (intro fold_name_plain) simp_all
  then have eq: "map upper_byte k = map upper_byte ''children''" using assms up(1) by argo
  then have "length k = length ''children''" by (rule map_eq_imp_length_eq)
  then have "list_all2 (\<lambda>c d. upper_byte c = upper_byte d) k ''children''"
    unfolding list_all2_conv_all_nth using eq by (metis nth_map)
  moreover have "list_all (\<lambda>c. 97 \<le> (of_char c :: nat) \<and> (of_char c :: nat) \<le> 122) ''children''" by code_simp
  ultimately show ?thesis
    by (intro lex_le) (auto simp: list_all2_conv_all_nth list_all_length intro: upper_byte_le)
qed

section \<open>Children round trip\<close>

lemma marshal_spec_decode: "decode_struct spec_fields (marshal_spec s) spec_zero = Some s"
  by (cases s) (simp add: marshal_spec_def decode_struct_def omit_empty_def spec_fields_def find_field_def dec_string_def
      spec_zero_def)

lemma marshal_child_decode: "decode_struct child_fields (marshal_child c) child_zero = Some c"
proof -
  have spec: "dec_spec (marshal_spec s) r = Some (r\<lparr>ch_spec := Some s\<rparr>)" if "ch_spec r = None" for s r
    using that marshal_spec_decode [of s] by (simp add: dec_spec_def marshal_spec_def)
  show ?thesis
    by (cases c; cases "ch_spec c")
      (simp_all add: marshal_child_def decode_struct_def omit_empty_def child_fields_def find_field_def dec_string_def
        child_zero_def spec)
qed

definition parse_children :: "json \<Rightarrow> triage_child list option" where
  "parse_children v =
     (case v of
        JNull \<Rightarrow> Some []
      | JArr vs \<Rightarrow> those (map (\<lambda>x. decode_struct child_fields x child_zero) vs)
      | _ \<Rightarrow> None)"

lemma find_children_field:
  "find_field wrapper_fields k =
     (if spells_children k then Some (\<lambda>v _. parse_children v) else None)"
  unfolding spells_children_def
  by (auto simp: find_field_def wrapper_fields_def dec_slice_def parse_children_def option.map_ident fun_eq_iff
      split: json.splits simp del: fold_name.simps)

lemma spells_children_exact [simp]: "spells_children ''children''"
  by (simp add: spells_children_def)

lemma parse_children_marshal: "parse_children (JArr (map marshal_child cs)) = Some cs"
proof -
  have "those (map (\<lambda>x. decode_struct child_fields x child_zero) (map marshal_child cs)) = Some cs"
    by (induction cs) (simp_all add: marshal_child_decode)
  then show ?thesis by (simp add: parse_children_def)
qed

definition spellings_decode :: "(string \<times> json) list \<Rightarrow> bool" where
  "spellings_decode ms =
     list_all (\<lambda>(k, v). spells_children k \<longrightarrow> parse_children v \<noteq> None) ms"

lemma decode_members_spellings: "(\<exists>cs. decode_members wrapper_fields ms r = Some cs) \<longleftrightarrow> spellings_decode ms"
proof (induction ms arbitrary: r)
  case (Cons kv ms)
  then show ?case
    by (cases kv; cases "parse_children (snd kv)") (auto simp: spellings_decode_def find_children_field)
qed (simp add: spellings_decode_def)

lemma decode_members_append:
  "decode_members fs (as @ bs) r = (case decode_members fs as r of None \<Rightarrow> None | Some r' \<Rightarrow> decode_members fs bs r')"
  by (induction as arbitrary: r) (auto split: option.splits)

lemma sorted_after:
  assumes "sorted (map fst (as @ (f, v) # bs))" "distinct (map fst (as @ (f, v) # bs))" "k \<in> fst ` set bs"
  shows "\<not> k \<le> (f :: 'a :: linorder)"
proof -
  have "f \<le> k" "f \<noteq> k" using assms by (auto simp: sorted_append)
  then show ?thesis by simp
qed

lemma decode_last_spelling:
  assumes "spellings_decode ms" "sorted (map fst ms)" "distinct (map fst ms)" "map_of ms ''children'' = Some v"
  shows "decode_members wrapper_fields ms r = parse_children v"
proof -
  from assms(4) obtain as bs where ms: "ms = as @ (''children'', v) # bs"
    by (metis map_of_SomeD split_list)
  have "\<not> spells_children k" if "k \<in> fst ` set bs" for k
    using sorted_after [OF assms(2,3) [unfolded ms] that] children_spelling by blast
  then have tail: "decode_members wrapper_fields bs cs = Some cs" for cs
    by (induction bs) (auto simp: find_children_field)
  obtain r' where "decode_members wrapper_fields as r = Some r'"
    using assms(1) decode_members_spellings [of as r] by (auto simp: ms spellings_decode_def)
  then show ?thesis
    by (simp add: ms decode_members_append find_children_field tail split: option.splits)
qed

lemma DetailChildren_ok:
  "(\<exists>cs. DetailChildren d = Inr cs) \<longleftrightarrow>
     d = RawEmpty \<or> d = Raw JNull \<or> (\<exists>ms. d = Raw (JObj ms) \<and> spellings_decode ms)"
proof (cases "\<exists>ms. d = Raw (JObj ms)")
  case True
  then obtain ms where d: "d = Raw (JObj ms)" by blast
  show ?thesis
    using decode_members_spellings [of ms "[]"]
    by (auto simp: d DetailChildren_def unmarshal_struct_def decode_struct_def split: option.splits)
next
  case False
  then show ?thesis
    by (auto simp: DetailChildren_def unmarshal_struct_def decode_struct_def split: raw_message.splits json.splits)
qed

lemma parseDetailMap_at:
  assumes "parseDetailMap d = Inr m"
  shows "map_of m k = payload_at d k" "distinct (map fst m)"
proof -
  show "map_of m k = payload_at d k"
    using assms payload_at_blank [of d k] by (auto simp: parseDetailMap_def payload_at_def split: if_splits option.splits)
  show "distinct (map fst m)"
    using assms unmarshal_map_distinct by (auto simp: parseDetailMap_def split: if_splits option.splits)
qed

lemma spellings_mono: "spellings_decode ms \<Longrightarrow> set ms' \<subseteq> set ms \<Longrightarrow> spellings_decode ms'"
  by (auto simp: spellings_decode_def list_all_iff)

lemma set_update_subset: "set (AList.update k v m) \<subseteq> insert (k, v) (set m)"
  by (induction m) auto

lemma set_clearjunk: "set (AList.clearjunk al) \<subseteq> set al"
  by (induction al rule: AList.clearjunk.induct) (auto simp: AList.delete_eq)

lemma set_go_map: "set (go_map ms) \<subseteq> set ms"
  unfolding go_map_def by (metis set_clearjunk set_rev)

text \<open>Writing the children of a blob whose children can be read: they are read back, and every other key stays.\<close>

lemma set_children:
  assumes "DetailChildren d = Inr old"
  obtains d' where "SetDetailChildren d cs = Inr d'" "DetailChildren d' = Inr cs"
    "\<And>k. k \<noteq> ''children'' \<Longrightarrow> payload_at d' k = payload_at d k"
proof -
  obtain m where m: "parseDetailMap d = Inr m" "spellings_decode m"
    using assms DetailChildren_ok [of d] spellings_mono [OF _ set_go_map]
    by (auto simp: parseDetailMap_def unmarshal_map_def spellings_decode_def)
  let ?v = "JArr (map marshal_child cs)" and ?m = "AList.update ''children'' (JArr (map marshal_child cs)) m"
  note at = parseDetailMap_at [OF m(1)]
  have dist: "distinct (map fst ?m)" using at(2) by (rule distinct_update)
  have "spellings_decode (sort_key fst ?m)"
    using m(2) set_update_subset [of "''children''" ?v m] parse_children_marshal [of cs]
    by (auto simp: spellings_decode_def list_all_iff)
  moreover have "distinct (map fst (sort_key fst ?m))" using dist by (simp add: distinct_map)
  moreover have "map_of (sort_key fst ?m) ''children'' = Some ?v" by (simp add: map_of_sort_key [OF dist] update_conv')
  ultimately have "decode_members wrapper_fields (sort_key fst ?m) [] = Some cs"
    using decode_last_spelling [of "sort_key fst ?m" ?v "[]"] parse_children_marshal [of cs] by simp
  then have "DetailChildren (Raw (marshal_map ?m)) = Inr cs"
    by (simp add: DetailChildren_def marshal_map_def unmarshal_struct_def decode_struct_def)
  moreover have "payload_at (Raw (marshal_map ?m)) k = payload_at d k" if "k \<noteq> ''children''" for k
    using that at(1) dist by (simp add: update_conv')
  ultimately show thesis using that [of "Raw (marshal_map ?m)"] m(1) by (simp add: SetDetailChildren_def)
qed

section \<open>Children only progress\<close>

definition child_rank :: "string \<Rightarrow> nat" where
  "child_rank s = (if s = ChildClosed then 3 else if s = ChildDispatched then 2 else if s = ChildSpecced then 1 else 0)"

definition child_le :: "triage_child \<Rightarrow> triage_child \<Rightarrow> bool" where
  "child_le c c' \<longleftrightarrow> ch_id c' = ch_id c \<and> child_rank (ch_status c) \<le> child_rank (ch_status c')
     \<and> (2 \<le> child_rank (ch_status c) \<longrightarrow> ch_spec c' = ch_spec c \<and> ch_task_ref c' = ch_task_ref c)"

definition progress :: "triage_child list \<Rightarrow> triage_child list \<Rightarrow> bool" where
  "progress cs cs' \<longleftrightarrow> list_all2 child_le cs (take (length cs) cs')"

lemma child_le_refl [simp]: "child_le c c"
  by (simp add: child_le_def)

lemma child_le_trans: "child_le a b \<Longrightarrow> child_le b c \<Longrightarrow> child_le a c"
  by (auto simp: child_le_def)

lemma progress_iff: "progress cs cs' \<longleftrightarrow> (\<exists>old new. cs' = old @ new \<and> list_all2 child_le cs old)"
proof
  assume "\<exists>old new. cs' = old @ new \<and> list_all2 child_le cs old"
  then obtain old new where "cs' = old @ new" "list_all2 child_le cs old" by blast
  moreover then have "length old = length cs" by (simp add: list_all2_lengthD)
  ultimately show "progress cs cs'" by (simp add: progress_def)
next
  assume "progress cs cs'"
  then show "\<exists>old new. cs' = old @ new \<and> list_all2 child_le cs old"
    by (metis append_take_drop_id progress_def)
qed

lemma progress_refl [simp]: "progress cs cs"
  by (simp add: progress_def list_all2_refl)

lemma progress_append [simp]: "progress cs (cs @ new)"
  by (simp add: progress_def list_all2_refl)

lemma progress_trans:
  assumes "progress a b" "progress b c"
  shows "progress a c"
proof -
  obtain old new where b: "b = old @ new" "list_all2 child_le a old" using assms(1) by (auto simp: progress_iff)
  obtain old' new' where c: "c = old' @ new'" "list_all2 child_le b old'" using assms(2) by (auto simp: progress_iff)
  from c(2) obtain x y where x: "old' = x @ y" "list_all2 child_le old x" unfolding b(1) list_all2_append1 by blast
  have "list_all2 child_le a x" by (rule list_all2_trans [OF child_le_trans b(2) x(2)])
  then show ?thesis unfolding progress_iff c(1) x(1) by (intro exI [of _ x] exI [of _ "y @ new'"]) simp
qed

lemma progress_update_first:
  assumes "\<And>c. find P cs = Some c \<Longrightarrow> child_le c (f c)"
  shows "progress cs (update_first P f cs)"
proof -
  have "list_all2 child_le cs (update_first P f cs)"
    using assms by (induction cs) (auto simp: list_all2_refl split: if_splits)
  then show ?thesis by (auto simp: progress_iff intro: exI [of _ "[]"])
qed

lemma map_update_first: "(\<And>c. c \<in> set cs \<Longrightarrow> P c \<Longrightarrow> g (f c) = g c) \<Longrightarrow> map g (update_first P f cs) = map g cs"
  by (induction cs) auto

end
