(* ===== verification/Task_Rows.thy ===== *)
theory Task_Rows
  imports Card_Detail Card_Release Task_Identity Go_Time
begin

text \<open>
  The rows of the tasks table as the workflow service reads and writes them: \<open>GetTask\<close>, \<open>ListChildren\<close>,
  \<open>UpdateTask\<close> and \<open>TouchTaskUpdatedAt\<close> of \<open>store.go\<close>, and what a request carries in its context.
\<close>

section \<open>Reading\<close>

text \<open>The counts of direct children, which every read of a task computes.\<close>

definition with_counts :: "orch_store \<Rightarrow> task \<Rightarrow> task" where
  "with_counts st t =
     (let children = filter (\<lambda>c. t_parent_id c = t_id t) (st_tasks st);
          count = (\<lambda>P. length (filter P children))
      in t\<lparr>t_total_child_count := length children,
           t_done_child_count := count (\<lambda>c. t_status c = Done),
           t_aborted_child_count := count (\<lambda>c. t_status c = Aborted),
           t_open_child_count := count (\<lambda>c. \<not> IsTerminalStatus (t_status c)),
           t_awaiting_child_count := count (\<lambda>c. t_status c = Awaiting)\<rparr>)"

text \<open>\<open>None\<close> is \<open>ErrTaskNotFound\<close>; the id may be a prefix, as in \<open>GetTask\<close>.\<close>

definition read_task :: "string \<Rightarrow> orch_store \<Rightarrow> task option" where
  "read_task tid st =
     (case GetTask tid \<lparr>is_rows = [], is_tasks = st_tasks st\<rparr> of
        Inl _ \<Rightarrow> None | Inr t \<Rightarrow> Some (with_counts st t))"

definition ListChildren :: "string \<Rightarrow> orch_store \<Rightarrow> task list" where
  "ListChildren parentID st =
     (if parentID = [] then []
      else map (with_counts st) (select_order t_created_at (\<lambda>t. t_parent_id t = parentID) (st_tasks st)))"

section \<open>Writing\<close>

text \<open>
  The columns that \<open>UpdateTask\<close> sets. The type, the reference, the keys, the creation time, the behavior and the
  columns of a card are not among them.
\<close>

definition write_row :: "time \<Rightarrow> string \<Rightarrow> task \<Rightarrow> task \<Rightarrow> task" where
  "write_row now workspaceID t r =
     r\<lparr>t_project_id := t_project_id t, t_workspace_id := workspaceID, t_remote_id := t_remote_id t,
       t_title := t_title t, t_description := t_description t, t_status := t_status t,
       t_exec := map_option (\<lambda>e. e\<lparr>ex_behavior := (case t_exec r of None \<Rightarrow> ex_behavior e | Some old \<Rightarrow> ex_behavior old)\<rparr>)
                   (t_exec t),
       t_parent_id := t_parent_id t, t_updated_at := now\<rparr>"

text \<open>
  \<open>project_ws\<close> is the workspace of a project that may own a task. The status must be one of the row's type, which
  the table checks. \<open>None\<close> is any error.
\<close>

definition UpdateTask :: "(string \<Rightarrow> string option) \<Rightarrow> time \<Rightarrow> task \<Rightarrow> orch_store \<Rightarrow> orch_store option" where
  "UpdateTask project_ws now t st =
     (if \<not> is_ok (validateTaskTypeConsistency t) then None
      else case find (\<lambda>r. t_id r = t_id t) (st_tasks st) of
        None \<Rightarrow> None
      | Some old \<Rightarrow>
          (case (if t_project_id old = t_project_id t then Some (t_workspace_id old) else project_ws (t_project_id t)) of
             None \<Rightarrow> None
           | Some workspaceID \<Rightarrow>
               if t_status t \<notin> type_statuses (t_type old) then None
               else Some (st\<lparr>st_tasks := update_where (\<lambda>r. t_id r = t_id t) (write_row now workspaceID t) (st_tasks st)\<rparr>)))"

definition TouchTaskUpdatedAt :: "time \<Rightarrow> string \<Rightarrow> orch_store \<Rightarrow> orch_store" where
  "TouchTaskUpdatedAt now tid st =
     st\<lparr>st_tasks := update_where (\<lambda>r. t_id r = tid) (\<lambda>r. r\<lparr>t_updated_at := now\<rparr>) (st_tasks st)\<rparr>"

section \<open>A request\<close>

text \<open>The HTTP codes of a \<open>StatusError\<close>; its text is left out.\<close>

datatype http_error = BadRequest | Forbidden | NotFound | Conflict | ServerError

text \<open>
  What the context of a request and the service give to its statements: the actor, the id of the request the writer
  works for, the clock, the ids drawn for the new rows by a label, the resolver of card events, the projects, and the
  texts, by a label, of the errors whose text is left out.
\<close>

record request_ctx =
  cx_actor :: string
  cx_writer :: "string option"
  cx_now :: time
  cx_gen :: "string \<Rightarrow> string"
  cx_events :: "card_event_resolver option"
  cx_project_ws :: "string \<Rightarrow> string option"
  cx_text :: "string \<Rightarrow> string"

text \<open>The ids drawn by one part of a request, apart from those of its other parts.\<close>

definition labelled :: "string \<Rightarrow> request_ctx \<Rightarrow> request_ctx" where
  "labelled l cx = cx\<lparr>cx_gen := \<lambda>l'. cx_gen cx (l @ CHR '':'' # l')\<rparr>"

lemma labelled_simps [simp]:
  "cx_actor (labelled l cx) = cx_actor cx" "cx_writer (labelled l cx) = cx_writer cx" "cx_now (labelled l cx) = cx_now cx"
  "cx_events (labelled l cx) = cx_events cx" "cx_project_ws (labelled l cx) = cx_project_ws cx"
  "cx_text (labelled l cx) = cx_text cx"
  "cx_gen (labelled l cx) l' = cx_gen cx (l @ CHR '':'' # l')"
  by (simp_all add: labelled_def)

definition ActorHuman :: string where "ActorHuman = ''human''"

definition ActorDaemon :: string where "ActorDaemon = ''daemon''"

definition ActorTask :: "string \<Rightarrow> string" where "ActorTask taskID = ''task:'' @ taskID"

definition of_option :: "'e \<Rightarrow> 'a option \<Rightarrow> 'e + 'a" where
  "of_option e x = (case x of None \<Rightarrow> Inl e | Some a \<Rightarrow> Inr a)"

lemma of_option_eq [simp]: "of_option e x = Inr a \<longleftrightarrow> x = Some a" "of_option e x = Inl e' \<longleftrightarrow> x = None \<and> e = e'"
  by (auto simp: of_option_def split: option.splits)

definition tx_UpdateTask :: "request_ctx \<Rightarrow> task \<Rightarrow> orch_store \<Rightarrow> http_error + orch_store" where
  "tx_UpdateTask cx t st = of_option ServerError (UpdateTask (cx_project_ws cx) (cx_now cx) t st)"

definition tx_CreateAction :: "request_ctx \<Rightarrow> string \<Rightarrow> action \<Rightarrow> orch_store \<Rightarrow> http_error + (action \<times> orch_store)" where
  "tx_CreateAction cx label a st =
     map_err (\<lambda>_. ServerError)
       (CreateAction (cx_gen cx label) (cx_gen cx (''request:'' @ label)) (cx_now cx) (cx_writer cx) a (cx_events cx) st)"

definition tx_Upsert :: "card_attrs \<Rightarrow> orch_store \<Rightarrow> http_error + orch_store" where
  "tx_Upsert tt st = of_option ServerError (UpsertTaskTriage tt st)"

definition new_action :: "string \<Rightarrow> string \<Rightarrow> task_status option \<Rightarrow> task_status option \<Rightarrow> raw_message \<Rightarrow> string \<Rightarrow> action" where
  "new_action taskID ty from to payload actor =
     \<lparr>ac_id = [], ac_task_id = taskID, ac_type = ty, ac_payload = payload, ac_from_status = from,
      ac_to_status = to, ac_created_at = zero_time, ac_actor = actor\<rparr>"

end
