(* ===== verification/Lifecycle_Traits.thy ===== *)
theory Lifecycle_Traits
  imports Task_Model
begin

text \<open>
  \<open>conditions.go\<close> and \<open>lifecycle.go\<close>: dotted-path reads of a payload (\<open>TraitBool\<close>,
  \<open>TraitExists\<close>, \<open>TraitGetString\<close>), the lifecycle traits derived from a task's action log
  (\<open>DeriveLifecycle\<close>) and their transient injection into the payload the state machine reads
  (\<open>injectLifecycle\<close>).

  \<open>strings.Cut(trait, ".")\<close> followed by the recursive call on the tail walks the segments of the
  path, so each reader recurses on \<open>split_on CHR ''.'' trait\<close>.
\<close>

section \<open>Dotted-path reads\<close>

fun trait_bool :: "string list \<Rightarrow> raw_message \<Rightarrow> bool" where
  "trait_bool [] p = False"
| "trait_bool (head # tail) p =
     (case unmarshal_map p of
        None \<Rightarrow> False
      | Some m \<Rightarrow>
          (case map_of m head of
             None \<Rightarrow> False
           | Some v \<Rightarrow> if tail = [] then v = JBool True else trait_bool tail (Raw v)))"

definition TraitBool :: "raw_message \<Rightarrow> string \<Rightarrow> bool" where
  "TraitBool payload trait = trait_bool (split_on CHR ''.'' trait) payload"

fun trait_exists :: "string list \<Rightarrow> raw_message \<Rightarrow> bool" where
  "trait_exists [] p = False"
| "trait_exists (head # tail) p =
     (case unmarshal_map p of
        None \<Rightarrow> False
      | Some m \<Rightarrow>
          (case map_of m head of
             None \<Rightarrow> False
           | Some v \<Rightarrow>
               if v = JNull then False
               else if tail = [] then True
               else trait_exists tail (Raw v)))"

definition TraitExists :: "raw_message \<Rightarrow> string \<Rightarrow> bool" where
  "TraitExists payload trait = trait_exists (split_on CHR ''.'' trait) payload"

fun trait_get_string :: "string list \<Rightarrow> raw_message \<Rightarrow> string option" where
  "trait_get_string [] p = None"
| "trait_get_string (head # tail) p =
     (case unmarshal_map p of
        None \<Rightarrow> None
      | Some m \<Rightarrow>
          (case map_of m head of
             None \<Rightarrow> None
           | Some v \<Rightarrow> if tail = [] then unmarshal_string v else trait_get_string tail (Raw v)))"

definition TraitGetString :: "raw_message \<Rightarrow> string \<Rightarrow> string option" where
  "TraitGetString payload trait = trait_get_string (split_on CHR ''.'' trait) payload"

section \<open>Lifecycle traits\<close>

record abort_reason =
  ab_code :: string
  ab_message :: string

record lifecycle =
  lc_executed :: bool
  lc_done :: "string option"
  lc_fail :: "string option"
  lc_abort :: "abort_reason option"

text \<open>A report is its message; \<open>doneReportFromPayload\<close> and \<open>failReportFromPayload\<close> agree.\<close>

definition message_field :: "(string \<times> string field_dec) list" where
  "message_field = [(''message'', dec_string (\<lambda>s _. s))]"

definition doneReportFromPayload :: "raw_message \<Rightarrow> string" where
  "doneReportFromPayload p =
     (if blank_raw p then [] else case unmarshal_struct message_field p [] of None \<Rightarrow> [] | Some m \<Rightarrow> m)"

definition failReportFromPayload :: "raw_message \<Rightarrow> string" where
  "failReportFromPayload p =
     (if blank_raw p then [] else case unmarshal_struct message_field p [] of None \<Rightarrow> [] | Some m \<Rightarrow> m)"

text \<open>Decoding into \<open>map[string]string\<close>: every value a string, or \<open>null\<close> for the empty string.\<close>

definition unmarshal_string_map :: "raw_message \<Rightarrow> (string \<times> string) list option" where
  "unmarshal_string_map p =
     (case unmarshal_map p of
        None \<Rightarrow> None
      | Some m \<Rightarrow>
          if \<forall>kv \<in> set m. unmarshal_string (snd kv) \<noteq> None
          then Some (map (\<lambda>kv. (fst kv, the (unmarshal_string (snd kv)))) m) else None)"

definition abortReasonFromPayload :: "raw_message \<Rightarrow> abort_reason" where
  "abortReasonFromPayload p =
     (let get = (\<lambda>m k. case map_of m k of None \<Rightarrow> [] | Some s \<Rightarrow> s) in
      if blank_raw p then \<lparr>ab_code = [], ab_message = []\<rparr>
      else case unmarshal_string_map p of
        None \<Rightarrow> \<lparr>ab_code = [], ab_message = []\<rparr>
      | Some m \<Rightarrow> \<lparr>ab_code = get m ''code'', ab_message = get m ''message''\<rparr>)"

text \<open>One iteration of the loop of \<open>DeriveLifecycle\<close>.\<close>

definition derive_step :: "action \<Rightarrow> lifecycle \<Rightarrow> lifecycle" where
  "derive_step a lc =
     (let lc1 = (if ac_to_status a = Some Executing then lc\<lparr>lc_done := None, lc_fail := None\<rparr> else lc);
          lc2 =
            (if ac_type a = ''done_request'' then
               lc1\<lparr>lc_done := Some (doneReportFromPayload (ac_payload a)), lc_fail := None\<rparr>
             else if ac_type a = ''fail_request'' then
               lc1\<lparr>lc_fail := Some (failReportFromPayload (ac_payload a)), lc_done := None\<rparr>
             else lc1)
      in if ac_to_status a = Some Aborted \<and> lc_abort lc2 = None
         then lc2\<lparr>lc_abort := Some (abortReasonFromPayload (ac_payload a))\<rparr> else lc2)"

definition lc_init :: "bool \<Rightarrow> lifecycle" where
  "lc_init hookExecuted = \<lparr>lc_executed = hookExecuted, lc_done = None, lc_fail = None, lc_abort = None\<rparr>"

text \<open>
  The store is optional and its one method may fail: \<open>None\<close> is the nil store, otherwise the store
  maps a task id to its actions in log order. The result pairs the lifecycle with the error flag.
\<close>

type_synonym lifecycle_store = "string \<Rightarrow> string + action list"

definition DeriveLifecycle ::
  "string \<Rightarrow> lifecycle_store option \<Rightarrow> bool \<Rightarrow> lifecycle \<times> string option" where
  "DeriveLifecycle taskID store hookExecuted =
     (case store of
        None \<Rightarrow> (lc_init hookExecuted, None)
      | Some list_actions \<Rightarrow>
          (case list_actions taskID of
             Inl err \<Rightarrow> (lc_init hookExecuted, Some err)
           | Inr actions \<Rightarrow> (fold derive_step actions (lc_init hookExecuted), None)))"

text \<open>\<open>json.Marshal\<close> of a \<open>Lifecycle\<close>: nil pointers are omitted.\<close>

definition marshal_lifecycle :: "lifecycle \<Rightarrow> json" where
  "marshal_lifecycle lc =
     (let report = (\<lambda>name r. case r of None \<Rightarrow> [] | Some m \<Rightarrow> [(name, JObj [(''message'', JStr m)])])
      in JObj ([(''executed'', JBool (lc_executed lc))]
               @ report ''done'' (lc_done lc) @ report ''fail'' (lc_fail lc)
               @ (case lc_abort lc of
                    None \<Rightarrow> []
                  | Some a \<Rightarrow>
                      [(''abort'', JObj [(''code'', JStr (ab_code a)),
                                         (''message'', JStr (ab_message a))])])))"

definition injectLifecycle :: "raw_message \<Rightarrow> lifecycle \<Rightarrow> raw_message" where
  "injectLifecycle payload lc =
     (let base = (if payload = RawEmpty \<or> payload = Raw JNull then Some [] else unmarshal_map payload)
      in case base of
           None \<Rightarrow> payload
         | Some m \<Rightarrow> Raw (marshal_map (AList.update ''lifecycle'' (marshal_lifecycle lc) m)))"

definition IsInstructionsEditable :: "task_type \<Rightarrow> task_status \<Rightarrow> bool" where
  "IsInstructionsEditable ty s \<longleftrightarrow> ty = TaskTypeExecution \<and> s = Pending"


section \<open>Facts about the derived lifecycle\<close>

lemma derive_step_executed [simp]: "lc_executed (derive_step a lc) = lc_executed lc"
  by (simp add: derive_step_def Let_def)

lemma fold_derive_executed [simp]: "lc_executed (fold derive_step as lc) = lc_executed lc"
  by (induction as arbitrary: lc) simp_all

lemma lc_init_simps [simp]:
  "lc_executed (lc_init b) = b" "lc_done (lc_init b) = None" "lc_fail (lc_init b) = None"
  "lc_abort (lc_init b) = None"
  by (simp_all add: lc_init_def)

definition reports_exclusive :: "lifecycle \<Rightarrow> bool" where
  "reports_exclusive lc \<longleftrightarrow> lc_done lc = None \<or> lc_fail lc = None"

lemma derive_step_exclusive: "reports_exclusive lc \<Longrightarrow> reports_exclusive (derive_step a lc)"
  by (auto simp: reports_exclusive_def derive_step_def Let_def)

lemma fold_derive_exclusive: "reports_exclusive lc \<Longrightarrow> reports_exclusive (fold derive_step as lc)"
  by (induction as arbitrary: lc) (simp_all add: derive_step_exclusive)

text \<open>The two reports depend on the reports before the step only, not on the rest of the record.\<close>

lemma derive_step_reports_cong:
  assumes "lc_done lc = lc_done lc'" and "lc_fail lc = lc_fail lc'"
  shows "lc_done (derive_step a lc) = lc_done (derive_step a lc')"
    and "lc_fail (derive_step a lc) = lc_fail (derive_step a lc')"
  using assms by (simp_all add: derive_step_def Let_def)

lemma fold_derive_reports_cong:
  assumes "lc_done lc = lc_done lc'" and "lc_fail lc = lc_fail lc'"
  shows "lc_done (fold derive_step as lc) = lc_done (fold derive_step as lc')
       \<and> lc_fail (fold derive_step as lc) = lc_fail (fold derive_step as lc')"
  using assms
proof (induction as arbitrary: lc lc')
  case Nil
  then show ?case by simp
next
  case (Cons a as)
  show ?case
    using Cons.IH [OF derive_step_reports_cong [OF Cons.prems]] by simp
qed

text \<open>An action that enters executing makes the reports before it irrelevant.\<close>

lemma derive_step_entering:
  assumes "ac_to_status e = Some Executing"
  shows "lc_done (derive_step e lc) = lc_done (derive_step e lc')"
    and "lc_fail (derive_step e lc) = lc_fail (derive_step e lc')"
  using assms by (simp_all add: derive_step_def Let_def)

lemma fold_derive_cycle:
  assumes "ac_to_status e = Some Executing"
  shows "lc_done (fold derive_step (pre @ e # post) lc) = lc_done (fold derive_step (e # post) lc)
       \<and> lc_fail (fold derive_step (pre @ e # post) lc) = lc_fail (fold derive_step (e # post) lc)"
  using fold_derive_reports_cong [OF derive_step_entering [OF assms, of "fold derive_step pre lc" lc]]
  by simp

text \<open>The first action that reaches aborted fixes the abort reason for good.\<close>

lemma derive_step_abort_kept: "lc_abort lc = Some r \<Longrightarrow> lc_abort (derive_step a lc) = Some r"
  by (simp add: derive_step_def Let_def)

lemma fold_derive_abort_kept: "lc_abort lc = Some r \<Longrightarrow> lc_abort (fold derive_step as lc) = Some r"
  by (induction as arbitrary: lc) (simp_all add: derive_step_abort_kept)

section \<open>Reading the injected traits back\<close>

lemma lifecycle_paths [simp]:
  "split_on CHR ''.'' ''lifecycle.executed'' = [''lifecycle'', ''executed'']"
  "split_on CHR ''.'' ''lifecycle.done'' = [''lifecycle'', ''done'']"
  "split_on CHR ''.'' ''lifecycle.fail'' = [''lifecycle'', ''fail'']"
  "split_on CHR ''.'' ''lifecycle.done.message'' = [''lifecycle'', ''done'', ''message'']"
  "split_on CHR ''.'' ''lifecycle.fail.message'' = [''lifecycle'', ''fail'', ''message'']"
  by simp_all

text \<open>The payloads the injection can extend: empty, \<open>null\<close>, or an object.\<close>

definition payload_decodes :: "raw_message \<Rightarrow> bool" where
  "payload_decodes p \<longleftrightarrow> p = RawEmpty \<or> unmarshal_map p \<noteq> None"

lemma unmarshal_injectLifecycle:
  assumes "payload_decodes p"
  obtains m where "unmarshal_map (injectLifecycle p lc) = Some m"
    and "map_of m ''lifecycle'' = Some (marshal_lifecycle lc)"
proof -
  let ?base = "if p = RawEmpty \<or> p = Raw JNull then Some [] else unmarshal_map p"
  obtain b where b: "?base = Some b" and db: "distinct (map fst b)"
    using assms
    by (auto simp: payload_decodes_def unmarshal_map_def distinct_go_map
             split: raw_message.splits json.splits)
  let ?m = "AList.update ''lifecycle'' (marshal_lifecycle lc) b"
  have "distinct (map fst ?m)" using db by (rule distinct_update)
  then obtain m' where "unmarshal_map (Raw (marshal_map ?m)) = Some m'"
    and "map_of m' = map_of ?m" by (rule unmarshal_marshal_map)
  with b show ?thesis
    by (intro that [of m']) (simp_all add: injectLifecycle_def Let_def update_conv')
qed

lemma injected_executed:
  "TraitBool (injectLifecycle p lc) ''lifecycle.executed'' \<longleftrightarrow> payload_decodes p \<and> lc_executed lc"
proof (cases "payload_decodes p")
  case True
  then obtain m where "unmarshal_map (injectLifecycle p lc) = Some m"
    and "map_of m ''lifecycle'' = Some (marshal_lifecycle lc)"
    by (rule unmarshal_injectLifecycle)
  with True show ?thesis
    by (auto simp: TraitBool_def marshal_lifecycle_def Let_def unmarshal_map_def map_add_Some_iff
             split: option.splits)
next
  case False
  then have "unmarshal_map p = None" and "p \<noteq> RawEmpty" by (auto simp: payload_decodes_def)
  then have "unmarshal_map (injectLifecycle p lc) = None"
    by (auto simp: injectLifecycle_def Let_def unmarshal_map_def)
  with False show ?thesis by (simp add: TraitBool_def)
qed

lemma injected_reports:
  assumes "payload_decodes p"
  shows "TraitExists (injectLifecycle p lc) ''lifecycle.fail'' \<longleftrightarrow> lc_fail lc \<noteq> None"
    and "TraitExists (injectLifecycle p lc) ''lifecycle.done'' \<longleftrightarrow> lc_done lc \<noteq> None"
    and "lc_fail lc = Some msg \<Longrightarrow>
           TraitGetString (injectLifecycle p lc) ''lifecycle.fail.message'' = Some msg"
    and "lc_done lc = Some msg \<Longrightarrow>
           TraitGetString (injectLifecycle p lc) ''lifecycle.done.message'' = Some msg"
proof -
  obtain m where m: "unmarshal_map (injectLifecycle p lc) = Some m"
    and l: "map_of m ''lifecycle'' = Some (marshal_lifecycle lc)"
    using assms by (rule unmarshal_injectLifecycle)
  note defs = marshal_lifecycle_def Let_def unmarshal_map_def unmarshal_string_def map_add_Some_iff
  from m l show "TraitExists (injectLifecycle p lc) ''lifecycle.fail'' \<longleftrightarrow> lc_fail lc \<noteq> None"
    by (auto simp: TraitExists_def defs split: option.splits)
  from m l show "TraitExists (injectLifecycle p lc) ''lifecycle.done'' \<longleftrightarrow> lc_done lc \<noteq> None"
    by (auto simp: TraitExists_def defs split: option.splits)
  from m l show "lc_fail lc = Some msg \<Longrightarrow>
      TraitGetString (injectLifecycle p lc) ''lifecycle.fail.message'' = Some msg"
    by (auto simp: TraitGetString_def defs split: option.splits)
  from m l show "lc_done lc = Some msg \<Longrightarrow>
      TraitGetString (injectLifecycle p lc) ''lifecycle.done.message'' = Some msg"
    by (auto simp: TraitGetString_def defs split: option.splits)
qed

section \<open>Properties\<close>

text \<open>
  C19. The derived lifecycle never carries both a completion and a failure report, and only the
  current cycle counts: the reports after an action that entered executing are those of the log from
  that action on.
\<close>

theorem derive_lifecycle_current_cycle:
  assumes "store taskID = Inr (pre @ e # post)" and "ac_to_status e = Some Executing"
    and "store' taskID = Inr (e # post)"
  shows "let (lc, err) = DeriveLifecycle taskID (Some store) hookExecuted;
             (lc', err') = DeriveLifecycle taskID (Some store') hookExecuted
         in err = None \<and> lc_executed lc = hookExecuted \<and> (lc_done lc = None \<or> lc_fail lc = None)
            \<and> lc_done lc = lc_done lc' \<and> lc_fail lc = lc_fail lc'"
  using assms fold_derive_cycle [OF assms(2), of pre post "lc_init hookExecuted"]
    fold_derive_exclusive [of "lc_init hookExecuted" "pre @ e # post"]
  by (auto simp: DeriveLifecycle_def reports_exclusive_def)

definition log_entry :: "string \<Rightarrow> raw_message \<Rightarrow> task_status option \<Rightarrow> action" where
  "log_entry ty p to = \<lparr>ac_id = [], ac_task_id = ''t'', ac_type = ty, ac_payload = p,
     ac_from_status = None, ac_to_status = to, ac_created_at = 0, ac_actor = []\<rparr>"

theorem derive_lifecycle_current_cycle_witness:
  "lc_fail (fst (DeriveLifecycle ''t''
     (Some (\<lambda>_. Inr [log_entry ''fail_request'' RawEmpty None,
                     log_entry ''reopen'' RawEmpty (Some Executing),
                     log_entry ''done_request'' RawEmpty None])) True)) = None
   \<and> lc_done (fst (DeriveLifecycle ''t''
     (Some (\<lambda>_. Inr [log_entry ''reopen'' RawEmpty (Some Executing),
                     log_entry ''done_request'' RawEmpty None])) True)) = Some []"
proof -
  let ?s = "\<lambda>_ :: string. Inr [log_entry ''fail_request'' RawEmpty None,
                     log_entry ''reopen'' RawEmpty (Some Executing),
                     log_entry ''done_request'' RawEmpty None] :: string + action list"
  let ?s' = "\<lambda>_ :: string. Inr [log_entry ''reopen'' RawEmpty (Some Executing),
                     log_entry ''done_request'' RawEmpty None] :: string + action list"
  have d: "lc_done (fst (DeriveLifecycle ''t'' (Some ?s') True)) = Some []"
    by code_simp
  have "ac_to_status (log_entry ''reopen'' RawEmpty (Some Executing)) = Some Executing"
    by (simp add: log_entry_def)
  from derive_lifecycle_current_cycle [where store = ?s and store' = ?s' and taskID = "''t''"
      and pre = "[log_entry ''fail_request'' RawEmpty None]"
      and post = "[log_entry ''done_request'' RawEmpty None]" and hookExecuted = True, OF _ this]
  show ?thesis using d by (auto simp: case_prod_unfold Let_def)
qed

end
