(* ===== verification/State_Machine.thy ===== *)
theory State_Machine
  imports Lifecycle_Traits
begin

text \<open>
  \<open>machine.go\<close>, \<open>machine_execution.go\<close> and \<open>machine_card.go\<close>: the rule tables of the two
  state machines and the operations that read them.

  A rule's \<open>FromStatus\<close> is \<open>FromAny\<close> for the wildcard or \<open>From s\<close>; an empty \<open>ToStatus\<close>
  is \<open>None\<close>. \<open>CloneTaskShallow\<close> only guards against aliasing, so on values it is the identity
  and each operation returns an updated copy of the task.
\<close>

section \<open>Rules and the operations of a machine\<close>

datatype from_status = FromAny | From task_status

record rule =
  r_action :: string
  r_from :: from_status
  r_to :: "task_status option"
  r_condition :: "(raw_message \<Rightarrow> bool) option"
  r_manual :: bool
  r_action_payload_fn :: "(raw_message \<Rightarrow> raw_message) option"

record state_machine =
  sm_name :: string
  sm_rules :: "rule list"

record advance_outcome =
  ao_task :: task
  ao_action_payload :: "raw_message option"

datatype machine_error = NoTransition string task_status

definition from_matches :: "rule \<Rightarrow> task_status \<Rightarrow> bool" where
  "from_matches r s = (case r_from r of FromAny \<Rightarrow> True | From s' \<Rightarrow> s' = s)"

definition is_auto :: "rule \<Rightarrow> bool" where
  "is_auto r = (case r_condition r of None \<Rightarrow> False | Some _ \<Rightarrow> True)"

text \<open>The effect of a fired rule: an empty \<open>ToStatus\<close> leaves the status as it is.\<close>

definition set_status :: "task_status option \<Rightarrow> task \<Rightarrow> task" where
  "set_status to t = (case to of None \<Rightarrow> t | Some s \<Rightarrow> t\<lparr>t_status := s\<rparr>)"

lemma set_status_simps [simp]:
  "set_status None t = t" "set_status (Some s) t = t\<lparr>t_status := s\<rparr>"
  by (simp_all add: set_status_def)

definition Apply :: "state_machine \<Rightarrow> task \<Rightarrow> action \<Rightarrow> machine_error + task" where
  "Apply sm t a =
     (case find (\<lambda>r. \<not> is_auto r \<and> r_action r = ac_type a \<and> from_matches r (t_status t)) (sm_rules sm) of
        None \<Rightarrow> Inl (NoTransition (ac_type a) (t_status t))
      | Some r \<Rightarrow> Inr (set_status (r_to r) t))"

text \<open>The loop of \<open>AdvanceFull\<close>; every auto rule of the source sets \<open>ToStatus\<close>.\<close>

fun advance_rules :: "rule list \<Rightarrow> task \<Rightarrow> raw_message \<Rightarrow> advance_outcome option" where
  "advance_rules [] t p = None"
| "advance_rules (r # rs) t p =
     (case r_condition r of
        None \<Rightarrow> advance_rules rs t p
      | Some cond \<Rightarrow>
          if \<not> from_matches r (t_status t) then advance_rules rs t p
          else if cond p then
            Some \<lparr>ao_task = set_status (r_to r) t,
                  ao_action_payload = map_option (\<lambda>f. f p) (r_action_payload_fn r)\<rparr>
          else advance_rules rs t p)"

definition AdvanceFull :: "state_machine \<Rightarrow> task \<Rightarrow> advance_outcome option" where
  "AdvanceFull sm t =
     (case t_exec t of None \<Rightarrow> None | Some e \<Rightarrow> advance_rules (sm_rules sm) t (ex_payload e))"

definition Advance :: "state_machine \<Rightarrow> task \<Rightarrow> task option" where
  "Advance sm t = map_option ao_task (AdvanceFull sm t)"

definition AvailableActions :: "state_machine \<Rightarrow> task_status \<Rightarrow> string list" where
  "AvailableActions sm status =
     dedup_seen []
       (map r_action
         (filter (\<lambda>r. \<not> is_auto r \<and> r_manual r \<and> from_matches r status
                      \<and> r_to r \<noteq> None \<and> r_to r \<noteq> Some status) (sm_rules sm)))"

fun join_comma :: "string list \<Rightarrow> string" where
  "join_comma [] = []"
| "join_comma [x] = x"
| "join_comma (x # xs) = x @ '', '' @ join_comma xs"

definition AvailableActionsHint :: "state_machine \<Rightarrow> task_status \<Rightarrow> string" where
  "AvailableActionsHint sm status =
     (let available = AvailableActions sm status in
      if available = []
      then ''status='' @ status_string status @ '' has no further transitions available''
      else ''from status='' @ status_string status @ '' you can apply: '' @ join_comma available)"

definition CanApplyManualAction :: "state_machine \<Rightarrow> string \<Rightarrow> task_status \<Rightarrow> bool" where
  "CanApplyManualAction sm actionType status \<longleftrightarrow>
     list_ex (\<lambda>r. \<not> is_auto r \<and> r_manual r \<and> r_action r = actionType \<and> from_matches r status)
       (sm_rules sm)"

definition CanApplyTransitionAction :: "state_machine \<Rightarrow> string \<Rightarrow> task_status \<Rightarrow> bool" where
  "CanApplyTransitionAction sm actionType status \<longleftrightarrow>
     list_ex (\<lambda>r. \<not> is_auto r \<and> r_manual r \<and> r_to r \<noteq> None
                  \<and> r_action r = actionType \<and> from_matches r status)
       (sm_rules sm)"

definition IsManualAction :: "state_machine \<Rightarrow> string \<Rightarrow> bool" where
  "IsManualAction sm actionType \<longleftrightarrow>
     list_ex (\<lambda>r. r_action r = actionType \<and> r_manual r) (sm_rules sm)"

section \<open>The execution machine\<close>

definition manual_rule :: "string \<Rightarrow> task_status \<Rightarrow> task_status \<Rightarrow> rule" where
  "manual_rule a s s' =
     \<lparr>r_action = a, r_from = From s, r_to = Some s', r_condition = None, r_manual = True,
      r_action_payload_fn = None\<rparr>"

text \<open>A non-manual record: it matches any status and leaves it unchanged.\<close>

definition record_rule :: "string \<Rightarrow> rule" where
  "record_rule a =
     \<lparr>r_action = a, r_from = FromAny, r_to = None, r_condition = None, r_manual = False,
      r_action_payload_fn = None\<rparr>"

text \<open>A manual fact: it matches one status and leaves it unchanged.\<close>

definition fact_rule :: "string \<Rightarrow> task_status \<Rightarrow> rule" where
  "fact_rule a s =
     \<lparr>r_action = a, r_from = From s, r_to = None, r_condition = None, r_manual = True,
      r_action_payload_fn = None\<rparr>"

definition auto_rule ::
  "task_status \<Rightarrow> task_status \<Rightarrow> (raw_message \<Rightarrow> bool) \<Rightarrow> (raw_message \<Rightarrow> raw_message) option \<Rightarrow> rule" where
  "auto_rule s s' cond fn =
     \<lparr>r_action = [], r_from = From s, r_to = Some s', r_condition = Some cond, r_manual = False,
      r_action_payload_fn = fn\<rparr>"

definition report_payload :: "string \<Rightarrow> raw_message \<Rightarrow> raw_message" where
  "report_payload path p =
     Raw (JObj [(''message'', JStr (case TraitGetString p path of None \<Rightarrow> [] | Some m \<Rightarrow> m))])"

definition NewExecutionMachine :: state_machine where
  "NewExecutionMachine = \<lparr>sm_name = ''execution'', sm_rules =
     [manual_rule ''start'' Pending Executing,
      manual_rule ''done'' Executing Done,
      manual_rule ''done'' Awaiting Done,
      manual_rule ''fail'' Executing Aborted,
      manual_rule ''reopen'' Done Executing,
      manual_rule ''reopen'' Aborted Executing,
      manual_rule ''ask'' Executing Awaiting,
      manual_rule ''answer'' Awaiting Executing,
      manual_rule ''abort'' Pending Aborted,
      manual_rule ''abort'' Executing Aborted,
      manual_rule ''abort'' Awaiting Aborted,
      manual_rule ''abort'' Done Aborted,
      manual_rule ''abort'' Aborted Aborted,
      record_rule ''child_dispatched'',
      record_rule ''child_closed'',
      (record_rule ''job_failed'')\<lparr>r_to := Some Aborted\<rparr>,
      record_rule ''progress'',
      record_rule ''done_request'',
      record_rule ''fail_request'',
      auto_rule Executing Aborted
        (\<lambda>p. TraitBool p ''lifecycle.executed'' \<and> TraitExists p ''lifecycle.fail'')
        (Some (report_payload ''lifecycle.fail.message'')),
      auto_rule Executing Done
        (\<lambda>p. TraitBool p ''lifecycle.executed'' \<and> TraitExists p ''lifecycle.done'')
        (Some (report_payload ''lifecycle.done.message'')),
      auto_rule Executing Done (\<lambda>p. TraitBool p ''lifecycle.executed'') None]\<rparr>"

section \<open>The card machine\<close>

definition cardActiveStatuses :: "task_status list" where
  "cardActiveStatuses = [Parked, Working]"

definition cardActiveAndDroppedStatuses :: "task_status list" where
  "cardActiveAndDroppedStatuses = [Parked, Working, Dropped]"

definition cardActiveAndTerminalStatuses :: "task_status list" where
  "cardActiveAndTerminalStatuses = [Parked, Working, Done, Dropped]"

definition NewCardMachine :: state_machine where
  "NewCardMachine = \<lparr>sm_name = ''card'', sm_rules =
     [manual_rule ''go'' Parked Working,
      manual_rule ''go'' Working Working,
      manual_rule ''start'' Parked Working,
      manual_rule ''drop'' Parked Dropped,
      manual_rule ''complete'' Parked Done,
      manual_rule ''park'' Working Parked,
      manual_rule ''complete'' Working Done,
      manual_rule ''reopen'' Done Parked,
      manual_rule ''reopen'' Dropped Parked,
      record_rule ''wake_due'',
      record_rule ''child_dispatched'',
      record_rule ''child_closed'',
      record_rule ''progress'',
      record_rule ''done_request'',
      record_rule ''fail_request'',
      record_rule ''command_finished'',
      record_rule ''command_failed'',
      record_rule ''command_force_released'',
      record_rule ''created'',
      record_rule ''edited'',
      record_rule ''identity_linked'',
      record_rule ''identity_unlinked'']
     @ map (fact_rule ''attrs_set'') cardActiveAndDroppedStatuses
     @ concat (map (\<lambda>a. map (fact_rule a) cardActiveAndDroppedStatuses)
         [''child_added'', ''child_specced''])
     @ map (fact_rule ''child_dropped'') cardActiveStatuses
     @ concat (map (\<lambda>a. map (fact_rule a) cardActiveAndTerminalStatuses)
         [''noted'', ''answered''])\<rparr>"

definition deriveCardTransitionActions :: "string list" where
  "deriveCardTransitionActions =
     map r_action (filter (\<lambda>r. r_manual r \<and> r_to r \<noteq> None) (sm_rules NewCardMachine))"

definition IsCardTransitionAction :: "string \<Rightarrow> bool" where
  "IsCardTransitionAction actionType \<longleftrightarrow> actionType \<in> set deriveCardTransitionActions"

definition legacyCardVerbAliases :: "(string \<times> string) list" where
  "legacyCardVerbAliases = [(''working'', ''start''), (''done'', ''complete'')]"

definition NormalizeCardVerb :: "string \<Rightarrow> string" where
  "NormalizeCardVerb verb =
     (case map_of legacyCardVerbAliases verb of Some current \<Rightarrow> current | None \<Rightarrow> verb)"

text \<open>\<open>machineFor\<close> (\<open>internal/api/machine_select.go\<close>).\<close>

definition machineFor :: "task \<Rightarrow> state_machine" where
  "machineFor t = (if t_type t = TaskTypeCard then NewCardMachine else NewExecutionMachine)"

section \<open>The contract of a rule table\<close>

text \<open>
  A rule table keeps its contract when its
  targets stay among the statuses it governs, an action name and a status determine the target and
  whether the action is manual, and the condition-based rules are never manual and always move.
\<close>

lemma advance_rules_fires:
  "advance_rules rs t p = Some o' \<Longrightarrow>
     \<exists>r cond. r \<in> set rs \<and> r_condition r = Some cond \<and> cond p \<and> from_matches r (t_status t)
       \<and> ao_task o' = set_status (r_to r) t"
  by (induction rs) (auto split: option.splits if_splits)

lemma AdvanceFullE:
  assumes "AdvanceFull sm t = Some o'"
  obtains e r cond where "t_exec t = Some e" "r \<in> set (sm_rules sm)" "r_condition r = Some cond"
    "cond (ex_payload e)" "from_matches r (t_status t)" "ao_task o' = set_status (r_to r) t"
  using assms by (auto simp: AdvanceFull_def split: option.splits dest!: advance_rules_fires)

locale rule_machine =
  fixes sm :: state_machine
    and dom :: "task_status set"
  assumes target_dom:
      "\<lbrakk>r \<in> set (sm_rules sm); s \<in> dom; from_matches r s; r_to r = Some s'\<rbrakk> \<Longrightarrow> s' \<in> dom"
    and functional:
      "\<lbrakk>r \<in> set (sm_rules sm); r' \<in> set (sm_rules sm); \<not> is_auto r; \<not> is_auto r';
        r_action r = r_action r'; from_matches r s; from_matches r' s\<rbrakk>
       \<Longrightarrow> r_to r = r_to r' \<and> r_manual r = r_manual r'"
    and auto_not_manual: "\<lbrakk>r \<in> set (sm_rules sm); is_auto r\<rbrakk> \<Longrightarrow> \<not> r_manual r \<and> r_to r \<noteq> None"
begin

lemma Apply_rule:
  assumes "r \<in> set (sm_rules sm)" "\<not> is_auto r" "r_action r = ac_type a" "from_matches r (t_status t)"
  shows "Apply sm t a = Inr (set_status (r_to r) t)"
proof -
  let ?P = "\<lambda>r. \<not> is_auto r \<and> r_action r = ac_type a \<and> from_matches r (t_status t)"
  obtain r' where f: "find ?P (sm_rules sm) = Some r'"
    using find_is_Some [of r "sm_rules sm" ?P] assms by auto
  then have "r' \<in> set (sm_rules sm)" "?P r'" by (auto dest: find_SomeD)
  with assms have "r_to r' = r_to r" by (metis functional)
  with f show ?thesis by (simp add: Apply_def)
qed

lemma ApplyE:
  assumes "Apply sm t a = Inr t'"
  obtains r where "r \<in> set (sm_rules sm)" "\<not> is_auto r" "r_action r = ac_type a"
    "from_matches r (t_status t)" "t' = set_status (r_to r) t"
  using assms by (auto simp: Apply_def split: option.splits dest: find_SomeD)

lemma Apply_dom:
  assumes "Apply sm t a = Inr t'" and "t_status t \<in> dom"
  shows "t_status t' \<in> dom"
  using assms by (elim ApplyE) (auto simp: set_status_def split: option.splits intro: target_dom)

lemma Advance_dom:
  assumes "Advance sm t = Some t'" and "t_status t \<in> dom"
  shows "t_status t' \<in> dom"
  using assms
  by (auto simp: Advance_def set_status_def split: option.splits elim!: AdvanceFullE intro: target_dom)

lemma CanApplyManualAction_iff:
  "CanApplyManualAction sm actionType status \<longleftrightarrow>
     (\<exists>r \<in> set (sm_rules sm). \<not> is_auto r \<and> r_manual r \<and> r_action r = actionType \<and> from_matches r status)"
  by (simp add: CanApplyManualAction_def list_ex_iff)

lemma CanApplyTransition_sound:
  assumes "CanApplyTransitionAction sm (ac_type a) (t_status t)" and "t_status t \<in> dom"
  obtains s' where "s' \<in> dom" "Apply sm t a = Inr (t\<lparr>t_status := s'\<rparr>)"
proof -
  from assms(1) obtain r s' where r: "r \<in> set (sm_rules sm)" "\<not> is_auto r" "r_action r = ac_type a"
      "from_matches r (t_status t)" "r_to r = Some s'"
    by (auto simp: CanApplyTransitionAction_def list_ex_iff)
  with assms(2) show ?thesis
    by (intro that [of s']) (auto intro: target_dom simp: Apply_rule)
qed

text \<open>A listed action is a manual one that Apply accepts and that moves the task, and conversely.\<close>

lemma AvailableActions_iff:
  "ac_type a \<in> set (AvailableActions sm (t_status t)) \<longleftrightarrow>
     CanApplyManualAction sm (ac_type a) (t_status t)
     \<and> (\<exists>t'. Apply sm t a = Inr t' \<and> t_status t' \<noteq> t_status t)"
  (is "?L \<longleftrightarrow> ?R")
proof
  assume ?L
  then obtain r s' where "r \<in> set (sm_rules sm)" "\<not> is_auto r" "r_manual r" "r_action r = ac_type a"
      "from_matches r (t_status t)" "r_to r = Some s'" "s' \<noteq> t_status t"
    by (auto simp: AvailableActions_def)
  then show ?R by (auto simp: CanApplyManualAction_iff Apply_rule)
next
  assume ?R
  then obtain r where r: "r \<in> set (sm_rules sm)" "\<not> is_auto r" "r_manual r" "r_action r = ac_type a"
      "from_matches r (t_status t)" and "t_status (set_status (r_to r) t) \<noteq> t_status t"
    by (auto simp: CanApplyManualAction_iff Apply_rule)
  then have "r_to r \<noteq> None \<and> r_to r \<noteq> Some (t_status t)" by (cases "r_to r") auto
  with r show ?L by (force simp: AvailableActions_def)
qed

end

section \<open>The two tables keep the contract\<close>

text \<open>
  A check on the table itself: among the action-based rules no name and origin occur twice, and a
  name with a wildcard rule has no other rule.
\<close>

definition table_functional :: "rule list \<Rightarrow> bool" where
  "table_functional rs \<longleftrightarrow>
     (let named = filter (\<lambda>r. \<not> is_auto r) rs;
          keys = map (\<lambda>r. (r_action r, r_from r)) named;
          anys = map r_action (filter (\<lambda>r. r_from r = FromAny) named)
      in distinct keys \<and> list_all (\<lambda>k. fst k \<in> set anys \<longrightarrow> snd k = FromAny) keys)"

lemma table_functionalD:
  assumes ok: "table_functional rs"
    and r: "r \<in> set rs" "\<not> is_auto r" "from_matches r s"
    and r': "r' \<in> set rs" "\<not> is_auto r'" "from_matches r' s"
    and act: "r_action r = r_action r'"
  shows "r = r'"
proof -
  let ?named = "filter (\<lambda>r. \<not> is_auto r) rs"
  have dist: "distinct (map (\<lambda>r. (r_action r, r_from r)) ?named)"
    and any: "\<And>a b. a \<in> set ?named \<Longrightarrow> b \<in> set ?named \<Longrightarrow> r_action a = r_action b \<Longrightarrow>
                r_from b = FromAny \<Longrightarrow> r_from a = FromAny"
    using ok by (force simp: table_functional_def Let_def list_all_iff)+
  have "r \<in> set ?named" "r' \<in> set ?named" using r r' by auto
  moreover from this have "r_from r = r_from r'"
    using any [of r r'] any [of r' r] act r(3) r'(3)
    by (auto simp: from_matches_def split: from_status.splits)
  ultimately show ?thesis
    using dist act by (auto simp: distinct_map inj_on_def)
qed

lemma card_table_functional: "table_functional (sm_rules NewCardMachine)"
  by code_simp

lemma execution_table_functional: "table_functional (sm_rules NewExecutionMachine)"
  by code_simp

lemmas rule_defs = manual_rule_def record_rule_def fact_rule_def auto_rule_def from_matches_def
  is_auto_def

lemma card_rules_cases:
  assumes "r \<in> set (sm_rules NewCardMachine)"
  shows "\<not> is_auto r \<and> (r_to r = None \<or> (\<exists>s s'. r_from r = From s \<and> r_to r = Some s' \<and> r_manual r
           \<and> s \<in> type_statuses TaskTypeCard \<and> s' \<in> type_statuses TaskTypeCard))"
  using assms
  by (auto simp: NewCardMachine_def rule_defs type_statuses_def cardActiveStatuses_def
      cardActiveAndDroppedStatuses_def cardActiveAndTerminalStatuses_def)

lemma execution_rules_cases:
  assumes "r \<in> set (sm_rules NewExecutionMachine)"
  shows "(is_auto r \<longrightarrow> \<not> r_manual r \<and> r_to r \<noteq> None)
       \<and> (\<forall>s'. r_to r = Some s' \<longrightarrow> s' \<in> type_statuses TaskTypeExecution)"
  using assms by (auto simp: NewExecutionMachine_def rule_defs type_statuses_def)

interpretation card: rule_machine NewCardMachine "type_statuses TaskTypeCard"
proof
  show "s' \<in> type_statuses TaskTypeCard"
    if "r \<in> set (sm_rules NewCardMachine)" "s \<in> type_statuses TaskTypeCard" "from_matches r s"
      "r_to r = Some s'" for r s s'
    using card_rules_cases [OF that(1)] that(4) by auto
  show "r_to r = r_to r' \<and> r_manual r = r_manual r'"
    if "r \<in> set (sm_rules NewCardMachine)" "r' \<in> set (sm_rules NewCardMachine)" "\<not> is_auto r"
      "\<not> is_auto r'" "r_action r = r_action r'" "from_matches r s" "from_matches r' s" for r r' s
    using table_functionalD [OF card_table_functional that(1,3,6,2,4,7,5)] by simp
  show "\<not> r_manual r \<and> r_to r \<noteq> None" if "r \<in> set (sm_rules NewCardMachine)" "is_auto r" for r
    using card_rules_cases [OF that(1)] that(2) by simp
qed

interpretation execution: rule_machine NewExecutionMachine "type_statuses TaskTypeExecution"
proof
  show "s' \<in> type_statuses TaskTypeExecution"
    if "r \<in> set (sm_rules NewExecutionMachine)" "s \<in> type_statuses TaskTypeExecution"
      "from_matches r s" "r_to r = Some s'" for r s s'
    using execution_rules_cases [OF that(1)] that(4) by auto
  show "r_to r = r_to r' \<and> r_manual r = r_manual r'"
    if "r \<in> set (sm_rules NewExecutionMachine)" "r' \<in> set (sm_rules NewExecutionMachine)"
      "\<not> is_auto r" "\<not> is_auto r'" "r_action r = r_action r'" "from_matches r s" "from_matches r' s"
    for r r' s
    using table_functionalD [OF execution_table_functional that(1,3,6,2,4,7,5)] by simp
  show "\<not> r_manual r \<and> r_to r \<noteq> None" if "r \<in> set (sm_rules NewExecutionMachine)" "is_auto r" for r
    using execution_rules_cases [OF that(1)] that(2) by simp
qed

section \<open>Reachability\<close>

text \<open>
  A task's life: an action applied, an automatic transition, or an edit that writes anything but
  the type, the status and the choice of attribute set. The machine is the one \<open>machineFor\<close>
  selects at each step.
\<close>

inductive task_step :: "task \<Rightarrow> task \<Rightarrow> bool" where
  apply_step: "Apply (machineFor t) t a = Inr t' \<Longrightarrow> task_step t t'"
| advance_step: "Advance (machineFor t) t = Some t' \<Longrightarrow> task_step t t'"
| edit_step: "\<lbrakk>t_type t' = t_type t; t_status t' = t_status t;
     (t_card t' = None) = (t_card t = None); (t_exec t' = None) = (t_exec t = None)\<rbrakk>
     \<Longrightarrow> task_step t t'"

inductive_cases task_stepE: "task_step t t'"

lemma set_status_frame [simp]:
  "t_type (set_status to t) = t_type t" "t_card (set_status to t) = t_card t"
  "t_exec (set_status to t) = t_exec t"
  by (cases to; simp)+

lemma Apply_frame:
  "Apply sm t a = Inr t' \<Longrightarrow> \<exists>to. t' = set_status to t"
  by (auto simp: Apply_def split: option.splits)

lemma Advance_frame:
  "Advance sm t = Some t' \<Longrightarrow> \<exists>to. t' = set_status to t"
  by (auto simp: Advance_def elim!: AdvanceFullE)

lemma validate_set_status [simp]:
  "validateTaskTypeConsistency (set_status to t) = validateTaskTypeConsistency t"
  by (simp only: validateTaskTypeConsistency_def set_status_frame)

lemma task_wf_set_status:
  "task_wf t \<Longrightarrow> task_wf (set_status to t) \<longleftrightarrow> t_status (set_status to t) \<in> type_statuses (t_type t)"
  by (simp add: task_wf_def)

lemma task_wf_machine:
  assumes "task_wf t"
  shows "(t_type t = TaskTypeCard \<and> machineFor t = NewCardMachine)
       \<or> (t_type t = TaskTypeExecution \<and> machineFor t = NewExecutionMachine)"
  using assms by (cases rule: task_wf_cases) (simp_all add: machineFor_def)

lemma Apply_wf [inv_intros]:
  assumes wf: "task_wf t" and ap: "Apply (machineFor t) t a = Inr t'"
  shows "task_wf t'"
proof -
  from ap obtain to where t': "t' = set_status to t" using Apply_frame by blast
  have "t_status t' \<in> type_statuses (t_type t)"
    using task_wf_machine [OF wf] ap wf by (auto simp: task_wf_def intro: card.Apply_dom execution.Apply_dom)
  with t' task_wf_set_status [OF wf] show ?thesis by simp
qed

lemma Advance_wf [inv_intros]:
  assumes wf: "task_wf t" and ad: "Advance (machineFor t) t = Some t'"
  shows "task_wf t'"
proof -
  from ad obtain to where t': "t' = set_status to t" using Advance_frame by blast
  have "t_status t' \<in> type_statuses (t_type t)"
    using task_wf_machine [OF wf] ad wf
    by (auto simp: task_wf_def intro: card.Advance_dom execution.Advance_dom)
  with t' task_wf_set_status [OF wf] show ?thesis by simp
qed

lemma task_step_wf:
  assumes "task_step t t'" and "task_wf t"
  shows "task_wf t' \<and> t_type t' = t_type t"
  using assms
proof (cases rule: task_step.cases)
  case (apply_step a)
  with assms(2) show ?thesis using Apply_wf Apply_frame by fastforce
next
  case advance_step
  with assms(2) show ?thesis using Advance_wf Advance_frame by fastforce
next
  case edit_step
  with assms(2) show ?thesis
    by (auto simp: task_wf_def validateTaskTypeConsistency_def is_ok_def
        split: task_type.splits if_splits)
qed

lemma distinct_AvailableActions: "distinct (AvailableActions sm s)"
  by (simp add: AvailableActions_def distinct_dedup_seen)

text \<open>
  The comment on \<open>AvailableActions\<close> says that done and aborted offer nothing; they do offer the
  ways back.
\<close>

lemma terminal_statuses_offer_actions:
  "AvailableActions NewExecutionMachine Done = [''reopen'', ''abort'']"
  "AvailableActions NewExecutionMachine Aborted = [''reopen'']"
  by code_simp+

section \<open>Sequences of manual actions\<close>

text \<open>The status after a list of action types is applied one after the other, if all are accepted.\<close>

fun run_actions :: "state_machine \<Rightarrow> action list \<Rightarrow> task \<Rightarrow> machine_error + task" where
  "run_actions sm [] t = Inr t"
| "run_actions sm (a # as) t =
     (case Apply sm t a of Inl e \<Rightarrow> Inl e | Inr t' \<Rightarrow> run_actions sm as t')"

definition action_of :: "string \<Rightarrow> action" where
  "action_of ty = \<lparr>ac_id = [], ac_task_id = [], ac_type = ty, ac_payload = RawEmpty,
     ac_from_status = None, ac_to_status = None, ac_created_at = 0, ac_actor = []\<rparr>"

definition sample_card :: "task_status \<Rightarrow> task" where
  "sample_card s = \<lparr>t_id = ''c1'', t_type = TaskTypeCard, t_project_id = ''p'', t_workspace_id = ''w'',
     t_remote_id = [], t_title = ''card'', t_description = [], t_status = s, t_ref = [],
     t_parent_id = [], t_idempotency_key = [], t_created_at = 0, t_updated_at = 0,
     t_card = Some \<lparr>ca_task_id = ''c1'', ca_kind = [], ca_urgency = [], ca_wake_at = None,
       ca_wake_task_id = [], ca_suggestion_verb = [], ca_detail = RawEmpty\<rparr>,
     t_exec = None, t_total_child_count = 0, t_done_child_count = 0, t_aborted_child_count = 0,
     t_open_child_count = 0, t_awaiting_child_count = 0, t_blocked = False\<rparr>"

definition sample_exec :: "task_status \<Rightarrow> raw_message \<Rightarrow> task" where
  "sample_exec s p = (sample_card s)\<lparr>t_id := ''e1'', t_type := TaskTypeExecution, t_card := None,
     t_exec := Some \<lparr>ex_behavior = ''dev'', ex_traits = [], ex_readonly = False,
       ex_branch_prefix = [], ex_base_branch = [], ex_payload = p, ex_instructions = [],
       ex_auto_start = False\<rparr>\<rparr>"

lemma sample_wf:
  "s \<in> type_statuses TaskTypeCard \<Longrightarrow> task_wf (sample_card s)"
  "s \<in> type_statuses TaskTypeExecution \<Longrightarrow> task_wf (sample_exec s p)"
  by (simp_all add: task_wf_def validateTaskTypeConsistency_def sample_card_def sample_exec_def)

text \<open>Manual one-step moves of each machine, and their closure under sequencing.\<close>

definition moves :: "state_machine \<Rightarrow> task_status \<Rightarrow> task_status \<Rightarrow> bool" where
  "moves sm s s' \<longleftrightarrow>
     (\<exists>as. (\<forall>a \<in> set as. IsManualAction sm (ac_type a))
        \<and> (\<forall>t. t_status t = s \<longrightarrow> run_actions sm as t = Inr (t\<lparr>t_status := s'\<rparr>)))"

lemma run_actions_append:
  "run_actions sm (as @ bs) t =
     (case run_actions sm as t of Inl e \<Rightarrow> Inl e | Inr t' \<Rightarrow> run_actions sm bs t')"
  by (induction as arbitrary: t) (auto split: sum.splits)

lemma moves_trans:
  assumes "moves sm s s'" and "moves sm s' s''"
  shows "moves sm s s''"
proof -
  obtain as where as: "\<forall>a \<in> set as. IsManualAction sm (ac_type a)"
      "\<And>t. t_status t = s \<Longrightarrow> run_actions sm as t = Inr (t\<lparr>t_status := s'\<rparr>)"
    using assms(1) by (auto simp: moves_def)
  obtain bs where bs: "\<forall>a \<in> set bs. IsManualAction sm (ac_type a)"
      "\<And>t. t_status t = s' \<Longrightarrow> run_actions sm bs t = Inr (t\<lparr>t_status := s''\<rparr>)"
    using assms(2) by (auto simp: moves_def)
  have "run_actions sm (as @ bs) t = Inr (t\<lparr>t_status := s''\<rparr>)" if "t_status t = s" for t
    using as(2) [OF that] bs(2) [of "t\<lparr>t_status := s'\<rparr>"] by (simp add: run_actions_append)
  then show ?thesis
    unfolding moves_def using as(1) bs(1) by (intro exI [of _ "as @ bs"]) auto
qed

lemma moves_manual:
  assumes "rule_machine sm D" and "manual_rule ty s s' \<in> set (sm_rules sm)"
  shows "moves sm s s'"
proof -
  have "Apply sm t (action_of ty) = Inr (t\<lparr>t_status := s'\<rparr>)" if "t_status t = s" for t
    using rule_machine.Apply_rule [OF assms, of "action_of ty" t] that
    by (simp add: action_of_def rule_defs)
  then show ?thesis
    unfolding moves_def using assms(2)
    by (intro exI [of _ "[action_of ty]"])
       (force simp: IsManualAction_def list_ex_iff action_of_def manual_rule_def)
qed

lemmas card_moves = moves_manual [OF card.rule_machine_axioms]
lemmas execution_moves = moves_manual [OF execution.rule_machine_axioms]

lemma card_edges:
  "moves NewCardMachine Parked Working" "moves NewCardMachine Working Parked"
  "moves NewCardMachine Parked Done" "moves NewCardMachine Done Parked"
  "moves NewCardMachine Parked Dropped" "moves NewCardMachine Dropped Parked"
  using card_moves [of "''go''" Parked Working] card_moves [of "''park''" Working Parked]
    card_moves [of "''complete''" Parked Done] card_moves [of "''reopen''" Done Parked]
    card_moves [of "''drop''" Parked Dropped] card_moves [of "''reopen''" Dropped Parked]
  by (simp_all add: NewCardMachine_def)

lemma execution_edges:
  "moves NewExecutionMachine Pending Executing"
  "moves NewExecutionMachine Executing Awaiting" "moves NewExecutionMachine Awaiting Executing"
  "moves NewExecutionMachine Executing Done" "moves NewExecutionMachine Done Executing"
  "moves NewExecutionMachine Executing Aborted" "moves NewExecutionMachine Aborted Executing"
  using execution_moves [of "''start''" Pending Executing] execution_moves [of "''ask''" Executing Awaiting]
    execution_moves [of "''answer''" Awaiting Executing] execution_moves [of "''done''" Executing Done]
    execution_moves [of "''reopen''" Done Executing] execution_moves [of "''fail''" Executing Aborted]
    execution_moves [of "''reopen''" Aborted Executing]
  by (simp_all add: NewExecutionMachine_def)

lemma card_hub:
  assumes "s \<in> type_statuses TaskTypeCard"
  shows "moves NewCardMachine s Parked \<and> moves NewCardMachine Parked s"
  using assms card_edges moves_trans [OF card_edges(1,2)] by (auto simp: type_statuses_def)

lemma execution_hub:
  assumes "s \<in> type_statuses TaskTypeExecution"
  shows "moves NewExecutionMachine s Executing
       \<and> (s \<noteq> Pending \<longrightarrow> moves NewExecutionMachine Executing s)"
  using assms execution_edges moves_trans [OF execution_edges(2,3)] by (auto simp: type_statuses_def)

section \<open>Automatic transitions on injected traits\<close>

definition with_payload :: "raw_message \<Rightarrow> task \<Rightarrow> task" where
  "with_payload p t = t\<lparr>t_exec := map_option (\<lambda>e. e\<lparr>ex_payload := p\<rparr>) (t_exec t)\<rparr>"

lemma advance_only_executing:
  assumes "t_status t \<noteq> Executing"
  shows "AdvanceFull NewExecutionMachine t = None"
proof (rule ccontr)
  assume "AdvanceFull NewExecutionMachine t \<noteq> None"
  then obtain r where "r \<in> set (sm_rules NewExecutionMachine)" "r_condition r \<noteq> None"
      "from_matches r (t_status t)" by (auto elim: AdvanceFullE)
  with assms show False by (auto simp: NewExecutionMachine_def rule_defs)
qed

lemma advance_executing:
  assumes "t_status t = Executing" and "t_exec t = Some e"
  shows "AdvanceFull NewExecutionMachine t =
     (let p = ex_payload e in
      if \<not> TraitBool p ''lifecycle.executed'' then None
      else if TraitExists p ''lifecycle.fail'' then
        Some \<lparr>ao_task = t\<lparr>t_status := Aborted\<rparr>,
              ao_action_payload = Some (report_payload ''lifecycle.fail.message'' p)\<rparr>
      else if TraitExists p ''lifecycle.done'' then
        Some \<lparr>ao_task = t\<lparr>t_status := Done\<rparr>,
              ao_action_payload = Some (report_payload ''lifecycle.done.message'' p)\<rparr>
      else Some \<lparr>ao_task = t\<lparr>t_status := Done\<rparr>, ao_action_payload = None\<rparr>)"
  using assms
  by (simp add: AdvanceFull_def NewExecutionMachine_def rule_defs Let_def)

section \<open>Properties\<close>

text \<open>
  C9. Tasks never leave their type's statuses: along any sequence of applied actions, automatic
  transitions and edits a well-formed task stays well-formed and keeps its type, so a card only
  ever is parked, working, done or dropped and an execution task never takes a card status.
\<close>

theorem task_reachable_wf:
  assumes "task_wf t" and "task_step\<^sup>*\<^sup>* t t'"
  shows "task_wf t' \<and> t_type t' = t_type t \<and> t_status t' \<in> type_statuses (t_type t)"
  using assms(2,1)
  by (induction rule: rtranclp_induct) (auto simp: task_wf_def dest: task_step_wf)

theorem task_reachable_wf_witness:
  "task_step\<^sup>*\<^sup>* (sample_card Parked) (sample_card Working)
   \<and> t_status (sample_card Working) \<in> type_statuses TaskTypeCard"
proof -
  have "Apply (machineFor (sample_card Parked)) (sample_card Parked) (action_of ''go'')
        = Inr (sample_card Working)"
    by code_simp
  then have steps: "task_step\<^sup>*\<^sup>* (sample_card Parked) (sample_card Working)"
    by (blast intro: apply_step)
  have wf: "task_wf (sample_card Parked)" by (rule sample_wf) (simp add: type_statuses_def)
  from task_reachable_wf [OF wf steps] steps show ?thesis by (simp add: sample_card_def)
qed

text \<open>
  The push-down defence covers every status change of a card: whatever action the card machine
  accepts, if the card's status changes then the action is one of the verbs
  \<open>IsCardTransitionAction\<close> reserves for a human.
\<close>

theorem card_status_change_is_reserved:
  assumes "Apply NewCardMachine t a = Inr t'" and "t_status t' \<noteq> t_status t"
  shows "IsCardTransitionAction (ac_type a)"
  using assms card_rules_cases
  by (elim card.ApplyE)
     (force simp: IsCardTransitionAction_def deriveCardTransitionActions_def set_status_def
            split: option.splits)

theorem card_status_change_is_reserved_witness:
  "Apply NewCardMachine (sample_card Working) (action_of ''complete'') = Inr (sample_card Done)
   \<and> IsCardTransitionAction ''complete''"
proof -
  have ap: "Apply NewCardMachine (sample_card Working) (action_of ''complete'') = Inr (sample_card Done)"
    by code_simp
  have "t_status (sample_card Done) \<noteq> t_status (sample_card Working)" by (simp add: sample_card_def)
  from card_status_change_is_reserved [OF ap this] ap show ?thesis by (simp add: action_of_def)
qed

text \<open>
  The derived set is exactly the six documented verbs, and the two retired spellings normalise
  into it.
\<close>

theorem card_transition_verbs:
  "(IsCardTransitionAction v \<longleftrightarrow>
      v \<in> {''go'', ''start'', ''drop'', ''complete'', ''park'', ''reopen''})
   \<and> (IsCardTransitionAction (NormalizeCardVerb v) \<longleftrightarrow>
      v \<in> {''go'', ''start'', ''drop'', ''complete'', ''park'', ''reopen'', ''working'', ''done''})"
proof -
  have verbs: "IsCardTransitionAction w \<longleftrightarrow>
      w \<in> {''go'', ''start'', ''drop'', ''complete'', ''park'', ''reopen''}" for w
    by (auto simp: IsCardTransitionAction_def deriveCardTransitionActions_def NewCardMachine_def
        rule_defs cardActiveStatuses_def cardActiveAndDroppedStatuses_def
        cardActiveAndTerminalStatuses_def)
  then show ?thesis
    by (auto simp: NormalizeCardVerb_def legacyCardVerbAliases_def split: if_splits)
qed

text \<open>
  What the task page offers is what works: the offered actions of a well-formed task are
  without repetition, and an action is offered exactly when it is manual, the task's machine
  accepts it, and applying it changes the status.
\<close>

theorem available_actions_exact:
  assumes "task_wf t"
  shows "distinct (AvailableActions (machineFor t) (t_status t))
       \<and> (ac_type a \<in> set (AvailableActions (machineFor t) (t_status t)) \<longleftrightarrow>
            CanApplyManualAction (machineFor t) (ac_type a) (t_status t)
            \<and> (\<exists>t'. Apply (machineFor t) t a = Inr t' \<and> t_status t' \<noteq> t_status t))"
  using task_wf_machine [OF assms] card.AvailableActions_iff [of a t]
    execution.AvailableActions_iff [of a t]
  by (auto simp: distinct_AvailableActions)

theorem available_actions_exact_witness:
  "AvailableActions (machineFor (sample_card Parked)) Parked = [''go'', ''start'', ''drop'', ''complete'']
   \<and> (\<exists>t'. Apply (machineFor (sample_card Parked)) (sample_card Parked) (action_of ''drop'') = Inr t'
          \<and> t_status t' \<noteq> Parked)"
proof -
  have av: "AvailableActions (machineFor (sample_card Parked)) Parked
      = [''go'', ''start'', ''drop'', ''complete'']" by code_simp
  have wf: "task_wf (sample_card Parked)" by (rule sample_wf) (simp add: type_statuses_def)
  have st: "t_status (sample_card Parked) = Parked" "ac_type (action_of ''drop'') = ''drop''"
    by (simp_all add: sample_card_def action_of_def)
  from available_actions_exact [OF wf, of "action_of ''drop''"] av show ?thesis
    by (simp add: st)
qed

text \<open>
  \<open>CanApplyTransitionAction\<close> predicts \<open>Apply\<close>: when it answers yes for a well-formed
  task, applying the action succeeds and writes a status of the task's type and nothing else.
\<close>

theorem can_apply_transition_sound:
  assumes "task_wf t" and "CanApplyTransitionAction (machineFor t) (ac_type a) (t_status t)"
  shows "\<exists>s'. s' \<in> type_statuses (t_type t) \<and> Apply (machineFor t) t a = Inr (t\<lparr>t_status := s'\<rparr>)"
proof -
  have dom: "t_status t \<in> type_statuses (t_type t)" using assms(1) by (simp add: task_wf_def)
  show ?thesis
    using task_wf_machine [OF assms(1)]
  proof
    assume m: "t_type t = TaskTypeCard \<and> machineFor t = NewCardMachine"
    with assms(2) dom show ?thesis by (auto elim: card.CanApplyTransition_sound)
  next
    assume m: "t_type t = TaskTypeExecution \<and> machineFor t = NewExecutionMachine"
    with assms(2) dom show ?thesis by (auto elim: execution.CanApplyTransition_sound)
  qed
qed

theorem can_apply_transition_sound_witness:
  "CanApplyTransitionAction (machineFor (sample_card Working)) ''go'' Working
   \<and> (\<exists>s'. Apply (machineFor (sample_card Working)) (sample_card Working) (action_of ''go'')
            = Inr ((sample_card Working)\<lparr>t_status := s'\<rparr>))"
proof -
  have can: "CanApplyTransitionAction (machineFor (sample_card Working)) ''go'' Working" by code_simp
  have wf: "task_wf (sample_card Working)" by (rule sample_wf) (simp add: type_statuses_def)
  have st: "t_status (sample_card Working) = Working" "ac_type (action_of ''go'') = ''go''"
    by (simp_all add: sample_card_def action_of_def)
  from can_apply_transition_sound [OF wf, of "action_of ''go''"] can show ?thesis
    by (auto simp: st)
qed

text \<open>
  No status is a trap: by manual actions alone a card gets from any of its statuses to any
  other, and an execution task from any of its statuses to any other but pending, whose only use is
  before the first start.
\<close>

theorem no_dead_end:
  "(s \<in> type_statuses TaskTypeCard \<and> s' \<in> type_statuses TaskTypeCard \<longrightarrow> moves NewCardMachine s s')
   \<and> (s \<in> type_statuses TaskTypeExecution \<and> s' \<in> type_statuses TaskTypeExecution \<and> s' \<noteq> Pending
       \<longrightarrow> moves NewExecutionMachine s s')"
  using card_hub [of s] card_hub [of s'] execution_hub [of s] execution_hub [of s'] moves_trans by blast

theorem no_dead_end_witness: "moves NewCardMachine Done Dropped \<and> moves NewExecutionMachine Aborted Done"
  using no_dead_end [of Done Dropped] no_dead_end [of Aborted Done] by (simp add: type_statuses_def)

text \<open>
  The automatic transition of an execution task, on the payload with the derived traits
  injected: nothing happens before the hook has exited; then a reported failure aborts, otherwise
  the task is done, and the report's message becomes the action's payload.
\<close>

theorem auto_advance_outcome:
  assumes "t_status t = Executing" and "t_exec t = Some e" and "payload_decodes (ex_payload e)"
  shows "AdvanceFull NewExecutionMachine (with_payload (injectLifecycle (ex_payload e) lc) t) =
     (let t' = with_payload (injectLifecycle (ex_payload e) lc) t;
          msg = (\<lambda>m. Some (Raw (JObj [(''message'', JStr m)])))
      in if \<not> lc_executed lc then None
         else case lc_fail lc of
           Some m \<Rightarrow> Some \<lparr>ao_task = t'\<lparr>t_status := Aborted\<rparr>, ao_action_payload = msg m\<rparr>
         | None \<Rightarrow>
             (case lc_done lc of
                Some m \<Rightarrow> Some \<lparr>ao_task = t'\<lparr>t_status := Done\<rparr>, ao_action_payload = msg m\<rparr>
              | None \<Rightarrow> Some \<lparr>ao_task = t'\<lparr>t_status := Done\<rparr>, ao_action_payload = None\<rparr>))"
proof -
  let ?p = "injectLifecycle (ex_payload e) lc"
  have "t_status (with_payload ?p t) = Executing"
    "t_exec (with_payload ?p t) = Some (e\<lparr>ex_payload := ?p\<rparr>)"
    using assms(1,2) by (simp_all add: with_payload_def)
  from advance_executing [OF this] show ?thesis
    using assms(3) injected_executed [of "ex_payload e" lc] injected_reports [OF assms(3), of lc]
    by (auto simp: Let_def report_payload_def split: option.splits)
qed

theorem auto_advance_outcome_witness:
  "AdvanceFull NewExecutionMachine
     (with_payload (injectLifecycle RawEmpty ((lc_init True)\<lparr>lc_fail := Some ''boom''\<rparr>))
       (sample_exec Executing RawEmpty))
   \<noteq> None"
proof -
  let ?t = "sample_exec Executing RawEmpty"
  obtain e where e: "t_exec ?t = Some e" "ex_payload e = RawEmpty" by (simp add: sample_exec_def)
  have "t_status ?t = Executing" "payload_decodes (ex_payload e)"
    by (simp_all add: sample_exec_def sample_card_def payload_decodes_def e)
  from auto_advance_outcome [OF this(1) e(1) this(2), of "(lc_init True)\<lparr>lc_fail := Some ''boom''\<rparr>"]
  show ?thesis by (simp add: e Let_def)
qed

end
