(* ===== verification/Card_Actions.thy ===== *)
theory Card_Actions
  imports Task_Rows State_Machine
begin

text \<open>
  The card actions, \<open>workflow_card.go\<close>, \<open>suggestion_accept.go\<close> and \<open>attrs_set_done.go\<close>: the parsing of
  their payloads, done before a transaction opens, and their effects on the card columns, done inside it.
\<close>

section \<open>Payloads\<close>

record park_payload =
  pp_wake_at :: string
  pp_wake_task_id :: string

definition park_zero :: park_payload where "park_zero = \<lparr>pp_wake_at = [], pp_wake_task_id = []\<rparr>"

definition park_fields :: "(string \<times> park_payload field_dec) list" where
  "park_fields =
     [(''wake_at'', dec_string (\<lambda>s r. r\<lparr>pp_wake_at := s\<rparr>)), (''wake_task_id'', dec_string (\<lambda>s r. r\<lparr>pp_wake_task_id := s\<rparr>))]"

definition parseParkPayload :: "raw_message \<Rightarrow> http_error + park_payload" where
  "parseParkPayload payload =
     (if payload = RawEmpty then Inr park_zero
      else and_then (of_option BadRequest (unmarshal_struct park_fields payload park_zero)) (\<lambda>p.
           and_then (guard (pp_wake_at p = [] \<or> parse_rfc3339 (pp_wake_at p) \<noteq> None) BadRequest) (\<lambda>_. Inr p)))"

definition childAddedPayload_fields :: "(string \<times> triage_child field_dec) list" where
  "childAddedPayload_fields =
     [(''id'', dec_string (\<lambda>s r. r\<lparr>ch_id := s\<rparr>)), (''title'', dec_string (\<lambda>s r. r\<lparr>ch_title := s\<rparr>))]"

text \<open>The payload fills the id and the title of the child that is added.\<close>

definition parseChildAddedPayload :: "raw_message \<Rightarrow> http_error + triage_child" where
  "parseChildAddedPayload payload =
     and_then (guard (payload \<noteq> RawEmpty) BadRequest) (\<lambda>_.
     and_then (of_option BadRequest (unmarshal_struct childAddedPayload_fields payload child_zero)) (\<lambda>p.
     and_then (guard (ch_id p \<noteq> []) BadRequest) (\<lambda>_. Inr p)))"

text \<open>The reason of a drop stays in the action; the id is what the effect needs.\<close>

definition childDroppedPayload_fields :: "(string \<times> (string \<times> string) field_dec) list" where
  "childDroppedPayload_fields =
     [(''id'', dec_string (\<lambda>s r. (s, snd r))), (''reason'', dec_string (\<lambda>s r. (fst r, s)))]"

definition parseChildDroppedPayload :: "raw_message \<Rightarrow> http_error + string" where
  "parseChildDroppedPayload payload =
     and_then (guard (payload \<noteq> RawEmpty) BadRequest) (\<lambda>_.
     and_then (of_option BadRequest (unmarshal_struct childDroppedPayload_fields payload ([], []))) (\<lambda>p.
     and_then (guard (fst p \<noteq> []) BadRequest) (\<lambda>_. Inr (fst p))))"

record child_specced_payload =
  sp_id :: string
  sp_title :: string
  sp_spec :: child_spec

definition childSpeccedPayload_fields :: "(string \<times> child_specced_payload field_dec) list" where
  "childSpeccedPayload_fields =
     [(''id'', dec_string (\<lambda>s r. r\<lparr>sp_id := s\<rparr>)), (''title'', dec_string (\<lambda>s r. r\<lparr>sp_title := s\<rparr>)),
      (''project'', dec_string (\<lambda>s r. r\<lparr>sp_spec := (sp_spec r)\<lparr>cs_project := s\<rparr>\<rparr>)),
      (''behavior'', dec_string (\<lambda>s r. r\<lparr>sp_spec := (sp_spec r)\<lparr>cs_behavior := s\<rparr>\<rparr>)),
      (''description'', dec_string (\<lambda>s r. r\<lparr>sp_spec := (sp_spec r)\<lparr>cs_description := s\<rparr>\<rparr>)),
      (''instruction'', dec_string (\<lambda>s r. r\<lparr>sp_spec := (sp_spec r)\<lparr>cs_instruction := s\<rparr>\<rparr>))]"

definition parseChildSpeccedPayload :: "raw_message \<Rightarrow> http_error + child_specced_payload" where
  "parseChildSpeccedPayload payload =
     and_then (guard (payload \<noteq> RawEmpty) BadRequest) (\<lambda>_.
     and_then (of_option BadRequest (unmarshal_struct childSpeccedPayload_fields payload
       \<lparr>sp_id = [], sp_title = [], sp_spec = spec_zero\<rparr>)) (\<lambda>p.
     and_then (guard (sp_id p \<noteq> []) BadRequest) (\<lambda>_.
     and_then (guard (cs_project (sp_spec p) \<noteq> []) BadRequest) (\<lambda>_. Inr p))))"

definition promotedAttrVocabulary :: "(string \<times> string list) list" where
  "promotedAttrVocabulary =
     [(''urgency'', [''now'', ''today'', ''week'', ''someday'']), (''kind'', [''signal'', ''issue'', ''theme'']),
      (''suggestion'', [''go'', ''start'', ''park'', ''drop'', ''complete'', ''reopen''])]"

definition parsePromotedAttr :: "string \<Rightarrow> json \<Rightarrow> http_error + string" where
  "parsePromotedAttr key raw =
     (if raw = JNull then Inr []
      else case unmarshal_string raw of
        None \<Rightarrow> Inl BadRequest
      | Some val \<Rightarrow>
          and_then (guard (val \<in> set (case map_of promotedAttrVocabulary key of None \<Rightarrow> [] | Some vs \<Rightarrow> vs)) BadRequest)
            (\<lambda>_. Inr val))"

record suggestion_attr =
  sa_verb :: string
  sa_reason :: string
  sa_params :: park_payload

definition suggestion_attr_zero :: suggestion_attr where
  "suggestion_attr_zero = \<lparr>sa_verb = [], sa_reason = [], sa_params = park_zero\<rparr>"

definition suggestion_attr_fields :: "(string \<times> suggestion_attr field_dec) list" where
  "suggestion_attr_fields =
     [(''verb'', dec_string (\<lambda>s r. r\<lparr>sa_verb := s\<rparr>)), (''reason'', dec_string (\<lambda>s r. r\<lparr>sa_reason := s\<rparr>)),
      (''params'', \<lambda>v r. map_option (\<lambda>p. r\<lparr>sa_params := p\<rparr>) (decode_struct park_fields v (sa_params r)))]"

definition validateSuggestionAttr :: "json \<Rightarrow> http_error + (json \<times> string)" where
  "validateSuggestionAttr raw =
     (if raw = JNull then Inr (raw, [])
      else and_then (of_option BadRequest (decode_struct suggestion_attr_fields raw suggestion_attr_zero)) (\<lambda>s.
        let verb = NormalizeCardVerb (sa_verb s); wake = pp_wake_at (sa_params s) in
        and_then (guard (IsCardTransitionAction verb) BadRequest) (\<lambda>_.
        and_then (guard (wake = [] \<or> parse_rfc3339 wake \<noteq> None) BadRequest) (\<lambda>_.
        if verb = sa_verb s then Inr (raw, verb)
        else and_then (of_option BadRequest (unmarshal_map (Raw raw))) (\<lambda>m.
             Inr (marshal_map (AList.update ''verb'' (JStr verb) m), verb))))))"

text \<open>For a promoted key \<open>None\<close> is an absent key and \<open>Some []\<close> an explicit null.\<close>

record attrs_set_patch =
  ap_attrs :: gomap
  ap_urgency :: "string option"
  ap_kind :: "string option"
  ap_verb :: "string option"

definition parseAttrsSetObject :: "raw_message \<Rightarrow> http_error + gomap" where
  "parseAttrsSetObject payload =
     and_then (guard (payload \<noteq> RawEmpty) BadRequest) (\<lambda>_.
     and_then (of_option BadRequest (unmarshal_map payload)) (\<lambda>m.
     and_then (guard (m \<noteq> []) BadRequest) (\<lambda>_. Inr m)))"

fun parse_attrs :: "gomap \<Rightarrow> attrs_set_patch \<Rightarrow> http_error + attrs_set_patch" where
  "parse_attrs [] patch = Inr patch"
| "parse_attrs ((k, v) # raw) patch =
     and_then
       (if k = ''urgency'' then and_then (parsePromotedAttr k v) (\<lambda>val. Inr (patch\<lparr>ap_urgency := Some val\<rparr>))
        else if k = ''kind'' then and_then (parsePromotedAttr k v) (\<lambda>val. Inr (patch\<lparr>ap_kind := Some val\<rparr>))
        else if k = ''suggestion'' then
          and_then (validateSuggestionAttr v) (\<lambda>(normalized, verb).
            Inr (patch\<lparr>ap_attrs := AList.update k normalized (ap_attrs patch), ap_verb := Some verb\<rparr>))
        else Inr (patch\<lparr>ap_attrs := AList.update k v (ap_attrs patch)\<rparr>)) (\<lambda>patch'.
     parse_attrs raw patch')"

definition parseAttrsSetPayload :: "raw_message \<Rightarrow> http_error + attrs_set_patch" where
  "parseAttrsSetPayload payload =
     and_then (parseAttrsSetObject payload) (\<lambda>raw.
     parse_attrs raw \<lparr>ap_attrs = [], ap_urgency = None, ap_kind = None, ap_verb = None\<rparr>)"

definition parseNotedPayload :: "raw_message \<Rightarrow> http_error + unit" where
  "parseNotedPayload payload = guard (payload \<noteq> RawBad) BadRequest"

record answered_payload =
  an_answer :: string
  an_verb :: string
  an_basis :: string

definition answered_fields :: "(string \<times> answered_payload field_dec) list" where
  "answered_fields =
     [(''answer'', dec_string (\<lambda>s r. r\<lparr>an_answer := s\<rparr>)), (''verb'', dec_string (\<lambda>s r. r\<lparr>an_verb := s\<rparr>)),
      (''basis'', dec_string (\<lambda>s r. r\<lparr>an_basis := s\<rparr>))]"

definition parseAnsweredPayload :: "raw_message \<Rightarrow> http_error + answered_payload" where
  "parseAnsweredPayload payload =
     and_then (guard (payload \<noteq> RawEmpty) BadRequest) (\<lambda>_.
     and_then (of_option BadRequest (unmarshal_struct answered_fields payload \<lparr>an_answer = [], an_verb = [], an_basis = []\<rparr>)) (\<lambda>p.
     and_then (guard (an_answer p = ''accept'' \<or> an_answer p = ''reject'') BadRequest) (\<lambda>_. Inr p)))"

section \<open>Effects\<close>

text \<open>A missing row starts from empty attributes; the write that follows then fails, since no such card exists.\<close>

definition triage_or_zero :: "string \<Rightarrow> orch_store \<Rightarrow> card_attrs" where
  "triage_or_zero taskID st = (case GetTaskTriage taskID st of None \<Rightarrow> card_zero taskID | Some tt \<Rightarrow> tt)"

definition applyParkSideEffect :: "string \<Rightarrow> park_payload \<Rightarrow> orch_store \<Rightarrow> http_error + orch_store" where
  "applyParkSideEffect taskID p st =
     and_then (guard (pp_wake_at p = [] \<or> parse_rfc3339 (pp_wake_at p) \<noteq> None) BadRequest) (\<lambda>_.
     tx_Upsert ((triage_or_zero taskID st)
       \<lparr>ca_wake_at := (if pp_wake_at p = [] then None else parse_rfc3339 (pp_wake_at p)),
        ca_wake_task_id := pp_wake_task_id p\<rparr>) st)"

text \<open>The live children that belong to a running card command do not take the slot of the next step.\<close>

definition command_continuation :: "card_request \<Rightarrow> bool" where
  "command_continuation r \<longleftrightarrow>
     cr_status r = RAttached \<and> cr_command_key r \<noteq> CardRequestCommandKeyGo
     \<and> cr_target_kind r = CardRequestTargetKindTask \<and> cr_target_id r \<noteq> []"

definition cardSpecSlotOccupied :: "string \<Rightarrow> orch_store \<Rightarrow> http_error + bool" where
  "cardSpecSlotOccupied cardID st =
     (case read_task cardID st of
        None \<Rightarrow> Inl ServerError
      | Some cardTask \<Rightarrow>
          let observed = filter (\<lambda>c. \<not> IsTerminalStatus (t_status c)) (ListChildren cardID st);
              commandContinuations = map cr_target_id (filter command_continuation (ListCardRequestsByCard cardID st))
          in if t_open_child_count cardTask > 0
                \<and> (list_ex (\<lambda>c. t_id c \<notin> set commandContinuations) observed \<or> length observed < t_open_child_count cardTask)
             then Inr True
             else case GetTaskTriage cardID st of
               None \<Rightarrow> Inr False
             | Some tt \<Rightarrow>
                 and_then (map_err (\<lambda>_. ServerError) (DetailOpenSlotChildID (ca_detail tt))) (\<lambda>occupantID.
                 Inr (occupantID \<noteq> [])))"

definition cardSpecOrExecutionSlotOccupied :: "string \<Rightarrow> orch_store \<Rightarrow> http_error + bool" where
  "cardSpecOrExecutionSlotOccupied cardID st =
     (if CountActiveCardRequests cardID st > 0 then Inr True else cardSpecSlotOccupied cardID st)"

definition applyChildAddedSideEffect :: "string \<Rightarrow> triage_child \<Rightarrow> orch_store \<Rightarrow> http_error + orch_store" where
  "applyChildAddedSideEffect taskID p st =
     (let tt = triage_or_zero taskID st in
      and_then (map_err (\<lambda>_. ServerError) (DetailChildren (ca_detail tt))) (\<lambda>existing.
      and_then (if ch_id p \<in> set (map ch_id existing) then Inr ()
                else and_then (cardSpecSlotOccupied taskID st) (\<lambda>occupied. guard (\<not> occupied) Conflict)) (\<lambda>_.
      and_then (map_err (\<lambda>_. ServerError) (AddDetailChild (ca_detail tt) p)) (\<lambda>newDetail.
      tx_Upsert (tt\<lparr>ca_detail := newDetail\<rparr>) st))))"

definition applyChildDroppedSideEffect :: "string \<Rightarrow> string \<Rightarrow> orch_store \<Rightarrow> http_error + orch_store" where
  "applyChildDroppedSideEffect taskID cid st =
     (let tt = triage_or_zero taskID st in
      and_then (map_err (\<lambda>_. Conflict) (DropDetailChild (ca_detail tt) cid)) (\<lambda>(newDetail, changed).
      if changed then tx_Upsert (tt\<lparr>ca_detail := newDetail\<rparr>) st else Inr st))"

definition applyChildSpeccedSideEffect :: "string \<Rightarrow> child_specced_payload \<Rightarrow> orch_store \<Rightarrow> http_error + orch_store" where
  "applyChildSpeccedSideEffect taskID p st =
     (let tt = triage_or_zero taskID st in
      and_then (map_err (\<lambda>_. Conflict) (SpecDetailChild (ca_detail tt) (sp_id p) (sp_spec p) (sp_title p))) (\<lambda>newDetail.
      tx_Upsert (tt\<lparr>ca_detail := newDetail\<rparr>) st))"

definition applyAttrsSetSideEffect :: "string \<Rightarrow> attrs_set_patch \<Rightarrow> orch_store \<Rightarrow> http_error + (bool \<times> orch_store)" where
  "applyAttrsSetSideEffect taskID patch st =
     (let tt = triage_or_zero taskID st in
      and_then (if ap_attrs patch = [] then Inr (ca_detail tt)
                else map_err (\<lambda>_. ServerError) (FoldDetailAttrs (ca_detail tt) (ap_attrs patch))) (\<lambda>folded.
      and_then (map_err (\<lambda>_. ServerError) (StripDetailAttrs folded [''urgency'', ''kind''])) (\<lambda>stripped.
      and_then (tx_Upsert (tt\<lparr>ca_detail := stripped,
                 ca_urgency := (case ap_urgency patch of None \<Rightarrow> ca_urgency tt | Some u \<Rightarrow> u),
                 ca_kind := (case ap_kind patch of None \<Rightarrow> ca_kind tt | Some k \<Rightarrow> k),
                 ca_suggestion_verb := (case ap_verb patch of None \<Rightarrow> ca_suggestion_verb tt | Some v \<Rightarrow> v)\<rparr>) st) (\<lambda>st'.
      Inr (case ap_verb patch of None \<Rightarrow> False | Some v \<Rightarrow> v \<noteq> ca_suggestion_verb tt, st')))))"

definition applyAnsweredSideEffect :: "string \<Rightarrow> orch_store \<Rightarrow> http_error + orch_store" where
  "applyAnsweredSideEffect taskID st =
     (case GetTaskTriage taskID st of
        None \<Rightarrow> Inr st
      | Some tt \<Rightarrow>
          and_then (map_err (\<lambda>_. ServerError) (StripDetailAttrs (ca_detail tt) [''suggestion''])) (\<lambda>stripped.
          tx_Upsert (tt\<lparr>ca_detail := stripped, ca_suggestion_verb := []\<rparr>) st))"

definition recordAndStripSuggestionIfPresent ::
  "request_ctx \<Rightarrow> string \<Rightarrow> action \<Rightarrow> orch_store \<Rightarrow> http_error + orch_store" where
  "recordAndStripSuggestionIfPresent cx taskID transition st =
     (case GetTaskTriage taskID st of
        None \<Rightarrow> Inr st
      | Some tt \<Rightarrow>
          (case DetailSuggestion (ca_detail tt) of
             None \<Rightarrow> Inr st
           | Some sugg \<Rightarrow>
               if sg_verb sugg = [] then Inr st
               else and_then (tx_CreateAction cx ''suggestion_discarded''
                      (new_action taskID ''suggestion_discarded'' (ac_from_status transition) (ac_to_status transition)
                        (Raw (JObj [(''reason'', JStr (sg_reason sugg)), (''superseding_action'', JStr (ac_type transition)),
                                    (''verb'', JStr (sg_verb sugg))])) (ac_actor transition)) st) (\<lambda>(_, st1).
                    and_then (map_err (\<lambda>_. ServerError) (StripDetailAttrs (ca_detail tt) [''suggestion''])) (\<lambda>stripped.
                    tx_Upsert (tt\<lparr>ca_detail := stripped, ca_suggestion_verb := []\<rparr>) st1))))"

section \<open>Writes to a done card\<close>

definition doneCardWritableActions :: "string list" where
  "doneCardWritableActions = [''attrs_set'', ''child_added'', ''child_specced'']"

text \<open>\<open>None\<close> for \<open>triage\<close> is a service without the reader of card attributes.\<close>

definition resolveAttrsSetDoneTransition ::
  "state_machine \<Rightarrow> task \<Rightarrow> action \<Rightarrow> (string \<Rightarrow> card_attrs option) option \<Rightarrow> http_error + task" where
  "resolveAttrsSetDoneTransition sm t a triage =
     (if ac_type a \<in> set doneCardWritableActions \<and> t_status t = Done
         \<and> (case triage of None \<Rightarrow> False | Some get \<Rightarrow> get (t_id t) \<noteq> None)
      then Inr t
      else map_err (\<lambda>_. Conflict) (Apply sm t a))"

end
