(* ===== verification/Payload_Merge.thy ===== *)
theory Payload_Merge
  imports Task_Model Sql_Table
begin

text \<open>
  The payload of a task: \<open>spec_payload.go\<close> (the merge of patches and updates), \<open>awaiting_payload.go\<close>
  (the trait of a pending question) and the trait types of \<open>spec_types.go\<close>. A payload is a
  \<open>raw_message\<close>; the loops over decoded maps touch each key on its own, so their order does not matter.
\<close>

section \<open>Traits\<close>

type_synonym trait = string

datatype merge_mode = MergeModeExclusive | MergeModeShared

definition TraitMergeMode :: "trait \<Rightarrow> merge_mode" where
  "TraitMergeMode t = (if t = ''verification'' then MergeModeShared else MergeModeExclusive)"

definition IsOptional :: "trait \<Rightarrow> bool" where
  "IsOptional t \<longleftrightarrow> t \<noteq> [] \<and> last t = CHR ''?''"

definition Base :: "trait \<Rightarrow> trait" where
  "Base t = (if IsOptional t then butlast t else t)"

datatype payload_error = ErrReservedKey | ErrUnmarshalBase | ErrUnmarshalPatch | ErrNotProduced trait | ErrInstructionsKey

definition ActiveTraitTypes :: "raw_message \<Rightarrow> payload_error + trait list" where
  "ActiveTraitTypes raw =
     (if blank_raw raw then Inr []
      else case unmarshal_map raw of
        None \<Rightarrow> Inl ErrUnmarshalPatch
      | Some m \<Rightarrow> Inr (map fst (filter (\<lambda>(_, v). v \<noteq> JNull) m)))"

definition ValidatePayloadPatch :: "raw_message \<Rightarrow> trait list \<Rightarrow> payload_error + unit" where
  "ValidatePayloadPatch patch allowed =
     (if blank_raw patch then Inr ()
      else case unmarshal_map patch of
        None \<Rightarrow> Inl ErrUnmarshalPatch
      | Some m \<Rightarrow>
          (case find (\<lambda>k. k \<notin> set allowed) (map fst m) of None \<Rightarrow> Inr () | Some k \<Rightarrow> Inl (ErrNotProduced k)))"

definition RejectReservedPayloadKeys :: "raw_message \<Rightarrow> payload_error + unit" where
  "RejectReservedPayloadKeys payload =
     (if blank_raw payload then Inr ()
      else case unmarshal_map payload of
        None \<Rightarrow> Inr ()
      | Some m \<Rightarrow>
          (case map_of m ''artifact'' of
             None \<Rightarrow> Inr ()
           | Some artifactRaw \<Rightarrow>
               (case unmarshal_map (Raw artifactRaw) of
                  None \<Rightarrow> Inr ()
                | Some artifact \<Rightarrow> guard (map_of artifact ''children'' = None) ErrReservedKey)))"

section \<open>Merging objects\<close>

definition mergeObjectsShallow :: "json \<Rightarrow> json \<Rightarrow> json option" where
  "mergeObjectsShallow base patch =
     (case (unmarshal_object base, unmarshal_object patch) of
        (Some baseObj, Some patchObj) \<Rightarrow> Some (marshal_map (maps_copy baseObj patchObj))
      | _ \<Rightarrow> None)"

type_synonym session_key = "string \<times> string"

definition session_fields :: "(string \<times> session_key field_dec) list" where
  "session_fields =
     [(''type'', dec_string (\<lambda>s k. (s, snd k))), (''name'', dec_string (\<lambda>s k. (fst k, s)))]"

definition keyOf :: "json \<Rightarrow> session_key option" where
  "keyOf item = unmarshal_struct session_fields (Raw item) ([], [])"

definition parseItems :: "json \<Rightarrow> json list option" where
  "parseItems raw = (case raw of JArr items \<Rightarrow> Some items | JNull \<Rightarrow> Some [] | _ \<Rightarrow> None)"

text \<open>The loop over the items: the keys in the order they were first seen, and the last item of each.\<close>

fun add_sessions ::
  "json list \<Rightarrow> session_key list \<times> (session_key \<times> json) list \<Rightarrow>
     (session_key list \<times> (session_key \<times> json) list) option" where
  "add_sessions [] st = Some st"
| "add_sessions (item # items) (order, byKey) =
     (case keyOf item of
        None \<Rightarrow> None
      | Some k \<Rightarrow>
          add_sessions items (if map_of byKey k = None then order @ [k] else order, AList.update k item byKey))"

definition mergeClaudeSessions :: "json option \<Rightarrow> json option \<Rightarrow> json option" where
  "mergeClaudeSessions existing patch =
     (case (existing, patch) of
        (Some e, Some p) \<Rightarrow>
          (case (parseItems e, parseItems p) of
             (Some existingItems, Some patchItems) \<Rightarrow>
               (case add_sessions (existingItems @ patchItems) ([], []) of
                  None \<Rightarrow> None
                | Some (order, byKey) \<Rightarrow> Some (JArr (map (\<lambda>k. the (map_of byKey k)) order)))
           | _ \<Rightarrow> None)
      | _ \<Rightarrow> None)"

text \<open>
  \<open>mergeClaudeCodeArtifact\<close> and \<open>mergeArtifactPatch\<close> have one shape: one sub-key is merged by a merge
  of its own, the result overrides the patch, and the patch is copied over the existing object.
\<close>

definition merge_with_subkey ::
  "string \<Rightarrow> (json option \<Rightarrow> json option \<Rightarrow> json option) \<Rightarrow> json \<Rightarrow> json \<Rightarrow> json option" where
  "merge_with_subkey sub merge existing patch =
     (case (unmarshal_object existing, unmarshal_object patch) of
        (Some existingObj, Some patchObj) \<Rightarrow>
          let patchObj' = (case merge (map_of existingObj sub) (map_of patchObj sub) of
                             None \<Rightarrow> patchObj
                           | Some merged \<Rightarrow> AList.update sub merged patchObj)
          in Some (marshal_map (maps_copy existingObj patchObj'))
      | _ \<Rightarrow> None)"

definition mergeClaudeCodeArtifact :: "json option \<Rightarrow> json option \<Rightarrow> json option" where
  "mergeClaudeCodeArtifact existing patch =
     (case (existing, patch) of
        (Some e, Some p) \<Rightarrow> merge_with_subkey ''sessions'' mergeClaudeSessions e p
      | _ \<Rightarrow> None)"

definition mergeArtifactPatch :: "json \<Rightarrow> json \<Rightarrow> json option" where
  "mergeArtifactPatch existing patch = merge_with_subkey ''claude_code'' mergeClaudeCodeArtifact existing patch"

section \<open>Merging payloads\<close>

definition merge_shared :: "string \<Rightarrow> json option \<Rightarrow> json \<Rightarrow> json" where
  "merge_shared handlerID existing value =
     (let shared = (case existing of
                      None \<Rightarrow> []
                    | Some v \<Rightarrow> (case unmarshal_object v of None \<Rightarrow> [] | Some m \<Rightarrow> m))
      in marshal_map (AList.update handlerID value shared))"

definition merge_exclusive :: "trait \<Rightarrow> json option \<Rightarrow> json \<Rightarrow> json" where
  "merge_exclusive trait existing value =
     (case existing of
        None \<Rightarrow> value
      | Some e \<Rightarrow>
          (case (if trait = ''artifact'' then mergeArtifactPatch e value else None) of
             Some merged \<Rightarrow> merged
           | None \<Rightarrow> (case mergeObjectsShallow e value of Some merged \<Rightarrow> merged | None \<Rightarrow> value)))"

definition merge_key :: "string \<Rightarrow> trait list option \<Rightarrow> string \<times> json \<Rightarrow> gomap \<Rightarrow> gomap" where
  "merge_key handlerID allowed kv baseMap =
     (case kv of (key, value) \<Rightarrow>
        if (case allowed of None \<Rightarrow> False | Some ts \<Rightarrow> key \<notin> set ts) then baseMap
        else AList.update key
          (case TraitMergeMode key of
             MergeModeShared \<Rightarrow> merge_shared handlerID (map_of baseMap key) value
           | MergeModeExclusive \<Rightarrow> merge_exclusive key (map_of baseMap key) value) baseMap)"

text \<open>\<open>None\<close> for \<open>allowed\<close> is the nil slice, which allows every trait.\<close>

definition MergePayloadPatch ::
  "raw_message \<Rightarrow> raw_message \<Rightarrow> string \<Rightarrow> trait list option \<Rightarrow> payload_error + raw_message" where
  "MergePayloadPatch base patch handlerID allowed =
     (if blank_raw patch then Inr (if base = RawEmpty then Raw (JObj []) else base)
      else and_then (RejectReservedPayloadKeys patch) (\<lambda>_.
      case (if blank_raw base then Some [] else unmarshal_map base) of
        None \<Rightarrow> Inl ErrUnmarshalBase
      | Some baseMap \<Rightarrow>
          (case unmarshal_map patch of
             None \<Rightarrow> Inl ErrUnmarshalPatch
           | Some patchMap \<Rightarrow> Inr (Raw (marshal_map (fold (merge_key handlerID allowed) patchMap baseMap))))))"

definition FilterPayloadByTraits :: "raw_message \<Rightarrow> trait list \<Rightarrow> raw_message" where
  "FilterPayloadByTraits payload consumes =
     (if consumes = [] \<or> blank_raw payload then Raw (JObj [])
      else case unmarshal_map payload of
        None \<Rightarrow> Raw (JObj [])
      | Some m \<Rightarrow> Raw (marshal_map (filter (\<lambda>(k, _). k \<in> set (map Base consumes)) m)))"

definition update_key :: "string \<times> json \<Rightarrow> gomap \<Rightarrow> gomap" where
  "update_key kv baseMap =
     (case kv of (key, value) \<Rightarrow>
        if value = JNull then baseMap
        else AList.update key
          (case map_of baseMap key of
             None \<Rightarrow> value
           | Some e \<Rightarrow> (case mergeObjectsShallow e value of Some merged \<Rightarrow> merged | None \<Rightarrow> value)) baseMap)"

definition MergePayload :: "raw_message \<Rightarrow> raw_message \<Rightarrow> payload_error + raw_message" where
  "MergePayload base upd =
     (if blank_raw upd then Inr (if base = RawEmpty then Raw (JObj []) else base)
      else if blank_raw base then Inr upd
      else case unmarshal_map base of
        None \<Rightarrow> Inl ErrUnmarshalBase
      | Some baseMap \<Rightarrow>
          (case unmarshal_map upd of
             None \<Rightarrow> Inl ErrUnmarshalPatch
           | Some updateMap \<Rightarrow> Inr (Raw (marshal_map (fold update_key updateMap baseMap)))))"

section \<open>The awaiting trait\<close>

record awaiting_payload =
  aw_question :: string
  aw_question_id :: string
  aw_pending_answer :: string
  aw_pending_answer_actor :: string

definition awaiting_zero :: awaiting_payload where
  "awaiting_zero = \<lparr>aw_question = [], aw_question_id = [], aw_pending_answer = [], aw_pending_answer_actor = []\<rparr>"

definition awaiting_fields :: "(string \<times> awaiting_payload field_dec) list" where
  "awaiting_fields =
     [(''question'', dec_string (\<lambda>s r. r\<lparr>aw_question := s\<rparr>)),
      (''question_id'', dec_string (\<lambda>s r. r\<lparr>aw_question_id := s\<rparr>)),
      (''pending_answer'', dec_string (\<lambda>s r. r\<lparr>aw_pending_answer := s\<rparr>)),
      (''pending_answer_actor'', dec_string (\<lambda>s r. r\<lparr>aw_pending_answer_actor := s\<rparr>))]"

text \<open>\<open>json.Marshal\<close> with every field \<open>omitempty\<close>.\<close>

definition marshal_awaiting :: "awaiting_payload \<Rightarrow> json" where
  "marshal_awaiting ap =
     JObj (map (\<lambda>(k, s). (k, JStr s)) (filter (\<lambda>(_, s). s \<noteq> [])
       [(''question'', aw_question ap), (''question_id'', aw_question_id ap),
        (''pending_answer'', aw_pending_answer ap), (''pending_answer_actor'', aw_pending_answer_actor ap)]))"

definition ClearPendingAnswer :: "raw_message \<Rightarrow> raw_message" where
  "ClearPendingAnswer payload =
     (if payload = RawEmpty then payload
      else case unmarshal_map payload of
        None \<Rightarrow> payload
      | Some m \<Rightarrow>
          (case map_of m ''awaiting'' of
             None \<Rightarrow> payload
           | Some raw \<Rightarrow>
               if raw = JNull then payload
               else case unmarshal_struct awaiting_fields (Raw raw) awaiting_zero of
                 None \<Rightarrow> payload
               | Some ap \<Rightarrow>
                   if aw_pending_answer ap = [] then payload
                   else Raw (marshal_map (AList.update ''awaiting''
                          (marshal_awaiting (ap\<lparr>aw_pending_answer := [], aw_pending_answer_actor := []\<rparr>)) m))))"

text \<open>
  A failed decode leaves the fields decoded before the failure; the member that fails is the first one of
  a wrong type, so the fields are those of the members before it and of the well-typed ones after it.
\<close>

fun decode_lenient :: "(string \<times> 'r field_dec) list \<Rightarrow> (string \<times> json) list \<Rightarrow> 'r \<Rightarrow> 'r" where
  "decode_lenient fs [] r = r"
| "decode_lenient fs ((k, v) # ms) r =
     decode_lenient fs ms (case find_field fs k of None \<Rightarrow> r | Some d \<Rightarrow> (case d v r of None \<Rightarrow> r | Some r' \<Rightarrow> r'))"

definition lenient_awaiting :: "json \<Rightarrow> awaiting_payload" where
  "lenient_awaiting v = (case v of JObj ms \<Rightarrow> decode_lenient awaiting_fields ms awaiting_zero | _ \<Rightarrow> awaiting_zero)"

text \<open>
  A payload \<open>null\<close> sets the map that is written to afterwards to nil; the write panics. \<open>None\<close> stands for
  that panic.
\<close>

definition SetPendingAnswer :: "raw_message \<Rightarrow> string \<Rightarrow> string \<Rightarrow> raw_message option" where
  "SetPendingAnswer payload answer actor =
     (if payload = Raw JNull then None
      else case (if payload = RawEmpty then Some [] else unmarshal_map payload) of
        None \<Rightarrow> Some payload
      | Some m \<Rightarrow>
          let ap = (case map_of m ''awaiting'' of None \<Rightarrow> awaiting_zero | Some raw \<Rightarrow> lenient_awaiting raw)
          in Some (Raw (marshal_map (AList.update ''awaiting''
               (marshal_awaiting (ap\<lparr>aw_pending_answer := answer, aw_pending_answer_actor := actor\<rparr>)) m))))"

definition StripAwaitingTrait :: "raw_message \<Rightarrow> raw_message" where
  "StripAwaitingTrait payload =
     (if payload = RawEmpty then payload
      else case unmarshal_map payload of
        None \<Rightarrow> payload
      | Some m \<Rightarrow>
          if map_of m ''awaiting'' = None then payload
          else Raw (marshal_map (AList.delete ''awaiting'' m)))"

definition GetAwaitingPayload :: "raw_message \<Rightarrow> awaiting_payload" where
  "GetAwaitingPayload payload =
     (if payload = RawEmpty then awaiting_zero
      else case unmarshal_map payload of
        None \<Rightarrow> awaiting_zero
      | Some m \<Rightarrow>
          (case map_of m ''awaiting'' of None \<Rightarrow> awaiting_zero | Some raw \<Rightarrow> lenient_awaiting raw))"

end
