(* ===== verification/Hook_Dispatch.thy ===== *)
theory Hook_Dispatch
  imports Payload_Merge State_Machine
begin

text \<open>
  From an executing task to its hooks and back: the instruction history (\<open>payload_merge.go\<close>), the choice of
  hooks (\<open>evaluator.go\<close>) and a dispatch cycle (\<open>coordinator.go\<close>). The hook executor, the job waiter and
  the YAML decoding of a job's output are arguments of the definitions.
\<close>

section \<open>Instructions\<close>

record routed_instruction =
  ri_role :: string
  ri_agent :: string
  ri_name :: string
  ri_message :: string
  ri_model :: string

definition instruction_zero :: instruction where
  "instruction_zero = \<lparr>in_agent = [], in_name = [], in_message = [], in_model = []\<rparr>"

definition instruction_fields :: "(string \<times> instruction field_dec) list" where
  "instruction_fields =
     [(''agent'', dec_string (\<lambda>s r. r\<lparr>in_agent := s\<rparr>)), (''name'', dec_string (\<lambda>s r. r\<lparr>in_name := s\<rparr>)),
      (''message'', dec_string (\<lambda>s r. r\<lparr>in_message := s\<rparr>)), (''model'', dec_string (\<lambda>s r. r\<lparr>in_model := s\<rparr>))]"

definition decode_instruction :: "json \<Rightarrow> instruction option" where
  "decode_instruction v = decode_struct instruction_fields v instruction_zero"

text \<open>
  \<open>Instructions.UnmarshalJSON\<close>: the array form, and the legacy object form, of which the \<open>main\<close> member is
  kept, else the member that the iteration over the map yields first, which \<open>pick\<close> stands for.
\<close>

definition unmarshal_instructions :: "(string list \<Rightarrow> nat) \<Rightarrow> raw_message \<Rightarrow> instructions option" where
  "unmarshal_instructions pick raw =
     (case raw of
        Raw JNull \<Rightarrow> Some []
      | Raw (JArr vs) \<Rightarrow> those (map decode_instruction vs)
      | Raw (JObj ms) \<Rightarrow>
          (case those (map (\<lambda>(k, v). map_option (Pair k) (decode_instruction v)) ms) of
             None \<Rightarrow> None
           | Some decoded \<Rightarrow>
               let m = AList.clearjunk (rev decoded) in
               (case map_of m ''main'' of
                  Some inst \<Rightarrow> Some [inst]
                | None \<Rightarrow> if m = [] then Some [] else Some [snd (m ! (pick (map fst m) mod length m))]))
      | _ \<Rightarrow> None)"

definition RejectPayloadInstructions :: "raw_message \<Rightarrow> payload_error + unit" where
  "RejectPayloadInstructions payload =
     (if blank_raw payload then Inr ()
      else case unmarshal_map payload of
        None \<Rightarrow> Inr ()
      | Some m \<Rightarrow> guard (map_of m ''instructions'' = None) ErrInstructionsKey)"

definition mergeInstruction :: "instruction \<Rightarrow> instruction \<Rightarrow> instruction" where
  "mergeInstruction base override =
     \<lparr>in_agent = (if in_agent override \<noteq> [] then in_agent override else in_agent base),
      in_name = (if in_name override \<noteq> [] then in_name override else in_name base),
      in_message = (if in_message override \<noteq> [] then in_message override else in_message base),
      in_model = (if in_model override \<noteq> [] then in_model override else in_model base)\<rparr>"

definition MergeDefaultInstructions ::
  "(string list \<Rightarrow> nat) \<Rightarrow> instruction option \<Rightarrow> raw_message \<Rightarrow> instructions option" where
  "MergeDefaultInstructions pick defaultInstruction requestInstructions =
     (let base = (case defaultInstruction of None \<Rightarrow> [] | Some d \<Rightarrow> [d]) in
      if blank_raw requestInstructions \<or> requestInstructions = Raw (JArr []) then Some base
      else case unmarshal_instructions pick requestInstructions of
        None \<Rightarrow> None
      | Some override \<Rightarrow>
          (case (override, defaultInstruction) of
             ([], _) \<Rightarrow> Some base
           | ([inst], Some d) \<Rightarrow> Some [mergeInstruction d inst]
           | _ \<Rightarrow> Some override))"

definition AppendInstruction :: "instructions \<Rightarrow> instruction \<Rightarrow> instructions" where
  "AppendInstruction existing inst = existing @ [inst]"

text \<open>The UTF-8 bytes of the Japanese text.\<close>

definition defaultInstructionMessage :: string where
  "defaultInstructionMessage =
     [CHR 0xE3, CHR 0x82, CHR 0xBF, CHR 0xE3, CHR 0x82, CHR 0xB9, CHR 0xE3, CHR 0x82, CHR 0xAF,
      CHR 0xE3, CHR 0x82, CHR 0x92, CHR 0xE5, CHR 0xAE, CHR 0x9F, CHR 0xE8, CHR 0xA1, CHR 0x8C,
      CHR 0xE3, CHR 0x81, CHR 0x97, CHR 0xE3, CHR 0x81, CHR 0xA6, CHR 0xE3, CHR 0x81, CHR 0x8F,
      CHR 0xE3, CHR 0x81, CHR 0xA0, CHR 0xE3, CHR 0x81, CHR 0x95, CHR 0xE3, CHR 0x81, CHR 0x84]"

definition resolveMessage :: "instruction \<Rightarrow> string" where
  "resolveMessage inst = (if in_message inst \<noteq> [] then in_message inst else defaultInstructionMessage)"

definition FilterInstructions :: "instructions \<Rightarrow> string \<Rightarrow> routed_instruction list" where
  "FilterInstructions insts agent =
     (if agent = [] \<or> insts = [] then []
      else let active = last insts in
           if in_agent active \<noteq> agent then []
           else [\<lparr>ri_role = in_name active, ri_agent = in_agent active, ri_name = in_name active,
                  ri_message = resolveMessage active, ri_model = in_model active\<rparr>])"

definition CurrentInstructions :: "task \<Rightarrow> routed_instruction list" where
  "CurrentInstructions t =
     (case t_exec t of
        None \<Rightarrow> []
      | Some e \<Rightarrow>
          if t_status t \<noteq> Executing \<or> ex_instructions e = [] then []
          else FilterInstructions (ex_instructions e) (in_agent (last (ex_instructions e))))"

section \<open>Choosing hooks\<close>

text \<open>\<open>None\<close> for the produced traits is the nil slice of a hook that declares none.\<close>

record hook =
  hk_id :: string
  hk_name :: string
  hk_kind :: string
  hk_consumes :: "trait list"
  hk_produces :: "trait list option"
  hk_agent :: string
  hk_kit :: string
  hk_command :: string

definition extractInstructionAgents :: "instructions \<Rightarrow> string list" where
  "extractInstructionAgents insts = map in_agent insts"

definition harnessTypeForAgent :: "string \<Rightarrow> string" where
  "harnessTypeForAgent agent =
     (if agent = ''claude-code'' then ''claude''
      else if agent = ''codex'' then ''codex''
      else if agent = ''opencode'' then ''opencode'' else ''shell'')"

definition synthesizeAgentHook :: "task \<Rightarrow> hook option" where
  "synthesizeAgentHook t =
     (case t_exec t of
        None \<Rightarrow> None
      | Some e \<Rightarrow>
          if ex_instructions e = [] then None
          else let agent = in_agent (last (ex_instructions e)) in
               if agent = [] \<or> harnessTypeForAgent agent = ''shell'' then None
               else Some \<lparr>hk_id = ''agent:'' @ agent, hk_name = agent, hk_kind = ''agent'', hk_consumes = [],
                          hk_produces = None, hk_agent = agent, hk_kit = [], hk_command = []\<rparr>)"

definition hasAllTraits :: "trait list \<Rightarrow> trait list \<Rightarrow> bool" where
  "hasAllTraits present required = list_all (\<lambda>t. IsOptional t \<or> t \<in> set present) required"

definition hook_matches :: "trait list \<Rightarrow> string list \<Rightarrow> hook \<Rightarrow> bool" where
  "hook_matches traits agents h \<longleftrightarrow>
     hasAllTraits traits (hk_consumes h)
     \<and> (hk_kind h = ''agent'' \<longrightarrow> hk_agent h \<noteq> [] \<and> hk_agent h \<in> set agents)"

definition Evaluate :: "task \<Rightarrow> hook list \<Rightarrow> hook list" where
  "Evaluate t hooks =
     (case t_exec t of
        None \<Rightarrow> []
      | Some e \<Rightarrow>
          if t_status t \<noteq> Executing then []
          else let traits = (case ActiveTraitTypes (ex_payload e) of Inl _ \<Rightarrow> [] | Inr ts \<Rightarrow> ts);
                   agents = extractInstructionAgents (ex_instructions e);
                   matched = filter (hook_matches traits agents) hooks
               in if list_ex (\<lambda>h. hk_kind h = ''agent'') hooks then matched
                  else matched @ (case synthesizeAgentHook t of None \<Rightarrow> [] | Some h \<Rightarrow> [h]))"

section \<open>Running hooks\<close>

record job_completion =
  jc_job_id :: string
  jc_output :: string
  jc_exit_code :: int

record hook_fire_event =
  ev_id :: string
  ev_task_id :: string
  ev_project_id :: string
  ev_hook :: hook

record handler_result =
  hr_id :: string
  hr_role :: string
  hr_job_id :: string
  hr_exit_code :: int
  hr_payload_patch :: raw_message

text \<open>
  \<open>parse_patch\<close> is the JSON of the \<open>payload_patch\<close> member of a YAML output, or the empty message.
\<close>

record dispatch_wiring =
  dw_execute :: "hook_fire_event \<Rightarrow> string option"
  dw_wait :: "string \<Rightarrow> job_completion option"
  dw_parse_patch :: "string \<Rightarrow> raw_message"
  dw_actions :: "lifecycle_store option"

text \<open>\<open>PanicShortID\<close>: slicing the first eight bytes of a shorter task id panics.\<close>

datatype dispatch_error =
    NoExecAttrs | PanicShortID | ExecuteHookFailed string | WaitHookFailed string | HookFailed string int
  | ExclusiveCollision string string string | BehaviorNotFound string | HookNotFound string
  | HookDoesNotMatch string task_status

definition parseHandlerResult :: "dispatch_wiring \<Rightarrow> string \<Rightarrow> job_completion \<Rightarrow> handler_result" where
  "parseHandlerResult w hid c =
     \<lparr>hr_id = hid, hr_role = ''hook'', hr_job_id = jc_job_id c, hr_exit_code = jc_exit_code c,
      hr_payload_patch = (if jc_output c = [] then RawEmpty else dw_parse_patch w (jc_output c))\<rparr>"

definition fire_event :: "task \<Rightarrow> hook \<Rightarrow> hook_fire_event" where
  "fire_event t h =
     \<lparr>ev_id = ''evt-'' @ take 8 (t_id t) @ ''-'' @ hk_id h, ev_task_id = t_id t, ev_project_id = t_project_id t, ev_hook = h\<rparr>"

fun dispatch_sequential :: "dispatch_wiring \<Rightarrow> task \<Rightarrow> hook list \<Rightarrow> handler_result list \<times> dispatch_error option" where
  "dispatch_sequential w t [] = ([], None)"
| "dispatch_sequential w t (h # hooks) =
     (if length (t_id t) < 8 then ([], Some PanicShortID)
      else case dw_execute w (fire_event t h) of
        None \<Rightarrow> ([], Some (ExecuteHookFailed (hk_id h)))
      | Some jobID \<Rightarrow>
          (case dw_wait w jobID of
             None \<Rightarrow> ([], Some (WaitHookFailed (hk_id h)))
           | Some completion \<Rightarrow>
               let hr = parseHandlerResult w (hk_id h) completion in
               if hr_exit_code hr \<noteq> 0 then ([hr], Some (HookFailed (hk_id h) (hr_exit_code hr)))
               else case dispatch_sequential w t hooks of (rs, err) \<Rightarrow> (hr # rs, err)))"

fun launch_all :: "dispatch_wiring \<Rightarrow> task \<Rightarrow> hook list \<Rightarrow> dispatch_error + (string \<times> string) list" where
  "launch_all w t [] = Inr []"
| "launch_all w t (h # hooks) =
     (if length (t_id t) < 8 then Inl PanicShortID
      else case dw_execute w (fire_event t h) of
        None \<Rightarrow> Inl (ExecuteHookFailed (hk_id h))
      | Some jobID \<Rightarrow> and_then (launch_all w t hooks) (\<lambda>jobs. Inr ((hk_id h, jobID) # jobs)))"

text \<open>
  The goroutines wait for all jobs; the error kept is that of the job first to fail, which \<open>find\<close> fixes as the
  first in the list.
\<close>

definition dispatchParallel :: "dispatch_wiring \<Rightarrow> task \<Rightarrow> hook list \<Rightarrow> handler_result list \<times> dispatch_error option" where
  "dispatchParallel w t hooks =
     (case launch_all w t hooks of
        Inl e \<Rightarrow> ([], Some e)
      | Inr jobs \<Rightarrow>
          (case find (\<lambda>(_, j). dw_wait w j = None) jobs of
             Some (hid, _) \<Rightarrow> ([], Some (WaitHookFailed hid))
           | None \<Rightarrow>
               let results = map (\<lambda>(hid, j). parseHandlerResult w hid (the (dw_wait w j))) jobs in
               (results,
                case find (\<lambda>r. hr_exit_code r \<noteq> 0) results of
                  None \<Rightarrow> None | Some r \<Rightarrow> Some (HookFailed (hr_id r) (hr_exit_code r)))))"

definition dispatchHooks :: "dispatch_wiring \<Rightarrow> task \<Rightarrow> hook list \<Rightarrow> bool \<Rightarrow> handler_result list \<times> dispatch_error option" where
  "dispatchHooks w t hooks parallel =
     (if parallel then dispatchParallel w t hooks else dispatch_sequential w t hooks)"

section \<open>A dispatch cycle\<close>

record fired_event =
  fe_kit_id :: string
  fe_handler_id :: string
  fe_job_id :: string
  fe_kind :: string
  fe_source_state :: task_status
  fe_success :: bool
  fe_exit_code :: "int option"

record behavior =
  bh_hooks :: "hook list"

type_synonym behaviors = "(string \<times> behavior) list"

definition lookupBehavior :: "behaviors option \<Rightarrow> task \<Rightarrow> behavior option" where
  "lookupBehavior meta t =
     (case (meta, t_exec t) of (Some bs, Some e) \<Rightarrow> map_of bs (ex_behavior e) | _ \<Rightarrow> None)"

definition taskBehaviorName :: "task \<Rightarrow> string" where
  "taskBehaviorName t = (case t_exec t of None \<Rightarrow> [] | Some e \<Rightarrow> ex_behavior e)"

definition IsReadonly :: "task \<Rightarrow> bool" where
  "IsReadonly t = (case t_exec t of None \<Rightarrow> False | Some e \<Rightarrow> ex_readonly e)"

text \<open>The error text of a fired event names the exit code, which \<open>fe_exit_code\<close> holds.\<close>

definition buildFiredEvent :: "handler_result \<Rightarrow> string \<Rightarrow> task_status \<Rightarrow> hook list \<Rightarrow> fired_event" where
  "buildFiredEvent hr kind sourceState hooks =
     \<lparr>fe_kit_id = (case find (\<lambda>h. hk_id h = hr_id hr) hooks of None \<Rightarrow> [] | Some h \<Rightarrow> hk_kit h),
      fe_handler_id = hr_id hr, fe_job_id = hr_job_id hr, fe_kind = kind, fe_source_state = sourceState,
      fe_success = (hr_exit_code hr = 0),
      fe_exit_code = (if hr_exit_code hr \<noteq> 0 then Some (hr_exit_code hr) else None)\<rparr>"

definition allowedTraits :: "handler_result \<Rightarrow> hook list \<Rightarrow> trait list option" where
  "allowedTraits hr hooks =
     (case find (\<lambda>h. hk_id h = hr_id hr) hooks of None \<Rightarrow> None | Some h \<Rightarrow> hk_produces h)"

definition hasHookResult :: "handler_result list \<Rightarrow> bool" where
  "hasHookResult results = list_ex (\<lambda>hr. hr_role hr = ''hook'') results"

type_synonym writers = "(string \<times> string) list"

fun check_keys :: "string list \<Rightarrow> string \<Rightarrow> writers \<Rightarrow> dispatch_error + writers" where
  "check_keys [] writerID ws = Inr ws"
| "check_keys (key # keys) writerID ws =
     (if TraitMergeMode key = MergeModeExclusive
      then (case map_of ws key of
              Some prev \<Rightarrow> Inl (ExclusiveCollision key prev writerID)
            | None \<Rightarrow> check_keys keys writerID ((key, writerID) # ws))
      else check_keys keys writerID ws)"

definition checkExclusiveCollision :: "raw_message \<Rightarrow> string \<Rightarrow> writers \<Rightarrow> dispatch_error + writers" where
  "checkExclusiveCollision patch writerID ws =
     (if blank_raw patch then Inr ws
      else case unmarshal_map patch of None \<Rightarrow> Inr ws | Some m \<Rightarrow> check_keys (map fst m) writerID ws)"

text \<open>The payload and the delta after the patch of one hook; a patch that does not merge is logged and skipped.\<close>

definition apply_patch :: "hook list \<Rightarrow> handler_result \<Rightarrow> raw_message \<times> raw_message \<Rightarrow> raw_message \<times> raw_message" where
  "apply_patch hooks hr st =
     (case st of (payload, delta) \<Rightarrow>
        if hr_payload_patch hr = RawEmpty \<or> hr_payload_patch hr = Raw (JObj []) then st
        else case MergePayloadPatch payload (hr_payload_patch hr) (hr_id hr) (allowedTraits hr hooks) of
          Inl _ \<Rightarrow> st
        | Inr merged \<Rightarrow>
            (merged,
             case MergePayloadPatch delta (hr_payload_patch hr) (hr_id hr) (allowedTraits hr hooks) of
               Inl _ \<Rightarrow> delta | Inr d \<Rightarrow> d))"

fun merge_results ::
  "hook list \<Rightarrow> handler_result list \<Rightarrow> writers \<Rightarrow> raw_message \<times> raw_message \<Rightarrow>
     dispatch_error + (raw_message \<times> raw_message)" where
  "merge_results hooks [] ws st = Inr st"
| "merge_results hooks (hr # hrs) ws st =
     and_then (checkExclusiveCollision (hr_payload_patch hr) (hr_id hr) ws) (\<lambda>ws'.
     merge_results hooks hrs ws' (apply_patch hooks hr st))"

record dispatch_result =
  dr_results :: "handler_result list"
  dr_fired_events :: "fired_event list"
  dr_final_payload :: raw_message
  dr_payload_delta :: raw_message
  dr_new_status :: "task_status option"
  dr_action_payload :: "raw_message option"

definition fired_only :: "fired_event list \<Rightarrow> dispatch_result" where
  "fired_only events =
     \<lparr>dr_results = [], dr_fired_events = events, dr_final_payload = RawEmpty, dr_payload_delta = RawEmpty,
      dr_new_status = None, dr_action_payload = None\<rparr>"

definition evaluateAndAdvance ::
  "dispatch_wiring \<Rightarrow> task \<Rightarrow> state_machine \<Rightarrow> raw_message \<Rightarrow> bool \<Rightarrow>
     raw_message \<times> task_status option \<times> raw_message option" where
  "evaluateAndAdvance w t sm payload hookRan =
     (let lc = (case DeriveLifecycle (t_id t) (dw_actions w) hookRan of
                  (lc, None) \<Rightarrow> lc | (_, Some _) \<Rightarrow> lc_init hookRan)
      in case AdvanceFull sm (with_payload (injectLifecycle payload lc) t) of
           None \<Rightarrow> (payload, None, None)
         | Some out \<Rightarrow> (payload, Some (t_status (ao_task out)), ao_action_payload out))"

definition DispatchAndAdvance ::
  "dispatch_wiring \<Rightarrow> task \<Rightarrow> behaviors option \<Rightarrow> state_machine \<Rightarrow> dispatch_result \<times> dispatch_error option" where
  "DispatchAndAdvance w t meta sm =
     (case t_exec t of
        None \<Rightarrow> (fired_only [], Some NoExecAttrs)
      | Some e \<Rightarrow>
          let hooks = Evaluate t (case lookupBehavior meta t of None \<Rightarrow> [] | Some b \<Rightarrow> bh_hooks b) in
          case dispatchHooks w t hooks (IsReadonly t) of (results, err) \<Rightarrow>
          let fired = map (\<lambda>hr. buildFiredEvent hr ''hook'' (t_status t) hooks) results in
          (case err of
             Some er \<Rightarrow> (fired_only fired, Some er)
           | None \<Rightarrow>
               (case merge_results hooks results [] (ex_payload e, Raw (JObj [])) of
                  Inl er \<Rightarrow> (fired_only fired, Some er)
                | Inr (payload, delta) \<Rightarrow>
                    (case evaluateAndAdvance w t sm payload (t_status t = Executing \<and> hasHookResult results) of
                       (finalPayload, newStatus, actionPayload) \<Rightarrow>
                         (\<lparr>dr_results = results, dr_fired_events = fired, dr_final_payload = finalPayload,
                           dr_payload_delta = delta, dr_new_status = newStatus, dr_action_payload = actionPayload\<rparr>,
                          None)))))"

section \<open>Replaying one hook\<close>

record replay_result =
  rr_result :: "handler_result option"
  rr_final_payload :: raw_message
  rr_payload_delta :: raw_message
  rr_new_status :: "task_status option"
  rr_fired_events :: "fired_event list"

definition ReplayHook ::
  "dispatch_wiring \<Rightarrow> task \<Rightarrow> behaviors option \<Rightarrow> state_machine \<Rightarrow> string \<Rightarrow> dispatch_error + replay_result" where
  "ReplayHook w t meta sm hookID =
     (case lookupBehavior meta t of
        None \<Rightarrow> Inl (BehaviorNotFound (taskBehaviorName t))
      | Some b \<Rightarrow>
          (case find (\<lambda>h. hk_id h = hookID) (bh_hooks b) of
             None \<Rightarrow> Inl (HookNotFound hookID)
           | Some h \<Rightarrow>
               let matched = Evaluate t [h] in
               if matched = [] then Inl (HookDoesNotMatch hookID (t_status t))
               else case dispatchHooks w t matched (IsReadonly t) of (results, err) \<Rightarrow>
                 (case err of
                    Some er \<Rightarrow> Inl er
                  | None \<Rightarrow>
                      (case fold (apply_patch matched) results
                              (case t_exec t of None \<Rightarrow> RawEmpty | Some e \<Rightarrow> ex_payload e, Raw (JObj [])) of
                         (payload, delta) \<Rightarrow>
                           (case evaluateAndAdvance w t sm payload True of (finalPayload, newStatus, _) \<Rightarrow>
                              Inr \<lparr>rr_result = (if results = [] then None else Some (last results)),
                                   rr_final_payload = finalPayload, rr_payload_delta = delta, rr_new_status = newStatus,
                                   rr_fired_events =
                                     map (\<lambda>hr. buildFiredEvent hr ''hook_replay'' (t_status t) matched) results\<rparr>)))))"

definition ListHooksForStatus :: "behaviors option \<Rightarrow> task \<Rightarrow> task_status \<Rightarrow> hook list" where
  "ListHooksForStatus meta t status =
     (case lookupBehavior meta t of None \<Rightarrow> [] | Some b \<Rightarrow> Evaluate (t\<lparr>t_status := status\<rparr>) (bh_hooks b))"

end
