(* ===== verification/Workflow_Base.thy ===== *)
theory Workflow_Base
  imports Card_Actions Hook_Dispatch Trigger_Sweep
begin

text \<open>
  What the handlers of the workflow service share: the automatic dispatch of queued card requests
  (\<open>card_request_auto_dispatch.go\<close>), the records of failed dispatches (\<open>workflow_action.go\<close>), and the end of a
  task, which closes its entry on the parent card and releases the slot of its card request
  (\<open>workflow_card.go\<close>).
\<close>

section \<open>The service\<close>

record card_command =
  cc_label :: string
  cc_run :: string
  cc_card_write :: bool

text \<open>The fields of a \<open>StartExecRequest\<close> that only the launchers of card commands set.\<close>

record card_exec_request = start_exec_request +
  cq_job_id :: string
  cq_card_id :: string
  cq_card_request_id :: string

record create_task_request =
  ct_project_id :: string
  ct_title :: string
  ct_description :: string
  ct_behavior :: string
  ct_instructions :: raw_message
  ct_parent_id :: string
  ct_ref :: string
  ct_auto_start :: bool
  ct_card_request_id :: string
  ct_card_request_owner_job_id :: string

text \<open>
  The interface fields of the service: whether the store of card requests is wired, \<open>StartExec\<close> (the text
  of its error, or \<open>None\<close> when the job was started), the card commands of a project or workspace (\<open>None\<close> when its metadata is not available),
  the behaviors of a task (\<open>None\<close> when they cannot be loaded) and \<open>CreateTask\<close>, whose error has a
  code and a text.
\<close>

record workflow =
  wf_card_requests :: bool
  wf_exec :: "(card_exec_request \<Rightarrow> string option) option"
  wf_commands :: "string \<Rightarrow> string \<Rightarrow> (string \<times> card_command) list option"
  wf_meta :: "task \<Rightarrow> behaviors option"
  wf_create_task :: "(create_task_request \<Rightarrow> orch_store \<Rightarrow> ((http_error \<times> string) + task) \<times> orch_store) option"

section \<open>Automatic dispatch\<close>

definition launch_request :: "task \<Rightarrow> string \<Rightarrow> string \<Rightarrow> card_command \<Rightarrow> string \<Rightarrow> string \<Rightarrow> card_exec_request" where
  "launch_request t cardID commandKey cmd launcherJobID requestID =
     \<lparr>se_project_id = t_project_id t, se_workspace_id = t_workspace_id t, se_argv = triggerRunArgv (cc_run cmd),
      se_readonly = True, se_display_name = ''card:auto:'' @ commandKey, se_connector = None,
      cq_job_id = launcherJobID, cq_card_id = cardID, cq_card_request_id = requestID\<rparr>"

text \<open>
  The verb \<open>%q\<close> of \<open>fmt\<close>, byte by byte; bytes above ASCII are those of printable characters, which it keeps.
\<close>

definition quote_byte :: "char \<Rightarrow> string" where
  "quote_byte c =
     (let b = of_char c :: nat; hex = (\<lambda>d. char_of (if d < 10 then 48 + d else 87 + d)) in
      case map_of [(34, 34), (92, 92), (7, 97), (8, 98), (12, 102), (10, 110), (13, 114), (9, 116), (11, 118)] b of
        Some e \<Rightarrow> [CHR 0x5C, char_of (e :: nat)]
      | None \<Rightarrow> if b < 32 \<or> b = 127 then [CHR 0x5C, CHR ''x'', hex (b div 16), hex (b mod 16)] else [c])"

definition quoted :: "string \<Rightarrow> string" where
  "quoted s = CHR 0x22 # concat (map quote_byte s) @ [CHR 0x22]"

definition undeclared_text :: "string \<Rightarrow> string" where
  "undeclared_text commandKey = ''card command '' @ quoted commandKey @ '' is no longer declared in workspace configuration''"

text \<open>The first component: \<open>None\<close> for an error, else whether a launcher was started.\<close>

definition dispatchQueuedCardRequest :: "workflow \<Rightarrow> request_ctx \<Rightarrow> string \<Rightarrow> orch_store \<Rightarrow> bool option \<times> orch_store" where
  "dispatchQueuedCardRequest s cx cardID st =
     (case wf_exec s of
        None \<Rightarrow> (Some False, st)
      | Some startExec \<Rightarrow>
          if cardID = [] \<or> \<not> wf_card_requests s then (Some False, st)
          else case PeekOldestQueuedCardRequest cardID st of
            Inl e \<Rightarrow> (if e = ErrNoQueuedCardRequests then Some False else None, st)
          | Inr (headID, commandKey) \<Rightarrow>
              (case read_task cardID st of
                 None \<Rightarrow> (None, st)
               | Some t \<Rightarrow>
                   (case wf_commands s (t_project_id t) (t_workspace_id t) of
                      None \<Rightarrow> (Some False, st)
                    | Some commands \<Rightarrow>
                        (case map_of commands commandKey of
                           None \<Rightarrow>
                             (case FailCardRequest (cx_gen cx ''undeclared'') (cx_now cx) headID (undeclared_text commandKey) st of
                                Inl _ \<Rightarrow> (None, st) | Inr st' \<Rightarrow> (Some False, st'))
                         | Some cmd \<Rightarrow>
                             let launcherJobID = cx_gen cx ''launcher'';
                                 def = \<lparr>crd_command_key = commandKey, crd_label = cc_label cmd, crd_run = cc_run cmd,
                                        crd_version = [], crd_card_write = cc_card_write cmd\<rparr>
                             in case repo_claim_for_dispatch (cx_now cx) cardID launcherJobID commandKey def st of
                                (Inl e, st') \<Rightarrow> (if IsCardRequestDispatchSkip e then Some False else None, st')
                              | (Inr (primary, _), st') \<Rightarrow>
                                  (case startExec (launch_request t cardID commandKey cmd launcherJobID (cr_id primary)) of
                                     None \<Rightarrow> (Some True, st')
                                   | Some err \<Rightarrow>
                                       (None,
                                        case FailCardRequest (cx_gen cx ''dispatch failed'') (cx_now cx) (cr_id primary)
                                               (''dispatch failed: '' @ err) st' of
                                          Inl _ \<Rightarrow> st' | Inr st'' \<Rightarrow> st''))))))"

definition tryDispatchQueuedCardRequest :: "workflow \<Rightarrow> request_ctx \<Rightarrow> string \<Rightarrow> orch_store \<Rightarrow> orch_store" where
  "tryDispatchQueuedCardRequest s cx cardID st = snd (dispatchQueuedCardRequest s cx cardID st)"

definition SweepQueuedCardRequests :: "workflow \<Rightarrow> request_ctx \<Rightarrow> orch_store \<Rightarrow> string list \<times> orch_store" where
  "SweepQueuedCardRequests s cx st =
     (if \<not> wf_card_requests s \<or> Option.is_none (wf_exec s) then ([], st)
      else fold (\<lambda>cardID (dispatched, st').
             case dispatchQueuedCardRequest s (labelled cardID cx) cardID st' of
               (Some True, st'') \<Rightarrow> (dispatched @ [cardID], st'')
             | (_, st'') \<Rightarrow> (dispatched, st''))
           (ListCardIDsWithQueuedCardRequests st) ([], st))"

section \<open>The end of a task\<close>

definition recordDispatchError ::
  "request_ctx \<Rightarrow> string \<Rightarrow> task_status \<Rightarrow> string \<Rightarrow> string list \<Rightarrow> orch_store \<Rightarrow> orch_store" where
  "recordDispatchError cx taskID status errText orphans st =
     (if taskID = [] then st
      else case tx_CreateAction cx ''dispatch_error''
             (new_action taskID ''dispatch_error'' (Some status) (Some status)
               (Raw (JObj ((''error'', JStr errText)
                  # (if orphans = [] then [] else [(''orphaned_child_task_ids'', JArr (map JStr orphans))])))) ActorDaemon) st of
        Inl _ \<Rightarrow> st | Inr (_, st') \<Rightarrow> st')"

definition summary_fields :: "(string \<times> string field_dec) list" where
  "summary_fields =
     [(''artifact'', decode_struct [(''report'', decode_struct [(''summary'', dec_string (\<lambda>s _. s))])])]"

definition childResultSummary :: "task \<Rightarrow> string" where
  "childResultSummary t =
     (case t_exec t of
        None \<Rightarrow> []
      | Some e \<Rightarrow> (case unmarshal_struct summary_fields (ex_payload e) [] of None \<Rightarrow> [] | Some s \<Rightarrow> s))"

definition child_closed_action :: "task \<Rightarrow> task_status \<Rightarrow> action" where
  "child_closed_action t parentStatus =
     new_action (t_parent_id t) ''child_closed'' (Some parentStatus) (Some parentStatus)
       (Raw (JObj [(''child_id'', JStr (t_id t)), (''child_project'', JStr (t_project_id t)),
                   (''child_status'', JStr (status_string (t_status t))), (''child_title'', JStr (t_title t)),
                   (''summary'', JStr (childResultSummary t))])) ActorDaemon"

text \<open>The transaction: \<open>None\<close> inside when there is nothing to record. The record is the daemon's own, without a writer.\<close>

definition child_closed_tx :: "request_ctx \<Rightarrow> task \<Rightarrow> orch_store \<Rightarrow> http_error + orch_store option" where
  "child_closed_tx cx t st =
     (case GetTaskTriage (t_parent_id t) st of
        None \<Rightarrow> Inr None
      | Some tt \<Rightarrow>
          and_then (map_err (\<lambda>_. ServerError) (MarkDetailChildClosed (ca_detail tt) (t_id t))) (\<lambda>(newDetail, changed).
          if \<not> changed then Inr None
          else and_then (tx_Upsert (tt\<lparr>ca_detail := newDetail\<rparr>) st) (\<lambda>st1.
               and_then (of_option ServerError (read_task (t_parent_id t) st1)) (\<lambda>parent.
               and_then (tx_CreateAction (cx\<lparr>cx_writer := None\<rparr>) ''child_closed'' (child_closed_action t (t_status parent)) st1) (\<lambda>(_, st2).
               Inr (Some (TouchTaskUpdatedAt (cx_now cx) (t_parent_id t) st2)))))))"

definition recordChildClosedOnParent :: "workflow \<Rightarrow> request_ctx \<Rightarrow> task \<Rightarrow> orch_store \<Rightarrow> orch_store" where
  "recordChildClosedOnParent s cx t st =
     (if t_parent_id t = [] then st
      else case child_closed_tx cx t st of
        Inr (Some st') \<Rightarrow> tryDispatchQueuedCardRequest s (labelled ''closed'' cx) (t_parent_id t) st'
      | _ \<Rightarrow> st)"

definition releaseCardRequestForTerminalTask :: "workflow \<Rightarrow> request_ctx \<Rightarrow> task \<Rightarrow> orch_store \<Rightarrow> orch_store" where
  "releaseCardRequestForTerminalTask s cx t st =
     (if \<not> wf_card_requests s then st
      else case ReleaseCardRequestForTerminalTargetWithCard (cx_gen cx ''released'') (cx_now cx) CardRequestTargetKindTask
                  (t_id t) (t_status t = Done) st of
        Inr (Some cardID, st') \<Rightarrow> tryDispatchQueuedCardRequest s (labelled ''released'' cx) cardID st'
      | Inr (None, st') \<Rightarrow> st'
      | Inl _ \<Rightarrow> st)"

definition finalizeTerminal :: "workflow \<Rightarrow> request_ctx \<Rightarrow> task \<Rightarrow> orch_store \<Rightarrow> orch_store" where
  "finalizeTerminal s cx t st =
     (if t_status t \<noteq> Done \<and> t_status t \<noteq> Aborted then st
      else releaseCardRequestForTerminalTask s cx t (recordChildClosedOnParent s cx t st))"

end
