(* ===== verification/Dispatch_Loop.thy ===== *)
theory Dispatch_Loop
  imports Workflow_Base
begin

text \<open>
  The dispatch loop of the workflow service (\<open>workflow_action.go\<close>): it runs the dispatch cycles of a task, writes
  their results to the task row and ends the task.

  Other requests may change the tables while a cycle runs. \<open>during\<close> is what happens to them while the hooks run,
  which includes what the hooks write themselves, and \<open>between\<close> what happens between the transaction that
  persists the payload and the one that advances the status.
\<close>

section \<open>The log of a cycle\<close>

fun nat_text :: "nat \<Rightarrow> string" where
  "nat_text n = (if n < 10 then [char_of (48 + n)] else nat_text (n div 10) @ [char_of (48 + n mod 10)])"

declare nat_text.simps [simp del]

definition int_text :: "int \<Rightarrow> string" where
  "int_text i = (if i < 0 then CHR ''-'' # nat_text (nat (- i)) else nat_text (nat i))"

definition fired_payload :: "fired_event \<Rightarrow> raw_message" where
  "fired_payload fe =
     Raw (JObj [(''error'', JStr (case fe_exit_code fe of None \<Rightarrow> [] | Some c \<Rightarrow> ''exit code '' @ int_text c)),
                (''hook_id'', JStr (fe_handler_id fe)), (''job_id'', JStr (fe_job_id fe)), (''kit_id'', JStr (fe_kit_id fe)),
                (''source_state'', JStr (status_string (fe_source_state fe))), (''success'', JBool (fe_success fe))])"

fun create_fired :: "request_ctx \<Rightarrow> string \<Rightarrow> task_status \<Rightarrow> fired_event list \<Rightarrow> orch_store \<Rightarrow> http_error + orch_store" where
  "create_fired cx taskID status [] st = Inr st"
| "create_fired cx taskID status (fe # events) st =
     and_then (tx_CreateAction cx (''fired:'' @ nat_text (length events))
       (new_action taskID (fe_kind fe @ ''_fired'') (Some status) (Some status) (fired_payload fe) ActorDaemon) st) (\<lambda>(_, st').
     create_fired cx taskID status events st')"

definition persistFiredEvents :: "request_ctx \<Rightarrow> string \<Rightarrow> task_status \<Rightarrow> fired_event list \<Rightarrow> orch_store \<Rightarrow> orch_store" where
  "persistFiredEvents cx taskID status events st =
     (case create_fired cx taskID status events st of Inl _ \<Rightarrow> st | Inr st' \<Rightarrow> st')"

section \<open>Ending a task after an error\<close>

definition abort_payload :: "bool \<Rightarrow> string \<Rightarrow> raw_message" where
  "abort_payload shutdown message =
     Raw (JObj [(''code'', JStr (if shutdown then ''daemon_shutdown'' else ''dispatch_error'')), (''message'', JStr message)])"

text \<open>The message of a shutdown is a fixed Japanese text, passed as \<open>message\<close> like the error texts.\<close>

definition abort_tx :: "request_ctx \<Rightarrow> bool \<Rightarrow> string \<Rightarrow> task \<Rightarrow> orch_store \<Rightarrow> http_error + orch_store" where
  "abort_tx cx shutdown message t st =
     and_then (tx_UpdateTask cx (t\<lparr>t_status := Aborted\<rparr>) st) (\<lambda>st1.
     and_then (tx_CreateAction cx ''abort''
       (new_action (t_id t) ''abort'' (Some (t_status t)) (Some Aborted) (abort_payload shutdown message) ActorDaemon) st1) (\<lambda>(_, st2).
     Inr st2))"

definition abortOnDispatchError ::
  "workflow \<Rightarrow> request_ctx \<Rightarrow> bool \<Rightarrow> string \<Rightarrow> task \<Rightarrow> orch_store \<Rightarrow> orch_store" where
  "abortOnDispatchError s cx shutdown message t st =
     (let st1 = (if shutdown then st else recordDispatchError cx (t_id t) (t_status t) message [] st);
          st2 = (case abort_tx cx shutdown message t st1 of Inl _ \<Rightarrow> st1 | Inr st' \<Rightarrow> st')
      in finalizeTerminal s cx (t\<lparr>t_status := Aborted\<rparr>) st2)"

section \<open>The loop\<close>

definition ListActionsByTask :: "orch_store \<Rightarrow> string \<Rightarrow> action list" where
  "ListActionsByTask st taskID = select_order ac_created_at (\<lambda>a. ac_task_id a = taskID) (st_actions st)"

definition maxCycles :: nat where "maxCycles = 10"

text \<open>
  What a run of the loop is given: the hook executor and waiter, the definitions of the task, whether the dispatch
  context is cancelled, the texts of errors, and the two kinds of interference.
\<close>

record dispatch_env =
  de_wiring :: dispatch_wiring
  de_meta :: "behaviors option"
  de_machine :: state_machine
  de_shutdown :: bool
  de_message :: "dispatch_error option \<Rightarrow> string"
  de_during :: "orch_store \<Rightarrow> orch_store"
  de_between :: "orch_store \<Rightarrow> orch_store"

text \<open>The transaction that writes a delta to the row as it is now.\<close>

definition merge_delta :: "raw_message \<Rightarrow> task \<Rightarrow> http_error + task" where
  "merge_delta delta latest =
     (case t_exec latest of
        None \<Rightarrow> Inl ServerError
      | Some e \<Rightarrow>
          let cleared = ClearPendingAnswer (ex_payload e) in
          and_then (if delta = RawEmpty then Inr cleared else map_err (\<lambda>_. ServerError) (MergePayload cleared delta)) (\<lambda>merged.
          Inr (latest\<lparr>t_exec := Some (e\<lparr>ex_payload := merged\<rparr>)\<rparr>)))"

definition persist_delta :: "request_ctx \<Rightarrow> string \<Rightarrow> raw_message \<Rightarrow> orch_store \<Rightarrow> http_error + (task \<times> orch_store)" where
  "persist_delta cx taskID delta st =
     and_then (of_option NotFound (read_task taskID st)) (\<lambda>latest.
     and_then (merge_delta delta latest) (\<lambda>updated.
     and_then (tx_UpdateTask cx updated st) (\<lambda>st'.
     Inr (updated, st'))))"

definition auto_advance :: "request_ctx \<Rightarrow> task \<Rightarrow> task_status \<Rightarrow> raw_message option \<Rightarrow> orch_store \<Rightarrow> http_error + orch_store" where
  "auto_advance cx current newStatus payload st =
     and_then (tx_UpdateTask cx (current\<lparr>t_status := newStatus\<rparr>) st) (\<lambda>st1.
     and_then (tx_CreateAction cx ''auto_advance''
       (new_action (t_id current) ''auto_advance'' (Some (t_status current)) (Some newStatus)
         (case payload of None \<Rightarrow> RawEmpty | Some p \<Rightarrow> p) ActorDaemon) st1) (\<lambda>(_, st2).
     Inr st2))"

definition cycle_wiring :: "dispatch_env \<Rightarrow> orch_store \<Rightarrow> dispatch_wiring" where
  "cycle_wiring de st = (de_wiring de)\<lparr>dw_actions := Some (\<lambda>tid. Inr (ListActionsByTask st tid))\<rparr>"

text \<open>
  One pass through the loop body: the tables after it, and the task to go on with, if the loop goes on. A panic
  ends the daemon, which leaves the tables as they are.
\<close>

definition dispatch_cycle :: "workflow \<Rightarrow> request_ctx \<Rightarrow> dispatch_env \<Rightarrow> task \<Rightarrow> orch_store \<Rightarrow> task option \<times> orch_store" where
  "dispatch_cycle s cx de current st0 =
     (let st = de_during de st0 in
      case DispatchAndAdvance (cycle_wiring de st) current (de_meta de) (de_machine de) of
        (dr, Some err) \<Rightarrow>
          if err = PanicShortID then (None, st)
          else (None, abortOnDispatchError s cx (de_shutdown de) (de_message de (Some err)) current
                        (persistFiredEvents cx (t_id current) (t_status current) (dr_fired_events dr) st))
      | (dr, None) \<Rightarrow>
          let st1 = persistFiredEvents cx (t_id current) (t_status current) (dr_fired_events dr) st in
          (case persist_delta cx (t_id current) (StripAwaitingTrait (dr_payload_delta dr)) st1 of
             Inl _ \<Rightarrow> (None, abortOnDispatchError s cx (de_shutdown de) (de_message de None) current st1)
           | Inr (persisted, st2) \<Rightarrow>
               if t_status persisted = Done \<or> t_status persisted = Aborted then (None, finalizeTerminal s cx persisted st2)
               else if t_status persisted = Awaiting then (None, st2)
               else case dr_new_status dr of
                 None \<Rightarrow> (None, finalizeTerminal s cx persisted st2)
               | Some newStatus \<Rightarrow>
                   let st3 = de_between de st2 in
                   (case auto_advance cx persisted newStatus (dr_action_payload dr) st3 of
                      Inl _ \<Rightarrow> (None, st3)
                    | Inr st4 \<Rightarrow>
                        let advanced = persisted\<lparr>t_status := newStatus\<rparr> in
                        if newStatus = Done \<or> newStatus = Aborted then (None, finalizeTerminal s cx advanced st4)
                        else (Some advanced, st4))))"

text \<open>The loop and the number of cycles it ran; the count reaches the bound only when the loop is cut off.\<close>

fun dispatch_cycles :: "nat \<Rightarrow> workflow \<Rightarrow> request_ctx \<Rightarrow> dispatch_env \<Rightarrow> task \<Rightarrow> orch_store \<Rightarrow> nat \<times> orch_store" where
  "dispatch_cycles 0 s cx de current st = (0, st)"
| "dispatch_cycles (Suc n) s cx de current st =
     (case dispatch_cycle s (labelled (nat_text n) cx) de current st of
        (None, st') \<Rightarrow> (1, st')
      | (Some next, st') \<Rightarrow> (case dispatch_cycles n s cx de next st' of (k, st'') \<Rightarrow> (Suc k, st'')))"

definition runDispatchLoop :: "workflow \<Rightarrow> request_ctx \<Rightarrow> dispatch_env \<Rightarrow> task \<Rightarrow> orch_store \<Rightarrow> orch_store" where
  "runDispatchLoop s cx de t st = snd (dispatch_cycles maxCycles s cx de t st)"

end
