(* ===== verification/Workflow_Facts.thy ===== *)
theory Workflow_Facts
  imports Dispatch_Loop Card_System
begin

text \<open>
  What the statements of the workflow service do to the rows of tasks: the statements on the ledger of card requests
  leave them alone, writes to the card columns keep the rest of a row, and an update writes the row it names.
\<close>

section \<open>Statements on the ledger keep the tasks\<close>

lemma write_requests_tasks: "write_requests rows st = Inr st' \<Longrightarrow> st_tasks st' = st_tasks st"
  by (auto simp: write_requests_def split: if_splits)

lemma exec_update_tasks: "exec_update P f st = Inr (n, st') \<Longrightarrow> st_tasks st' = st_tasks st"
  by (auto simp: exec_update_def dest: write_requests_tasks)

lemma CreateCardRequest_tasks: "CreateCardRequest uid now s req st = Inr (row, st') \<Longrightarrow> st_tasks st' = st_tasks st"
  by (auto simp: CreateCardRequest_def insert_request_def Let_def dest: write_requests_tasks)

lemma Ingest_tasks: "IngestCardEventRequest uid now w a rs st = Inr st' \<Longrightarrow> st_tasks st' = st_tasks st"
  by (auto simp: IngestCardEventRequest_def split: option.splits prod.splits if_splits sum.splits cr_error.splits
      dest: CreateCardRequest_tasks)

lemma CreateAction_tasks: "CreateAction uid ruid now w a rs st = Inr (a', st') \<Longrightarrow> st_tasks st' = st_tasks st"
  by (auto simp: CreateAction_def insert_action_def Let_def split: if_splits dest!: Ingest_tasks)

lemma outcome_tasks:
  "recordCardRequestOutcome uid now rid ty a b c d st = Inr st' \<Longrightarrow> st_tasks st' = st_tasks st"
  "recordCardRequestTerminalOutcome uid now rid ty a b st = Inr st' \<Longrightarrow> st_tasks st' = st_tasks st"
  by (auto simp: recordCardRequestOutcome_def recordCardRequestTerminalOutcome_def insert_action_def Let_def
      split: if_splits option.splits sum.splits dest!: CreateAction_tasks)

lemma failCardRequest_tasks: "failCardRequest now rid e f st = Inr (x, st') \<Longrightarrow> st_tasks st' = st_tasks st"
  by (cases f) (auto simp: failCardRequest_def Let_def dest!: exec_update_tasks)

lemma closing_tasks:
  "FailCardRequest uid now rid e st = Inr st' \<Longrightarrow> st_tasks st' = st_tasks st"
  "FinishCardRequest uid now rid r st = Inr st' \<Longrightarrow> st_tasks st' = st_tasks st"
  by (auto simp: FailCardRequest_def FinishCardRequest_def Let_def dest!: failCardRequest_tasks exec_update_tasks outcome_tasks)

lemma fold_rest_tasks: "fold_rest now pid rows st = Inr st' \<Longrightarrow> st_tasks st' = st_tasks st"
  by (induction rows arbitrary: st) (auto dest!: exec_update_tasks)

lemma Claim_tasks: "ClaimQueuedCardRequests now c l d st = Inr (p, st') \<Longrightarrow> st_tasks st' = st_tasks st"
  by (auto simp: ClaimQueuedCardRequests_def Let_def split: list.splits if_splits dest!: exec_update_tasks fold_rest_tasks)

lemma repo_claim_tasks: "repo_claim_for_dispatch now c l k d st = (r, st') \<Longrightarrow> st_tasks st' = st_tasks st"
  by (auto simp: repo_claim_for_dispatch_def ClaimQueuedCardRequestsForDispatch_def failAllQueuedCardRequests_def Let_def in_tx_def
      split: prod.splits sum.splits if_splits option.splits dest!: exec_update_tasks Claim_tasks)

lemma Release_tasks:
  "ReleaseCardRequestForTerminalTargetWithCard uid now k tid ok st = Inr (c, st') \<Longrightarrow> st_tasks st' = st_tasks st"
  by (auto simp: ReleaseCardRequestForTerminalTargetWithCard_def split: option.splits if_splits dest!: closing_tasks)

lemma dispatchQueued_tasks: "st_tasks (snd (dispatchQueuedCardRequest s cx c st)) = st_tasks st"
  by (auto simp: dispatchQueuedCardRequest_def Let_def split: option.splits sum.splits prod.splits if_splits
      dest!: closing_tasks repo_claim_tasks)

lemma tryDispatch_tasks [simp]: "st_tasks (tryDispatchQueuedCardRequest s cx c st) = st_tasks st"
  by (simp add: tryDispatchQueuedCardRequest_def dispatchQueued_tasks)

lemma tx_CreateAction_tasks: "tx_CreateAction cx l a st = Inr (a', st') \<Longrightarrow> st_tasks st' = st_tasks st"
  by (auto simp: tx_CreateAction_def dest!: CreateAction_tasks)

lemma recordDispatchError_tasks [simp]: "st_tasks (recordDispatchError cx tid s m os st) = st_tasks st"
  by (auto simp: recordDispatchError_def split: sum.splits dest!: tx_CreateAction_tasks)

lemma create_fired_tasks: "create_fired cx tid s fes st = Inr st' \<Longrightarrow> st_tasks st' = st_tasks st"
  by (induction fes arbitrary: st) (auto dest!: tx_CreateAction_tasks)

lemma persistFired_tasks [simp]: "st_tasks (persistFiredEvents cx tid s fes st) = st_tasks st"
  by (auto simp: persistFiredEvents_def split: sum.splits dest!: create_fired_tasks)

lemma releaseTerminal_tasks [simp]: "st_tasks (releaseCardRequestForTerminalTask s cx t st) = st_tasks st"
  by (auto simp: releaseCardRequestForTerminalTask_def split: sum.splits option.splits dest!: Release_tasks)

section \<open>The view of a row\<close>

text \<open>
  The first row with an id, and what of it the end of a task leaves alone: everything but the columns of a card and
  the time of the last change.
\<close>

definition row_of :: "string \<Rightarrow> orch_store \<Rightarrow> task option" where
  "row_of tid st = find (\<lambda>r. t_id r = tid) (st_tasks st)"

definition row_view :: "task \<Rightarrow> task" where
  "row_view r = r\<lparr>t_card := None, t_updated_at := zero_time\<rparr>"

lemma row_view_simps [simp]:
  "t_id (row_view r) = t_id r" "t_type (row_view r) = t_type r" "t_status (row_view r) = t_status r" "t_exec (row_view r) = t_exec r"
  by (simp_all add: row_view_def)

lemma view_status: "row_view r = row_view r' \<Longrightarrow> t_status r = t_status r'"
  using row_view_simps(3) by metis

lemma view_exec: "row_view r = row_view r' \<Longrightarrow> t_exec r = t_exec r'"
  using row_view_simps(4) by metis

definition same_views :: "orch_store \<Rightarrow> orch_store \<Rightarrow> bool" where
  "same_views st st' \<longleftrightarrow> map row_view (st_tasks st) = map row_view (st_tasks st')"

lemma same_views_tasks: "st_tasks st' = st_tasks st \<Longrightarrow> same_views st st'"
  by (simp add: same_views_def)

lemma same_views_refl [simp]: "same_views st st"
  by (simp add: same_views_def)

lemma same_views_trans [trans]: "same_views st st' \<Longrightarrow> same_views st' st'' \<Longrightarrow> same_views st st''"
  by (simp add: same_views_def)

lemma row_of_same_views:
  assumes "same_views st st'" "row_of tid st = Some r"
  obtains r' where "row_of tid st' = Some r'" "row_view r' = row_view r"
proof -
  have view: "map_option row_view (row_of tid s) = find (\<lambda>x. t_id x = tid) (map row_view (st_tasks s))" for s
    by (simp add: row_of_def find_map_cong)
  have "map_option row_view (row_of tid st) = map_option row_view (row_of tid st')"
    using assms(1) by (simp add: view same_views_def)
  then show thesis using that assms(2) by (cases "row_of tid st'") auto
qed

lemma map_update_view: "(\<And>x. row_view (f x) = row_view x) \<Longrightarrow> map row_view (update_where P f xs) = map row_view xs"
  by (auto simp: update_where_def)

lemma Upsert_views: "tx_Upsert tt st = Inr st' \<Longrightarrow> same_views st st'"
  by (auto simp: tx_Upsert_def UpsertTaskTriage_def Let_def same_views_def map_update_view row_view_def split: if_splits)

lemma Touch_views: "same_views st (TouchTaskUpdatedAt now tid st)"
  by (simp add: TouchTaskUpdatedAt_def same_views_def map_update_view row_view_def)

lemma child_closed_views: "child_closed_tx cx t st = Inr (Some st') \<Longrightarrow> same_views st st'"
  by (auto simp: child_closed_tx_def split: option.splits if_splits dest!: Upsert_views tx_CreateAction_tasks same_views_tasks
      intro: same_views_trans Touch_views)

lemma recordChildClosed_views: "same_views st (recordChildClosedOnParent s cx t st)"
  by (auto simp: recordChildClosedOnParent_def same_views_def dest!: child_closed_views split: sum.splits option.splits)

lemma finalize_views: "same_views st (finalizeTerminal s cx t st)"
  using recordChildClosed_views [of st s cx t] by (simp add: finalizeTerminal_def same_views_def)

section \<open>Updates of a row\<close>

lemma update_row:
  assumes "tx_UpdateTask cx t st = Inr st'" "row_of (t_id t) st = Some r"
  obtains ws where "row_of (t_id t) st' = Some (write_row (cx_now cx) ws t r)"
proof -
  obtain ws where "st' = st\<lparr>st_tasks := update_where (\<lambda>r. t_id r = t_id t) (write_row (cx_now cx) ws t) (st_tasks st)\<rparr>"
    using assms by (auto simp: tx_UpdateTask_def UpdateTask_def split: if_splits option.splits)
  moreover have "t_id (write_row now ws t x) = t_id x" for x now ws by (simp add: write_row_def)
  moreover have "t_id r = t_id t" using assms(2) by (auto simp: row_of_def dest: find_SomeD)
  ultimately have "row_of (t_id t) st' = Some (write_row (cx_now cx) ws t r)"
    using assms(2) by (simp add: row_of_def update_where_def find_map_cong)
  then show thesis using that by blast
qed

lemma update_ok:
  assumes "row_of (t_id t) st = Some r" "t_project_id t = t_project_id r"
    and "is_ok (validateTaskTypeConsistency t)" "t_status t \<in> type_statuses (t_type r)"
  shows "\<exists>st'. tx_UpdateTask cx t st = Inr st'"
  using assms by (auto simp: tx_UpdateTask_def UpdateTask_def row_of_def split: if_splits option.splits)

lemma read_row: "row_of tid st = Some r \<Longrightarrow> read_task tid st = Some (with_counts st r)"
  by (simp add: row_of_def read_task_def GetTask_def)

lemma with_counts_simps [simp]:
  "t_id (with_counts st r) = t_id r" "t_type (with_counts st r) = t_type r" "t_status (with_counts st r) = t_status r"
  "t_exec (with_counts st r) = t_exec r" "t_card (with_counts st r) = t_card r"
  "t_project_id (with_counts st r) = t_project_id r"
  by (simp_all add: with_counts_def Let_def)

lemma write_row_simps [simp]:
  "t_id (write_row now ws t r) = t_id r" "t_type (write_row now ws t r) = t_type r"
  "t_status (write_row now ws t r) = t_status t" "t_card (write_row now ws t r) = t_card r"
  "t_project_id (write_row now ws t r) = t_project_id t"
  "map_option ex_payload (t_exec (write_row now ws t r)) = map_option ex_payload (t_exec t)"
  by (simp_all add: write_row_def option.map_comp comp_def)

section \<open>A sample service and request\<close>

definition idle_workflow :: workflow where
  "idle_workflow = \<lparr>wf_card_requests = True, wf_exec = None, wf_commands = (\<lambda>_ _. None), wf_meta = (\<lambda>_. None), wf_create_task = None\<rparr>"

definition sample_ctx :: request_ctx where
  "sample_ctx = \<lparr>cx_actor = ActorHuman, cx_writer = None, cx_now = 0, cx_gen = (\<lambda>l. ''id:'' @ l), cx_events = None, cx_project_ws = (\<lambda>_. None), cx_text = (\<lambda>_. [])\<rparr>"

end
