(* ===== verification/Card_Slot_Properties.thy ===== *)
theory Card_Slot_Properties
  imports Card_Detail_Facts Workflow_Facts
begin

text \<open>
  The work slot of a card: along every run of child actions, each child only moves forward and at most one child
  that is not yet a task is on the card.
\<close>

section \<open>The children of a card\<close>

definition children_of :: "string \<Rightarrow> orch_store \<Rightarrow> triage_child list option" where
  "children_of cid st =
     (case GetTaskTriage cid st of
        None \<Rightarrow> None
      | Some tt \<Rightarrow> (case DetailChildren (ca_detail tt) of Inl _ \<Rightarrow> None | Inr cs \<Rightarrow> Some cs))"

definition slot_ok :: "triage_child list \<Rightarrow> bool" where
  "slot_ok cs \<longleftrightarrow>
     length (filter occupies_slot cs) \<le> 1
     \<and> list_all (\<lambda>c. ch_id c \<noteq> [] \<and> ch_status c \<in> {ChildOpen, ChildSpecced, ChildDispatched, ChildClosed}) cs"

lemma GetTaskTriage_id: "GetTaskTriage cid st = Some tt \<Longrightarrow> ca_task_id tt = cid"
  by (auto simp: GetTaskTriage_def card_zero_def split: option.splits)

lemma upsert_children:
  assumes "tx_Upsert (tt\<lparr>ca_detail := d\<rparr>) st = Inr st'" "GetTaskTriage cid st = Some tt" "DetailChildren d = Inr cs"
  shows "children_of cid st' = Some cs"
proof -
  let ?d = "if d = RawEmpty then Raw (JObj []) else d"
  note id = GetTaskTriage_id [OF assms(2)]
  obtain r where r: "find (is_card_row cid) (st_tasks st) = Some r" using assms(2) by (auto simp: GetTaskTriage_def split: option.splits)
  have st': "st' = st\<lparr>st_tasks := update_where (is_card_row cid) (\<lambda>t. t\<lparr>t_card := Some (tt\<lparr>ca_detail := ?d\<rparr>)\<rparr>) (st_tasks st)\<rparr>"
    using assms(1) id by (auto simp: tx_Upsert_def UpsertTaskTriage_def Let_def split: if_splits)
  have "find (is_card_row cid) (st_tasks st') = Some (r\<lparr>t_card := Some (tt\<lparr>ca_detail := ?d\<rparr>)\<rparr>)"
    using r by (simp add: st' update_where_def find_map_cong is_card_row_def find_SomeD [OF r, unfolded is_card_row_def])
  moreover have "DetailChildren ?d = Inr cs"
    using assms(3) by (auto simp: DetailChildren_def unmarshal_struct_def decode_struct_def)
  ultimately show ?thesis by (simp add: children_of_def GetTaskTriage_def)
qed

lemma children_tasks: "st_tasks st' = st_tasks st \<Longrightarrow> children_of cid st' = children_of cid st"
  by (simp add: children_of_def GetTaskTriage_def)

lemma children_touch: "children_of cid (TouchTaskUpdatedAt now tid st) = children_of cid st"
  by (simp add: children_of_def GetTaskTriage_def TouchTaskUpdatedAt_def update_where_def find_map_cong is_card_row_def
      split: option.splits)

section \<open>The slot under the operations on a list\<close>

lemma count_update_first:
  assumes "\<And>c. find P cs = Some c \<Longrightarrow> Q (f c) \<Longrightarrow> Q c"
  shows "length (filter Q (update_first P f cs)) \<le> length (filter Q cs)"
  using assms by (induction cs) (auto split: if_splits)

lemma all_update_first: "list_all Q cs \<Longrightarrow> (\<And>c. Q c \<Longrightarrow> Q (f c)) \<Longrightarrow> list_all Q (update_first P f cs)"
  by (induction cs) auto

section \<open>Runs of child actions\<close>

text \<open>The actions on the children of a card, and the end of a child task.\<close>

inductive child_step :: "string \<Rightarrow> orch_store \<Rightarrow> orch_store \<Rightarrow> bool" for cid where
  added: "parseChildAddedPayload payload = Inr p \<Longrightarrow> applyChildAddedSideEffect cid p st = Inr st' \<Longrightarrow> child_step cid st st'"
| specced: "applyChildSpeccedSideEffect cid p st = Inr st' \<Longrightarrow> child_step cid st st'"
| dropped: "applyChildDroppedSideEffect cid i st = Inr st' \<Longrightarrow> child_step cid st st'"
| closed: "child_closed_tx cx t st = Inr (Some st') \<Longrightarrow> t_parent_id t = cid \<Longrightarrow> child_step cid st st'"

definition child_change :: "string \<Rightarrow> orch_store \<Rightarrow> orch_store \<Rightarrow> bool" where
  "child_change cid st st' \<longleftrightarrow>
     (\<forall>cs. children_of cid st = Some cs \<longrightarrow> slot_ok cs \<longrightarrow>
        (\<exists>cs'. children_of cid st' = Some cs' \<and> slot_ok cs' \<and> progress cs cs'))"

lemma child_change_trans: "child_change cid a b \<Longrightarrow> child_change cid b c \<Longrightarrow> child_change cid a c"
  unfolding child_change_def using progress_trans by blast

lemma child_change_refl [simp]: "child_change cid st st"
  by (simp add: child_change_def)

text \<open>A write of a new list to the card.\<close>

lemma child_changeI:
  assumes "GetTaskTriage cid st = Some tt" "SetDetailChildren (ca_detail tt) cs' = Inr d" "tx_Upsert (tt\<lparr>ca_detail := d\<rparr>) st = Inr st'"
    and "\<And>cs. DetailChildren (ca_detail tt) = Inr cs \<Longrightarrow> slot_ok cs \<Longrightarrow> slot_ok cs' \<and> progress cs cs'"
  shows "child_change cid st st'"
proof (unfold child_change_def, intro allI impI)
  fix cs
  assume cs: "children_of cid st = Some cs" "slot_ok cs"
  then have old: "DetailChildren (ca_detail tt) = Inr cs" using assms(1) by (auto simp: children_of_def split: sum.splits)
  have "DetailChildren d = Inr cs'" using set_children [OF old, of cs'] assms(2) by auto
  from upsert_children [OF assms(3,1) this] assms(4) [OF old cs(2)]
  show "\<exists>cs'. children_of cid st' = Some cs' \<and> slot_ok cs' \<and> progress cs cs'" by blast
qed

lemma child_change_same:
  assumes "GetTaskTriage cid st = Some tt" "tx_Upsert (tt\<lparr>ca_detail := ca_detail tt\<rparr>) st = Inr st'"
  shows "child_change cid st st'"
  using upsert_children [OF assms(2,1)] assms(1) by (auto simp: child_change_def children_of_def split: sum.splits)

text \<open>Without a row there are no children to speak of.\<close>

lemma child_change_none: "GetTaskTriage cid st = None \<Longrightarrow> child_change cid st st'"
  by (simp add: child_change_def children_of_def)

lemma slot_free:
  assumes "cardSpecSlotOccupied cid st = Inr False" "GetTaskTriage cid st = Some tt" "DetailChildren (ca_detail tt) = Inr cs" "slot_ok cs"
  shows "filter occupies_slot cs = []"
proof (rule ccontr)
  assume "filter occupies_slot cs \<noteq> []"
  then obtain c where c: "find occupies_slot cs = Some c" by (metis find_None_iff_filter not_None_eq)
  then have "ch_id c \<noteq> []" using assms(4) find_SomeD [OF c] by (auto simp: slot_ok_def list_all_iff)
  then show False using assms c
    by (auto simp: cardSpecSlotOccupied_def DetailOpenSlotChildID_def Let_def split: option.splits if_splits)
qed

lemma added_change:
  assumes "applyChildAddedSideEffect cid p st = Inr st'" "ch_id p \<noteq> []" "ch_status p = []"
  shows "child_change cid st st'"
proof (cases "GetTaskTriage cid st")
  case (Some tt)
  obtain cs d where cs: "DetailChildren (ca_detail tt) = Inr cs" "AddDetailChild (ca_detail tt) p = Inr d"
      "tx_Upsert (tt\<lparr>ca_detail := d\<rparr>) st = Inr st'" "ch_id p \<notin> set (map ch_id cs) \<Longrightarrow> cardSpecSlotOccupied cid st = Inr False"
    using assms(1) Some by (auto simp: applyChildAddedSideEffect_def triage_or_zero_def Let_def split: if_splits)
  show ?thesis
  proof (cases "ch_id p \<in> set (map ch_id cs)")
    case True
    then have "d = ca_detail tt" using cs(1,2) by (simp add: AddDetailChild_def)
    then show ?thesis using child_change_same [OF Some] cs(3) by simp
  next
    case False
    let ?cs = "cs @ [p\<lparr>ch_status := ChildOpen\<rparr>]"
    have "SetDetailChildren (ca_detail tt) ?cs = Inr d" using cs(1,2) False assms(3) by (simp add: AddDetailChild_def)
    moreover have "slot_ok ?cs" if "slot_ok cs"
      using slot_free [OF cs(4) [OF False] Some cs(1) that] that assms(2) by (auto simp: slot_ok_def)
    ultimately show ?thesis using child_changeI [OF Some _ cs(3)] cs(1) by auto
  qed
qed (rule child_change_none)

lemma slot_ok_update_first:
  assumes "slot_ok cs" "\<And>c. find P cs = Some c \<Longrightarrow> occupies_slot (f c) \<Longrightarrow> occupies_slot c"
    and "\<And>c. ch_id (f c) = ch_id c \<and> ch_status (f c) \<in> {ChildOpen, ChildSpecced, ChildDispatched, ChildClosed}"
  shows "slot_ok (update_first P f cs)"
proof -
  have "length (filter occupies_slot (update_first P f cs)) \<le> length (filter occupies_slot cs)"
    using assms(2) by (rule count_update_first)
  moreover have "list_all (\<lambda>c. ch_id c \<noteq> [] \<and> ch_status c \<in> {ChildOpen, ChildSpecced, ChildDispatched, ChildClosed}) (update_first P f cs)"
    using assms(1,3) by (intro all_update_first) (auto simp: slot_ok_def)
  ultimately show ?thesis using assms(1) by (simp add: slot_ok_def)
qed

lemma specced_change:
  assumes "applyChildSpeccedSideEffect cid p st = Inr st'"
  shows "child_change cid st st'"
proof (cases "GetTaskTriage cid st")
  case (Some tt)
  let ?P = "\<lambda>c. ch_id c = sp_id p" and ?f = "\<lambda>c. c\<lparr>ch_spec := Some (sp_spec p), ch_title := (if sp_title p \<noteq> [] then sp_title p else ch_title c), ch_status := ChildSpecced\<rparr>"
  obtain d where d: "SpecDetailChild (ca_detail tt) (sp_id p) (sp_spec p) (sp_title p) = Inr d" "tx_Upsert (tt\<lparr>ca_detail := d\<rparr>) st = Inr st'"
    using assms Some by (auto simp: applyChildSpeccedSideEffect_def triage_or_zero_def Let_def)
  obtain cs c where c: "DetailChildren (ca_detail tt) = Inr cs" "find ?P cs = Some c"
    using d(1) by (auto simp: SpecDetailChild_def split: option.splits)
  show ?thesis
  proof (cases "ch_status c = ChildDispatched \<or> ch_status c = ChildClosed")
    case True
    then have "d = ca_detail tt" using d(1) c by (simp add: SpecDetailChild_def)
    then show ?thesis using child_change_same [OF Some] d(2) by simp
  next
    case False
    then have "SetDetailChildren (ca_detail tt) (update_first ?P ?f cs) = Inr d" using d(1) c by (simp add: SpecDetailChild_def)
    moreover have "slot_ok (update_first ?P ?f cs)" if "slot_ok cs"
      using that False c(2) find_SomeD [OF c(2)]
      by (intro slot_ok_update_first) (auto simp: slot_ok_def list_all_iff occupies_slot_def)
    moreover have "progress cs (update_first ?P ?f cs)"
      using False c(2) by (intro progress_update_first) (auto simp: child_le_def child_rank_def child_status_defs)
    ultimately show ?thesis using child_changeI [OF Some _ d(2)] c(1) by simp
  qed
qed (rule child_change_none)

lemma closing_change:
  assumes "GetTaskTriage cid st = Some tt" "DetailChildren (ca_detail tt) = Inr cs"
    and "SetDetailChildren (ca_detail tt) (update_first P (\<lambda>c. c\<lparr>ch_status := ChildClosed\<rparr>) cs) = Inr d" "tx_Upsert (tt\<lparr>ca_detail := d\<rparr>) st = Inr st'"
  shows "child_change cid st st'"
proof -
  have "slot_ok (update_first P (\<lambda>c. c\<lparr>ch_status := ChildClosed\<rparr>) cs)" if "slot_ok cs"
    using that by (intro slot_ok_update_first) (auto simp: occupies_slot_def child_status_defs)
  moreover have "progress cs (update_first P (\<lambda>c. c\<lparr>ch_status := ChildClosed\<rparr>) cs)"
    by (intro progress_update_first) (auto simp: child_le_def child_rank_def)
  ultimately show ?thesis using child_changeI [OF assms(1,3,4)] assms(2) by simp
qed

lemma dropped_change:
  assumes "applyChildDroppedSideEffect cid i st = Inr st'"
  shows "child_change cid st st'"
proof (cases "GetTaskTriage cid st")
  case (Some tt)
  obtain d ch where d: "DropDetailChild (ca_detail tt) i = Inr (d, ch)" "if ch then tx_Upsert (tt\<lparr>ca_detail := d\<rparr>) st = Inr st' else st' = st"
    using assms Some by (auto simp: applyChildDroppedSideEffect_def triage_or_zero_def Let_def split: if_splits)
  show ?thesis
  proof (cases ch)
    case True
    then obtain cs where "DetailChildren (ca_detail tt) = Inr cs"
        "SetDetailChildren (ca_detail tt) (update_first (\<lambda>c. ch_id c = i) (\<lambda>c. c\<lparr>ch_status := ChildClosed\<rparr>) cs) = Inr d"
      using d(1) by (auto simp: DropDetailChild_def split: option.splits if_splits)
    then show ?thesis using closing_change [OF Some] d(2) True by simp
  qed (use d(2) in simp)
qed (rule child_change_none)

lemma closed_change:
  assumes "child_closed_tx cx t st = Inr (Some st')" "t_parent_id t = cid"
  shows "child_change cid st st'"
proof -
  obtain tt d st1 a st2 where tt: "GetTaskTriage cid st = Some tt" "MarkDetailChildClosed (ca_detail tt) (t_id t) = Inr (d, True)"
      "tx_Upsert (tt\<lparr>ca_detail := d\<rparr>) st = Inr st1" "st_tasks st2 = st_tasks st1" "st' = TouchTaskUpdatedAt (cx_now cx) cid st2"
    using assms by (auto simp: child_closed_tx_def split: option.splits if_splits dest!: tx_CreateAction_tasks)
  have "children_of cid st' = children_of cid st1" using tt(4,5) children_tasks [of st2 st1] by (simp add: children_touch)
  moreover obtain cs where "DetailChildren (ca_detail tt) = Inr cs"
      "SetDetailChildren (ca_detail tt) (update_first (\<lambda>c. ch_task_ref c = t_id t \<and> ch_status c \<noteq> ChildClosed) (\<lambda>c. c\<lparr>ch_status := ChildClosed\<rparr>) cs) = Inr d"
    using tt(2) by (auto simp: MarkDetailChildClosed_def Let_def split: if_splits)
  ultimately show ?thesis using closing_change [OF tt(1) _ _ tt(3)] by (simp add: child_change_def)
qed

text \<open>What no field decoder of a struct changes, decoding does not change.\<close>

lemma find_field_in: "find_field fs k = Some d \<Longrightarrow> \<exists>n. (n, d) \<in> set fs"
  by (auto simp: find_field_def split: option.splits dest: map_of_SomeD find_SomeD)

lemma decode_members_keep:
  assumes "\<And>n d v r r'. (n, d) \<in> set fs \<Longrightarrow> d v r = Some r' \<Longrightarrow> g r' = g r"
  shows "decode_members fs ms r = Some r' \<Longrightarrow> g r' = g r"
proof (induction ms arbitrary: r)
  case (Cons m ms)
  obtain k v where m: "m = (k, v)" by (cases m)
  show ?case
  proof (cases "find_field fs k")
    case None
    then show ?thesis using Cons m by simp
  next
    case (Some d)
    obtain r1 where r1: "d v r = Some r1" "decode_members fs ms r1 = Some r'"
      using Cons.prems m Some by (auto split: option.splits)
    obtain n where "(n, d) \<in> set fs" using find_field_in [OF Some] by blast
    then show ?thesis using Cons.IH [OF r1(2)] assms r1(1) by metis
  qed
qed simp

lemma child_added_status: "parseChildAddedPayload payload = Inr p \<Longrightarrow> ch_status p = []"
proof -
  have keep: "ch_status r' = ch_status r" if "(n, d) \<in> set childAddedPayload_fields" "d v r = Some r'" for n d v r r'
    using that by (auto simp: childAddedPayload_fields_def dec_string_def split: json.splits)
  have members: "ch_status r' = ch_status r" if "decode_members childAddedPayload_fields ms r = Some r'" for ms r r'
    by (rule decode_members_keep [where g = ch_status, OF _ that]) (rule keep)
  assume "parseChildAddedPayload payload = Inr p"
  then show ?thesis
    by (auto simp: parseChildAddedPayload_def unmarshal_struct_def decode_struct_def child_zero_def
        split: raw_message.splits json.splits dest!: members)
qed

lemma child_step_change: "child_step cid st st' \<Longrightarrow> child_change cid st st'"
proof (induction rule: child_step.induct)
  case (added payload p st st')
  have "ch_id p \<noteq> []" using added(1) by (auto simp: parseChildAddedPayload_def)
  then show ?case using added_change [OF added(2)] child_added_status [OF added(1)] by blast
qed (auto intro: specced_change dropped_change closed_change)

text \<open>
  C5. A card has at most one piece of work in preparation, and its children only move forward. Along every run of
  child actions and ends of child tasks, started from a card with at most one child that is open or specced,
  there is never a second one; every child keeps its place and its id, its status never goes back, and once it
  is a task its spec and its task stay.
\<close>

theorem card_slot_never_shared:
  assumes "(child_step cid)\<^sup>*\<^sup>* st st'" "children_of cid st = Some cs" "slot_ok cs"
  shows "\<exists>cs'. children_of cid st' = Some cs' \<and> slot_ok cs' \<and> progress cs cs'"
proof -
  from assms(1) have "child_change cid st st'"
    by (induction rule: rtranclp_induct) (auto intro: child_change_trans child_step_change)
  then show ?thesis using assms(2,3) by (simp add: child_change_def)
qed

text \<open>An empty card gets its first child.\<close>

definition slot_store :: orch_store where
  "slot_store = \<lparr>st_tasks = [sample_card Working], st_jobs = [], st_requests = [], st_barriers = [], st_actions = [], st_op_results = []\<rparr>"

definition child_payload :: "string \<Rightarrow> raw_message" where
  "child_payload i = Raw (JObj [(''id'', JStr i)])"

theorem card_slot_never_shared_witness:
  "\<exists>p st' cs'. parseChildAddedPayload (child_payload ''a'') = Inr p \<and> applyChildAddedSideEffect ''c1'' p slot_store = Inr st'
     \<and> children_of ''c1'' st' = Some cs' \<and> slot_ok cs' \<and> progress [] cs'"
proof -
  let ?p = "child_zero\<lparr>ch_id := ''a''\<rparr>"
  have p: "parseChildAddedPayload (child_payload ''a'') = Inr ?p" by code_simp
  have "is_ok (applyChildAddedSideEffect ''c1'' ?p slot_store)" by code_simp
  then obtain st' where st': "applyChildAddedSideEffect ''c1'' ?p slot_store = Inr st'" by (auto simp: is_ok_def split: sum.splits)
  have "(child_step ''c1'')\<^sup>*\<^sup>* slot_store st'" using added [OF p st'] by (rule r_into_rtranclp)
  moreover have "children_of ''c1'' slot_store = Some []" by code_simp
  moreover have "slot_ok []" by (simp add: slot_ok_def)
  ultimately show ?thesis using card_slot_never_shared [of "''c1''" slot_store st' "[]"] p st' by blast
qed

end
