(* ===== verification/Payload_Facts.thy ===== *)
theory Payload_Facts
  imports Payload_Merge
begin

text \<open>
  Facts about payload merges, key by key; the session list of the agent as a map from session slots to
  sessions; and the awaiting trait.
\<close>

section \<open>The patch of a handler\<close>

text \<open>The base map of a merge.\<close>

lemma base_map:
  assumes "(if blank_raw base then Some [] else unmarshal_map base) = Some m"
  shows "map_of m k = payload_at base k" "distinct (map fst m)"
proof -
  show "map_of m k = payload_at base k"
    using assms payload_at_blank [of base k] by (cases "blank_raw base") (auto simp: payload_at_def [of base k])
  show "distinct (map fst m)" using assms by (auto dest: unmarshal_map_distinct split: if_splits)
qed

definition blocked :: "trait list option \<Rightarrow> string \<Rightarrow> bool" where
  "blocked allowed key = (case allowed of None \<Rightarrow> False | Some ts \<Rightarrow> key \<notin> set ts)"

definition merged_value :: "string \<Rightarrow> string \<Rightarrow> json option \<Rightarrow> json \<Rightarrow> json" where
  "merged_value handlerID key existing val =
     (case TraitMergeMode key of
        MergeModeShared \<Rightarrow> merge_shared handlerID existing val
      | MergeModeExclusive \<Rightarrow> merge_exclusive key existing val)"

lemma merge_key_eq:
  "merge_key h allowed (key, val) m =
     (if blocked allowed key then m else AList.update key (merged_value h key (map_of m key) val) m)"
  by (simp add: merge_key_def blocked_def merged_value_def)

lemma fold_merge_key:
  assumes "distinct (map fst kvs)"
  shows "map_of (fold (merge_key h allowed) kvs m) k =
    (case map_of kvs k of
       None \<Rightarrow> map_of m k
     | Some v \<Rightarrow> if blocked allowed k then map_of m k else Some (merged_value h k (map_of m k) v))"
  using assms
proof (induction kvs arbitrary: m)
  case (Cons kv kvs)
  obtain key val where kv: "kv = (key, val)" by (cases kv)
  have "map_of kvs key = None" using Cons.prems by (simp add: kv map_of_eq_None_iff)
  then show ?case
    using Cons by (auto simp: kv merge_key_eq update_conv' split: option.splits)
qed simp

lemma distinct_fold_merge_key: "distinct (map fst m) \<Longrightarrow> distinct (map fst (fold (merge_key h allowed) kvs m))"
  by (induction kvs arbitrary: m) (auto simp: merge_key_def distinct_update split: prod.splits)

lemma merge_patch_at:
  assumes "MergePayloadPatch base patch h allowed = Inr r"
  shows "payload_at r k =
    (case payload_at patch k of
       None \<Rightarrow> payload_at base k
     | Some v \<Rightarrow> if blocked allowed k then payload_at base k else Some (merged_value h k (payload_at base k) v))"
proof (cases "blank_raw patch")
  case True
  then show ?thesis using assms by (auto simp: MergePayloadPatch_def split: if_splits)
next
  case False
  then obtain bm pm where b: "(if blank_raw base then Some [] else unmarshal_map base) = Some bm"
      and p: "unmarshal_map patch = Some pm"
      and r: "r = Raw (marshal_map (fold (merge_key h allowed) pm bm))"
    using assms by (auto simp: MergePayloadPatch_def split: option.splits if_splits)
  show ?thesis
    using base_map(1) [OF b, of k] fold_merge_key [OF unmarshal_map_distinct [OF p], of h allowed bm k] p
      distinct_fold_merge_key [OF base_map(2) [OF b], of h allowed pm]
    unfolding r by (simp add: payload_at_def [of patch] split: option.splits)
qed

section \<open>Agent sessions\<close>

text \<open>
  The member of an object on the way to the sessions: \<open>None\<close> when something else stands where the object should
  be, \<open>Some None\<close> when the object or the member is not there.
\<close>

definition member_of :: "json option \<Rightarrow> string \<Rightarrow> json option option" where
  "member_of v k = (case v of None \<Rightarrow> Some None | Some x \<Rightarrow> map_option (\<lambda>m. map_of m k) (unmarshal_object x))"

definition items_of :: "json option \<Rightarrow> json list option" where
  "items_of v =
     (case v of
        None \<Rightarrow> Some []
      | Some JNull \<Rightarrow> Some []
      | Some (JArr items) \<Rightarrow> if list_all (\<lambda>i. keyOf i \<noteq> None) items then Some items else None
      | Some _ \<Rightarrow> None)"

definition below :: "string \<Rightarrow> (json option \<Rightarrow> json list option) \<Rightarrow> json option \<Rightarrow> json list option" where
  "below k f v = Option.bind (member_of v k) f"

text \<open>The sessions of a payload, none when it has no list of them; \<open>None\<close> when a part of the way is malformed.\<close>

definition sessions_of :: "raw_message \<Rightarrow> json list option" where
  "sessions_of r = below ''claude_code'' (below ''sessions'' items_of) (payload_at r ''artifact'')"

definition sessions_map :: "json list \<Rightarrow> session_key \<rightharpoonup> json" where
  "sessions_map items = map_of (rev (map (\<lambda>i. (the (keyOf i), i)) items))"

definition keyed :: "(session_key \<times> json) list \<Rightarrow> bool" where
  "keyed byKey \<longleftrightarrow> (\<forall>k i. map_of byKey k = Some i \<longrightarrow> keyOf i = Some k)"

lemma add_sessions_spec:
  assumes "list_all (\<lambda>i. keyOf i \<noteq> None) items" "distinct order" "set order = dom (map_of byKey)" "keyed byKey"
  shows "\<exists>order' byKey'. add_sessions items (order, byKey) = Some (order', byKey') \<and> distinct order'
    \<and> set order' = dom (map_of byKey') \<and> map_of byKey' = map_of byKey ++ sessions_map items \<and> keyed byKey'"
  using assms
proof (induction items arbitrary: order byKey)
  case Nil
  then show ?case by (simp add: sessions_map_def)
next
  case (Cons item items)
  obtain k where k: "keyOf item = Some k" using Cons.prems(1) by auto
  define o1 where "o1 = (if map_of byKey k = None then order @ [k] else order)"
  define b1 where "b1 = AList.update k item byKey"
  have m: "map_of b1 = (map_of byKey)(k \<mapsto> item)" by (simp add: b1_def update_conv')
  have s: "map_of byKey ++ sessions_map (item # items) = map_of b1 ++ sessions_map items"
    by (simp add: sessions_map_def k m)
  have "distinct o1" using Cons.prems(2,3) by (auto simp: o1_def domIff)
  moreover have "set o1 = dom (map_of b1)" using Cons.prems(3) m by (auto simp: o1_def domIff)
  moreover have "keyed b1" using Cons.prems(4) k m by (auto simp: keyed_def)
  moreover have "list_all (\<lambda>i. keyOf i \<noteq> None) items" using Cons.prems(1) by simp
  moreover have "add_sessions (item # items) (order, byKey) = add_sessions items (o1, b1)"
    by (simp add: k o1_def b1_def)
  ultimately show ?case using Cons.IH [of o1 b1] s by simp
qed

lemma mergeClaudeSessions_items:
  assumes "list_all (\<lambda>i. keyOf i \<noteq> None) es" "list_all (\<lambda>i. keyOf i \<noteq> None) ps"
  obtains items where "mergeClaudeSessions (Some (JArr es)) (Some (JArr ps)) = Some (JArr items)"
    "list_all (\<lambda>i. keyOf i \<noteq> None) items" "sessions_map items = sessions_map es ++ sessions_map ps"
proof -
  obtain order byKey where r: "add_sessions (es @ ps) ([], []) = Some (order, byKey)"
      "distinct order" "set order = dom (map_of byKey)" "map_of byKey = Map.empty ++ sessions_map (es @ ps)"
      "keyed byKey"
    using assms add_sessions_spec [of "es @ ps" "[]" "[]"] by (auto simp: keyed_def)
  let ?items = "map (\<lambda>k. the (map_of byKey k)) order"
  have key: "keyOf (the (map_of byKey k)) = Some k" if "k \<in> set order" for k
    using r(3,5) that unfolding keyed_def by (metis domD option.sel)
  have kv: "map (\<lambda>i. (the (keyOf i), i)) ?items = map (\<lambda>k. (k, the (map_of byKey k))) order"
    using key by simp
  have "sessions_map ?items = map_of byKey"
  proof
    fix k
    have d: "distinct (map fst (rev (map (\<lambda>k. (k, the (map_of byKey k))) order)))"
      using r(2) by (simp add: rev_map [symmetric] comp_def)
    have "sessions_map ?items k = Some i \<longleftrightarrow> map_of byKey k = Some i" for i
      unfolding sessions_map_def kv map_of_eq_Some_iff [OF d] using r(3) by force
    then show "sessions_map ?items k = map_of byKey k"
      by (cases "map_of byKey k"; cases "sessions_map ?items k") auto
  qed
  moreover have "sessions_map (es @ ps) = sessions_map es ++ sessions_map ps" by (simp add: sessions_map_def)
  moreover have "list_all (\<lambda>i. keyOf i \<noteq> None) ?items" using key by (simp add: list_all_iff)
  ultimately show thesis
    using that [of ?items] r(1,4) by (simp add: mergeClaudeSessions_def parseItems_def)
qed

text \<open>What stands under a key after a merge: the merged value if there is one, else that of the patch, else the old one.\<close>

definition pick :: "json option \<Rightarrow> json option \<Rightarrow> json option \<Rightarrow> json option" where
  "pick m e p = (case m of Some v \<Rightarrow> Some v | None \<Rightarrow> (case p of Some v \<Rightarrow> Some v | None \<Rightarrow> e))"

definition unions :: "(json option \<Rightarrow> json list option) \<Rightarrow> (json option \<Rightarrow> json option \<Rightarrow> json option) \<Rightarrow> bool" where
  "unions f merge \<longleftrightarrow> (\<forall>e p es ps. f e = Some es \<longrightarrow> f p = Some ps \<longrightarrow>
     (\<exists>items. f (pick (merge e p) e p) = Some items \<and> sessions_map items = sessions_map es ++ sessions_map ps))"

lemma sessions_map_Nil [simp]: "sessions_map [] = Map.empty"
  by (simp add: sessions_map_def)

lemma items_of_Some: "items_of (Some v) = Some items \<longleftrightarrow> parseItems v = Some items \<and> list_all (\<lambda>i. keyOf i \<noteq> None) items"
  by (auto simp: items_of_def parseItems_def split: json.splits)

lemma sessions_union: "unions items_of mergeClaudeSessions"
  unfolding unions_def
proof (intro allI impI)
  fix e p es ps assume i: "items_of e = Some es" "items_of p = Some ps"
  show "\<exists>items. items_of (pick (mergeClaudeSessions e p) e p) = Some items \<and> sessions_map items = sessions_map es ++ sessions_map ps"
  proof (cases "e = None \<or> p = None")
    case True
    then show ?thesis using i by (auto simp: mergeClaudeSessions_def pick_def items_of_def split: option.splits)
  next
    case False
    then obtain x y where xy: "e = Some x" "p = Some y" by auto
    have k: "parseItems x = Some es" "list_all (\<lambda>i. keyOf i \<noteq> None) es" "parseItems y = Some ps" "list_all (\<lambda>i. keyOf i \<noteq> None) ps"
      using i by (simp_all add: xy items_of_Some)
    obtain items where m: "mergeClaudeSessions (Some (JArr es)) (Some (JArr ps)) = Some (JArr items)"
        "list_all (\<lambda>i. keyOf i \<noteq> None) items" "sessions_map items = sessions_map es ++ sessions_map ps"
      using mergeClaudeSessions_items [OF k(2,4)] .
    have "mergeClaudeSessions e p = mergeClaudeSessions (Some (JArr es)) (Some (JArr ps))"
      using k(1,3) by (simp add: mergeClaudeSessions_def xy parseItems_def)
    then show ?thesis using m by (simp add: pick_def items_of_Some parseItems_def)
  qed
qed

lemma merge_with_subkey_member:
  assumes "unmarshal_object e = Some eo" "unmarshal_object p = Some po"
  obtains r where "merge_with_subkey sub merge e p = Some r"
    "member_of (Some r) sub = Some (pick (merge (map_of eo sub) (map_of po sub)) (map_of eo sub) (map_of po sub))"
proof -
  let ?po = "case merge (map_of eo sub) (map_of po sub) of None \<Rightarrow> po | Some v \<Rightarrow> AList.update sub v po"
  let ?m = "maps_copy eo ?po"
  have d: "distinct (map fst ?m)" using unmarshal_object_distinct [OF assms(1)] by (rule distinct_maps_copy)
  have "map_of ?m sub = pick (merge (map_of eo sub) (map_of po sub)) (map_of eo sub) (map_of po sub)"
    by (auto simp: map_of_maps_copy pick_def update_conv' map_add_def split: option.splits)
  then have "member_of (Some (marshal_map ?m)) sub = Some (pick (merge (map_of eo sub) (map_of po sub)) (map_of eo sub) (map_of po sub))"
    using d by (simp add: member_of_def unmarshal_object_def marshal_map_def map_of_rev_sort_key)
  then show thesis using that assms by (simp add: merge_with_subkey_def)
qed

text \<open>A merge of one sub-key carries the union one level up.\<close>

lemma below_union:
  assumes "unions f merge" "f None = Some []"
  shows "unions (below k f) (\<lambda>e p. case (e, p) of (Some x, Some y) \<Rightarrow> merge_with_subkey k merge x y | _ \<Rightarrow> None)"
  unfolding unions_def
proof (intro allI impI)
  fix e p es ps assume i: "below k f e = Some es" "below k f p = Some ps"
  let ?m = "case (e, p) of (Some x, Some y) \<Rightarrow> merge_with_subkey k merge x y | _ \<Rightarrow> None"
  show "\<exists>items. below k f (pick ?m e p) = Some items \<and> sessions_map items = sessions_map es ++ sessions_map ps"
  proof (cases "e = None \<or> p = None")
    case True
    then show ?thesis using i assms(2) by (auto simp: pick_def below_def member_of_def split: option.splits)
  next
    case False
    then obtain x y where xy: "e = Some x" "p = Some y" by auto
    obtain eo po where o: "unmarshal_object x = Some eo" "unmarshal_object y = Some po" "f (map_of eo k) = Some es" "f (map_of po k) = Some ps"
      using i by (auto simp: xy below_def member_of_def bind_eq_Some_conv)
    obtain r where r: "merge_with_subkey k merge x y = Some r"
        "member_of (Some r) k = Some (pick (merge (map_of eo k) (map_of po k)) (map_of eo k) (map_of po k))"
      using merge_with_subkey_member [OF o(1,2)] .
    then show ?thesis using assms(1) [unfolded unions_def, rule_format, OF o(3,4)] by (simp add: xy pick_def below_def)
  qed
qed

lemma artifact_union:
  "unions (below ''claude_code'' (below ''sessions'' items_of))
     (\<lambda>e p. case (e, p) of (Some x, Some y) \<Rightarrow> mergeArtifactPatch x y | _ \<Rightarrow> None)"
proof -
  have "mergeClaudeCodeArtifact =
      (\<lambda>e p. case (e, p) of (Some x, Some y) \<Rightarrow> merge_with_subkey ''sessions'' mergeClaudeSessions x y | _ \<Rightarrow> None)"
    by (intro ext) (simp add: mergeClaudeCodeArtifact_def)
  then have "unions (below ''sessions'' items_of) mergeClaudeCodeArtifact"
    using below_union [OF sessions_union, of "''sessions''"] by (simp add: items_of_def)
  moreover have "below ''sessions'' items_of None = Some []" by (simp add: below_def member_of_def items_of_def)
  ultimately show ?thesis unfolding mergeArtifactPatch_def by (rule below_union)
qed

end
