(* ===== verification/Hook_Properties.thy ===== *)
theory Hook_Properties
  imports Hook_Dispatch Payload_Facts "HOL-Library.Sublist"
begin

text \<open>The properties of a dispatch cycle.\<close>

section \<open>Which hooks run\<close>

text \<open>How a hook fails: its job is not started, its job is not waited for to the end, or its exit code is not zero.\<close>

definition hook_failure :: "dispatch_wiring \<Rightarrow> task \<Rightarrow> hook \<Rightarrow> dispatch_error option" where
  "hook_failure w t h =
     (case dw_execute w (fire_event t h) of
        None \<Rightarrow> Some (ExecuteHookFailed (hk_id h))
      | Some jobID \<Rightarrow>
          (case dw_wait w jobID of
             None \<Rightarrow> Some (WaitHookFailed (hk_id h))
           | Some c \<Rightarrow> if jc_exit_code c = 0 then None else Some (HookFailed (hk_id h) (jc_exit_code c))))"

text \<open>What a dispatch promises of its results and its error.\<close>

definition dispatched :: "dispatch_wiring \<Rightarrow> task \<Rightarrow> hook list \<Rightarrow> handler_result list \<Rightarrow> dispatch_error option \<Rightarrow> bool" where
  "dispatched w t hooks rs err \<longleftrightarrow>
     prefix (map hr_id rs) (map hk_id hooks)
     \<and> (if err = None
        then map hr_id rs = map hk_id hooks \<and> list_all (\<lambda>r. hr_exit_code r = 0) rs
          \<and> list_all (\<lambda>h. hook_failure w t h = None) hooks
        else err = Some PanicShortID \<and> length (t_id t) < 8 \<or> err \<in> hook_failure w t ` set hooks)"

lemma parse_simps [simp]: "hr_id (parseHandlerResult w hid c) = hid" "hr_exit_code (parseHandlerResult w hid c) = jc_exit_code c"
  by (simp_all add: parseHandlerResult_def)

lemma sequential_dispatched: "dispatch_sequential w t hooks = (rs, err) \<Longrightarrow> dispatched w t hooks rs err"
proof (induction w t hooks arbitrary: rs err rule: dispatch_sequential.induct)
  case (2 w t h hooks)
  show ?case
  proof (cases "hook_failure w t h = None \<and> 8 \<le> length (t_id t)")
    case True
    then obtain j c where j: "dw_execute w (fire_event t h) = Some j" "dw_wait w j = Some c" "jc_exit_code c = 0"
      by (auto simp: hook_failure_def split: option.splits if_splits)
    obtain rs' where "dispatch_sequential w t hooks = (rs', err)" "rs = parseHandlerResult w (hk_id h) c # rs'"
      using 2(2) True j by (auto simp: Let_def split: prod.splits)
    moreover from this 2(1) True j have "dispatched w t hooks rs' err" by auto
    ultimately show ?thesis using True j by (auto simp: dispatched_def)
  next
    case False
    then show ?thesis
      using 2(2) by (auto simp: dispatched_def hook_failure_def Let_def split: option.splits if_splits)
  qed
qed (simp add: dispatched_def)

lemma launch_all_jobs:
  "launch_all w t hooks = Inr jobs \<Longrightarrow>
     list_all2 (\<lambda>h (hid, j). hid = hk_id h \<and> dw_execute w (fire_event t h) = Some j) hooks jobs"
  by (induction w t hooks arbitrary: jobs rule: launch_all.induct) (auto split: if_splits option.splits)

lemma launch_all_error:
  "launch_all w t hooks = Inl e \<Longrightarrow> e = PanicShortID \<and> length (t_id t) < 8 \<or> Some e \<in> hook_failure w t ` set hooks"
proof (induction w t hooks rule: launch_all.induct)
  case (2 w t h hooks)
  show ?case
  proof (cases "dw_execute w (fire_event t h)")
    case None
    then have "hook_failure w t h = Some (ExecuteHookFailed (hk_id h))" by (simp add: hook_failure_def)
    then show ?thesis using 2(2) None by (auto split: if_splits intro: rev_image_eqI)
  next
    case (Some j)
    then show ?thesis using 2 by (cases "launch_all w t hooks") (auto split: if_splits)
  qed
qed simp

lemma job_hook:
  assumes "list_all2 (\<lambda>h (hid, j). hid = hk_id h \<and> dw_execute w (fire_event t h) = Some j) hooks jobs" "(hid, j) \<in> set jobs"
  obtains h where "h \<in> set hooks" "hk_id h = hid" "dw_execute w (fire_event t h) = Some j"
  using assms by (fastforce simp: list_all2_conv_all_nth in_set_conv_nth)

lemma parallel_dispatched:
  assumes "dispatchParallel w t hooks = (rs, err)"
  shows "dispatched w t hooks rs err"
proof (cases "launch_all w t hooks")
  case (Inl e)
  then show ?thesis using assms launch_all_error [OF Inl] by (auto simp: dispatchParallel_def dispatched_def)
next
  case (Inr jobs)
  note l = launch_all_jobs [OF Inr]
  let ?rs = "map (\<lambda>(hid, j). parseHandlerResult w hid (the (dw_wait w j))) jobs"
  have ids: "map hr_id ?rs = map hk_id hooks"
    using l by (induction rule: list_all2_induct) auto
  show ?thesis
  proof (cases "find (\<lambda>(_, j). dw_wait w j = None) jobs")
    case (Some p)
    then obtain hid j where p: "p = (hid, j)" "(hid, j) \<in> set jobs" "dw_wait w j = None" by (cases p) (auto dest: find_SomeD)
    from job_hook [OF l p(2)] obtain h where "h \<in> set hooks" "hk_id h = hid" "dw_execute w (fire_event t h) = Some j" .
    then have "Some (WaitHookFailed hid) \<in> hook_failure w t ` set hooks"
      using p(3) by (auto simp: hook_failure_def image_iff intro!: bexI [of _ h])
    then show ?thesis using assms Inr Some p(1) by (auto simp: dispatchParallel_def dispatched_def)
  next
    case wait: None
    show ?thesis
    proof (cases "find (\<lambda>r. hr_exit_code r \<noteq> 0) ?rs")
      case (Some r)
      then obtain hid j where j: "(hid, j) \<in> set jobs" "r = parseHandlerResult w hid (the (dw_wait w j))" "hr_exit_code r \<noteq> 0"
        by (auto dest!: find_SomeD)
      from job_hook [OF l j(1)] obtain h where "h \<in> set hooks" "hk_id h = hid" "dw_execute w (fire_event t h) = Some j" .
      moreover obtain c where "dw_wait w j = Some c" using wait j(1) by (auto simp: find_None_iff)
      ultimately have "Some (HookFailed (hr_id r) (hr_exit_code r)) \<in> hook_failure w t ` set hooks"
        using j(2,3) by (auto simp: hook_failure_def image_iff intro!: bexI [of _ h])
      then show ?thesis using assms Inr wait Some ids by (auto simp: dispatchParallel_def dispatched_def Let_def)
    next
      case None
      then have "\<forall>(hid, j) \<in> set jobs. \<exists>c. dw_wait w j = Some c \<and> jc_exit_code c = 0"
        using wait by (fastforce simp: find_None_iff)
      with l have "list_all (\<lambda>h. hook_failure w t h = None) hooks"
        by (induction rule: list_all2_induct) (auto simp: hook_failure_def)
      then show ?thesis
        using assms Inr wait None ids by (auto simp: dispatchParallel_def dispatched_def Let_def find_None_iff list_all_iff)
    qed
  qed
qed

lemma dispatch_dispatched: "dispatchHooks w t hooks par = (rs, err) \<Longrightarrow> dispatched w t hooks rs err"
  using sequential_dispatched parallel_dispatched by (auto simp: dispatchHooks_def split: if_splits)

lemma dispatch_ids: "dispatchHooks w t hooks par = (rs, None) \<Longrightarrow> map hr_id rs = map hk_id hooks"
  by (drule dispatch_dispatched) (simp add: dispatched_def)

lemma fired_ids: "map fe_handler_id (map (\<lambda>hr. buildFiredEvent hr k s hooks) rs) = map hr_id rs"
  by (simp add: buildFiredEvent_def)

definition cycle_hooks :: "behaviors option \<Rightarrow> task \<Rightarrow> hook list" where
  "cycle_hooks meta t = Evaluate t (case lookupBehavior meta t of None \<Rightarrow> [] | Some b \<Rightarrow> bh_hooks b)"

lemma collision_error: "merge_results hooks rs ws st = Inl e \<Longrightarrow> \<exists>k a b. e = ExclusiveCollision k a b"
proof (induction hooks rs ws st rule: merge_results.induct)
  case (2 hooks hr hrs ws st)
  have "\<exists>k a b. e = ExclusiveCollision k a b" if "check_keys ks wid ws' = Inl e" for ks wid ws'
    using that by (induction ks wid ws' rule: check_keys.induct) (auto split: if_splits option.splits)
  then show ?case using 2 by (auto simp: checkExclusiveCollision_def and_then_def split: if_splits option.splits sum.splits)
qed simp

text \<open>
  C36. A failed hook never advances a task. A dispatch cycle succeeds only when the job of every chosen hook was
  started, waited for to its end and exited with zero; it then reports all of them in order. Otherwise it reports
  the hooks that did run, moves no status and hands out no payload, and its error is the failure of one of the
  hooks, unless all succeeded and two of them wrote one exclusive trait, the task is not an execution task, or its
  id is too short.
\<close>

theorem failed_hook_never_advances:
  "case DispatchAndAdvance w t meta sm of (dr, err) \<Rightarrow>
     prefix (map fe_handler_id (dr_fired_events dr)) (map hk_id (cycle_hooks meta t))
     \<and> (if err = None
        then list_all (\<lambda>h. hook_failure w t h = None) (cycle_hooks meta t)
          \<and> map fe_handler_id (dr_fired_events dr) = map hk_id (cycle_hooks meta t)
          \<and> list_all fe_success (dr_fired_events dr)
        else dr_new_status dr = None \<and> dr_final_payload dr = RawEmpty \<and> dr_payload_delta dr = RawEmpty
          \<and> (err \<in> hook_failure w t ` set (cycle_hooks meta t)
             \<or> list_all (\<lambda>h. hook_failure w t h = None) (cycle_hooks meta t) \<and> (\<exists>k a b. err = Some (ExclusiveCollision k a b))
             \<or> err = Some NoExecAttrs \<and> t_exec t = None \<or> err = Some PanicShortID \<and> length (t_id t) < 8))"
proof (cases "t_exec t")
  case None
  then show ?thesis by (simp add: DispatchAndAdvance_def fired_only_def)
next
  case e: (Some e)
  obtain rs er where d: "dispatchHooks w t (cycle_hooks meta t) (IsReadonly t) = (rs, er)" by fastforce
  note p = dispatch_dispatched [OF d, unfolded dispatched_def]
  show ?thesis
  proof (cases er)
    case (Some x)
    then show ?thesis
      using e d p by (auto simp: DispatchAndAdvance_def cycle_hooks_def [symmetric] Let_def fired_only_def fired_ids simp del: map_map)
  next
    case None
    have ok: "list_all fe_success (map (\<lambda>hr. buildFiredEvent hr k s hs) rs)" for k s hs
      using p None by (simp add: list_all_iff buildFiredEvent_def)
    show ?thesis
    proof (cases "merge_results (cycle_hooks meta t) rs [] (ex_payload e, Raw (JObj []))")
      case (Inl x)
      then show ?thesis using e d p None collision_error [OF Inl]
        by (simp add: DispatchAndAdvance_def cycle_hooks_def [symmetric] Let_def fired_only_def fired_ids del: map_map)
    next
      case (Inr m)
      then show ?thesis using e d p None ok
        by (cases m) (simp add: DispatchAndAdvance_def cycle_hooks_def [symmetric] Let_def fired_ids del: map_map split: prod.split)
    qed
  qed
qed

section \<open>The delta of a cycle\<close>

text \<open>A trait that a hook of the cycle wrote and was allowed to write.\<close>

definition wrote :: "hook list \<Rightarrow> handler_result list \<Rightarrow> string \<Rightarrow> bool" where
  "wrote hooks rs k \<longleftrightarrow>
     list_ex (\<lambda>hr. payload_at (hr_payload_patch hr) k \<noteq> None \<and> \<not> blocked (allowedTraits hr hooks) k) rs"

lemma apply_patch_delta:
  assumes "apply_patch hooks hr (payload, delta) = (payload', delta')" "payload_at delta' k \<noteq> None"
  shows "payload_at delta k \<noteq> None \<or> wrote hooks [hr] k"
proof (cases "delta' = delta")
  case False
  then have "MergePayloadPatch delta (hr_payload_patch hr) (hr_id hr) (allowedTraits hr hooks) = Inr delta'"
    using assms(1) by (auto simp: apply_patch_def split: if_splits sum.splits)
  from merge_patch_at [OF this, of k] assms(2) show ?thesis
    by (auto simp: wrote_def split: option.splits if_splits)
qed (use assms in simp)

lemma merge_results_delta:
  "merge_results hooks rs ws (payload, delta) = Inr (payload', delta') \<Longrightarrow> payload_at delta' k \<noteq> None \<Longrightarrow>
     payload_at delta k \<noteq> None \<or> wrote hooks rs k"
proof (induction rs arbitrary: ws payload delta)
  case (Cons hr rs)
  obtain p1 d1 where a: "apply_patch hooks hr (payload, delta) = (p1, d1)" by fastforce
  from Cons.prems(1) obtain ws' where "merge_results hooks rs ws' (p1, d1) = Inr (payload', delta')"
    using a by auto
  from Cons.IH [OF this Cons.prems(2)] apply_patch_delta [OF a, of k] show ?case
    by (auto simp: wrote_def)
qed simp

text \<open>
  The delta that a cycle hands out for persisting carries only what the hooks of that cycle wrote: each of
  its traits is in the patch of a hook that ran and may produce it. Traits that others wrote to the task
  while the hooks ran are not in it and so are never put back to their old value.
\<close>

lemma delta_only_own_writes:
  assumes "DispatchAndAdvance w t meta sm = (dr, None)" "payload_at (dr_payload_delta dr) k \<noteq> None"
  shows "wrote (cycle_hooks meta t) (dr_results dr) k"
proof -
  obtain e where e: "t_exec t = Some e" using assms(1) by (cases "t_exec t") (auto simp: DispatchAndAdvance_def)
  obtain rs er where d: "dispatchHooks w t (cycle_hooks meta t) (IsReadonly t) = (rs, er)" by fastforce
  have er: "er = None" using assms(1) e d
    by (cases er) (auto simp: DispatchAndAdvance_def cycle_hooks_def [symmetric] Let_def)
  then obtain payload delta where m: "merge_results (cycle_hooks meta t) rs [] (ex_payload e, Raw (JObj [])) = Inr (payload, delta)"
    and r: "dr_results dr = rs" "dr_payload_delta dr = delta"
    using assms(1) e d
    by (auto simp: DispatchAndAdvance_def cycle_hooks_def [symmetric] Let_def split: sum.splits prod.splits)
  show ?thesis using merge_results_delta [OF m, of k] assms(2) r by (simp add: blank_raw_def payload_at_blank)
qed

section \<open>A sample cycle\<close>

definition script_hook :: hook where
  "script_hook =
     \<lparr>hk_id = ''lint'', hk_name = ''lint'', hk_kind = [], hk_consumes = [], hk_produces = Some [''artifact''],
      hk_agent = [], hk_kit = [], hk_command = ''make lint''\<rparr>"

definition agent_hook :: hook where
  "agent_hook =
     \<lparr>hk_id = ''work'', hk_name = ''work'', hk_kind = ''agent'', hk_consumes = [], hk_produces = None,
      hk_agent = ''claude-code'', hk_kit = [], hk_command = []\<rparr>"

definition hooked_task :: task where
  "hooked_task = (sample_exec Executing RawEmpty)\<lparr>t_id := ''task-0001'',
     t_exec := map_option (\<lambda>e. e\<lparr>ex_instructions := [instruction_zero\<lparr>in_agent := ''claude-code''\<rparr>]\<rparr>)
       (t_exec (sample_exec Executing RawEmpty))\<rparr>"

definition sample_behaviors :: "behaviors option" where
  "sample_behaviors = Some [(taskBehaviorName hooked_task, \<lparr>bh_hooks = [script_hook, agent_hook]\<rparr>)]"

text \<open>Every job ends well, with a report as its output.\<close>

definition quiet_wiring :: dispatch_wiring where
  "quiet_wiring =
     \<lparr>dw_execute = (\<lambda>ev. Some (hk_id (ev_hook ev))),
      dw_wait = (\<lambda>j. Some \<lparr>jc_job_id = j, jc_output = (if j = ''lint'' then ''out'' else []), jc_exit_code = 0\<rparr>),
      dw_parse_patch = (\<lambda>_. Raw (JObj [(''artifact'', JObj [(''report'', JStr ''ok'')])])), dw_actions = None\<rparr>"

section \<open>Replaying a hook\<close>

lemma Evaluate_script:
  assumes "t_exec t = Some e" "t_status t = Executing" "ex_instructions e \<noteq> []"
    and "agent = in_agent (last (ex_instructions e))" "agent \<in> {''claude-code'', ''codex'', ''opencode''}"
    and "hk_kind h \<noteq> ''agent''" "hk_consumes h = []"
  shows "map hk_id (Evaluate t [h]) = [hk_id h, ''agent:'' @ agent]"
  using assms
  by (auto simp: Evaluate_def Let_def hook_matches_def hasAllTraits_def synthesizeAgentHook_def harnessTypeForAgent_def)

text \<open>
  C38. A replay of a script hook also runs the agent. When a hook that is not an agent hook is replayed on a task
  whose active instruction names a known agent, the replay fires two hooks, the named one and a
  synthesized agent hook, even where the behavior declares an agent hook of its own.
\<close>

theorem replay_also_runs_agent:
  assumes "t_exec t = Some e" "t_status t = Executing" "ex_instructions e \<noteq> []"
    and "agent = in_agent (last (ex_instructions e))" "agent \<in> {''claude-code'', ''codex'', ''opencode''}"
    and "lookupBehavior meta t = Some b" "find (\<lambda>h. hk_id h = hookID) (bh_hooks b) = Some h"
    and "hk_kind h \<noteq> ''agent''" "hk_consumes h = []"
    and "ReplayHook w t meta sm hookID = Inr rr"
  shows "map fe_handler_id (rr_fired_events rr) = [hookID, ''agent:'' @ agent]"
proof -
  have ev: "map hk_id (Evaluate t [h]) = [hk_id h, ''agent:'' @ agent]"
    using Evaluate_script [OF assms(1-5,8,9)] .
  have id: "hk_id h = hookID" using find_SomeD [OF assms(7)] by simp
  obtain rs er where d: "dispatchHooks w t (Evaluate t [h]) (IsReadonly t) = (rs, er)" by fastforce
  have "er = None" "map fe_handler_id (rr_fired_events rr) = map hr_id rs"
    using assms(6,7,10) d
    by (auto simp: ReplayHook_def Let_def fired_ids simp del: map_map split: if_splits option.splits prod.splits)
  then show ?thesis using dispatch_ids [of w t "Evaluate t [h]" "IsReadonly t" rs] d ev id by simp
qed

theorem replay_also_runs_agent_witness:
  "\<exists>rr. ReplayHook quiet_wiring hooked_task sample_behaviors NewExecutionMachine ''lint'' = Inr rr
     \<and> map fe_handler_id (rr_fired_events rr) = [''lint'', ''agent:claude-code'']
     \<and> map hk_id (cycle_hooks sample_behaviors hooked_task) = [''lint'', ''work'']"
proof -
  have "is_ok (ReplayHook quiet_wiring hooked_task sample_behaviors NewExecutionMachine ''lint'')" by code_simp
  then obtain rr where rr: "ReplayHook quiet_wiring hooked_task sample_behaviors NewExecutionMachine ''lint'' = Inr rr"
    by (auto simp: is_ok_iff)
  obtain e where e: "t_exec hooked_task = Some e" "ex_instructions e = [instruction_zero\<lparr>in_agent := ''claude-code''\<rparr>]"
    by (simp add: hooked_task_def sample_exec_def sample_card_def)
  have "map fe_handler_id (rr_fired_events rr) = [''lint'', ''agent:'' @ ''claude-code'']"
    by (rule replay_also_runs_agent [OF e(1) _ _ _ _ _ _ _ _ rr, where b = "\<lparr>bh_hooks = [script_hook, agent_hook]\<rparr>" and h = script_hook])
      (use e in \<open>simp_all add: lookupBehavior_def sample_behaviors_def taskBehaviorName_def script_hook_def
        hooked_task_def sample_exec_def sample_card_def\<close>)
  moreover have "map hk_id (cycle_hooks sample_behaviors hooked_task) = [''lint'', ''work'']" by code_simp
  ultimately show ?thesis using rr by simp
qed

end
