(* ===== verification/Payload_Properties.thy ===== *)
theory Payload_Properties
  imports Payload_Facts
begin

text \<open>The properties of payload merges and of the awaiting trait.\<close>

section \<open>Sessions\<close>

text \<open>A payload with the sessions of the given slots.\<close>

definition session_item :: "string \<Rightarrow> string \<Rightarrow> json" where
  "session_item name sid = JObj [(''type'', JStr ''hook''), (''name'', JStr name), (''id'', JStr sid)]"

definition session_payload :: "json list \<Rightarrow> raw_message" where
  "session_payload items =
     Raw (JObj [(''artifact'', JObj [(''claude_code'', JObj [(''sessions'', JArr items)])])])"

text \<open>
  C34. No agent session is lost in a merge. Whatever the patch of a handler says, as long as on the way to the
  sessions (\<open>artifact\<close>, \<open>claude_code\<close>, \<open>sessions\<close>) each part of the payload and of the patch is absent or well
  formed, the merged payload has every session slot of either, with the patch's session where both have one, and
  just those of the payload when the handler may not write artifacts. So of two hooks that each wrote from a stale
  read neither drops the session of the other, and a patch without sessions drops none.
\<close>

theorem sessions_never_lost:
  assumes "sessions_of base = Some es" "sessions_of patch = Some ps"
    and "MergePayloadPatch base patch handlerID allowed = Inr merged"
  shows "\<exists>items. sessions_of merged = Some items
    \<and> sessions_map items = (if blocked allowed ''artifact'' then sessions_map es else sessions_map es ++ sessions_map ps)"
proof -
  note at = merge_patch_at [OF assms(3), of "''artifact''"]
  let ?m = "case (payload_at base ''artifact'', payload_at patch ''artifact'') of (Some x, Some y) \<Rightarrow> mergeArtifactPatch x y | _ \<Rightarrow> None"
  show ?thesis
  proof (cases "payload_at patch ''artifact'' = None \<or> blocked allowed ''artifact''")
    case True
    then have "payload_at merged ''artifact'' = payload_at base ''artifact''" using at by (auto split: option.splits)
    moreover have "ps = []" if "payload_at patch ''artifact'' = None"
      using assms(2) that by (simp add: sessions_of_def below_def member_of_def items_of_def)
    ultimately show ?thesis using assms(1) True by (auto simp: sessions_of_def)
  next
    case False
    then obtain v where v: "payload_at patch ''artifact'' = Some v" by auto
    have "mergeArtifactPatch x v \<noteq> None" if "payload_at base ''artifact'' = Some x" for x
      using assms(1,2) that v
      by (auto simp: sessions_of_def below_def member_of_def mergeArtifactPatch_def merge_with_subkey_def bind_eq_Some_conv)
    then have "payload_at merged ''artifact'' = pick ?m (payload_at base ''artifact'') (payload_at patch ''artifact'')"
      using at v False by (auto simp: merged_value_def TraitMergeMode_def merge_exclusive_def pick_def split: option.splits)
    then show ?thesis
      using artifact_union [unfolded unions_def, rule_format, OF assms(1,2) [unfolded sessions_of_def]] False
      by (simp add: sessions_of_def)
  qed
qed

text \<open>A second hook adds its session; a patch that only adds a report leaves the session alone.\<close>

theorem sessions_never_lost_witness:
  "(\<exists>merged items. MergePayloadPatch (session_payload [session_item ''a'' ''1'']) (session_payload [session_item ''b'' ''2''])
       ''h'' None = Inr merged
     \<and> sessions_of merged = Some items \<and> {(''hook'', ''a''), (''hook'', ''b'')} \<subseteq> dom (sessions_map items))
   \<and> (\<exists>merged items. MergePayloadPatch (session_payload [session_item ''a'' ''1''])
       (Raw (JObj [(''artifact'', JObj [(''report'', JStr ''ok'')])])) ''h'' None = Inr merged
     \<and> sessions_of merged = Some items \<and> (''hook'', ''a'') \<in> dom (sessions_map items))"
proof -
  have k: "keyOf (session_item n i) = Some (''hook'', n)" for n i
    by (simp add: keyOf_def session_item_def session_fields_def unmarshal_struct_def decode_struct_def find_field_def dec_string_def)
  have si: "sessions_of (session_payload [session_item n i]) = Some [session_item n i]" for n i
    by (simp add: sessions_of_def below_def member_of_def items_of_def session_payload_def payload_at_def unmarshal_map_def
        unmarshal_object_def go_map_def k)
  let ?report = "Raw (JObj [(''artifact'', JObj [(''report'', JStr ''ok'')])])"
  have rep: "sessions_of ?report = Some []"
    by (simp add: sessions_of_def below_def member_of_def items_of_def payload_at_def unmarshal_map_def unmarshal_object_def go_map_def)
  obtain m1 where m1: "MergePayloadPatch (session_payload [session_item ''a'' ''1'']) (session_payload [session_item ''b'' ''2'']) ''h'' None = Inr m1"
    by (simp add: MergePayloadPatch_def session_payload_def blank_raw_def RejectReservedPayloadKeys_def unmarshal_map_def go_map_def)
  obtain m2 where m2: "MergePayloadPatch (session_payload [session_item ''a'' ''1'']) ?report ''h'' None = Inr m2"
    by (simp add: MergePayloadPatch_def session_payload_def blank_raw_def RejectReservedPayloadKeys_def unmarshal_map_def go_map_def)
  have b: "\<not> blocked None ''artifact''" by (simp add: blocked_def)
  obtain i1 where "sessions_of m1 = Some i1" "{(''hook'', ''a''), (''hook'', ''b'')} \<subseteq> dom (sessions_map i1)"
    using sessions_never_lost [OF si si m1] b by (auto simp: sessions_map_def k dom_def)
  moreover obtain i2 where "sessions_of m2 = Some i2" "(''hook'', ''a'') \<in> dom (sessions_map i2)"
    using sessions_never_lost [OF si rep m2] b by (auto simp: sessions_map_def k dom_def)
  ultimately show ?thesis using m1 m2 by blast
qed

section \<open>The awaiting trait\<close>

lemma strict_lenient: "decode_members fs ms r = Some r' \<Longrightarrow> decode_lenient fs ms r = r'"
  by (induction fs ms r rule: decode_members.induct) (auto split: option.splits)

lemma awaiting_marshal:
  "unmarshal_struct awaiting_fields (Raw (marshal_awaiting ap)) awaiting_zero = Some ap"
  by (cases ap)
    (simp add: marshal_awaiting_def unmarshal_struct_def decode_struct_def awaiting_fields_def awaiting_zero_def
      find_field_def dec_string_def)

lemma strict_lenient_awaiting:
  "unmarshal_struct awaiting_fields (Raw v) awaiting_zero = Some ap \<Longrightarrow> lenient_awaiting v = ap"
  by (cases v) (simp_all add: lenient_awaiting_def unmarshal_struct_def decode_struct_def strict_lenient)

lemmas lenient_marshal = strict_lenient_awaiting [OF awaiting_marshal]

lemma awaiting_not_null: "marshal_awaiting ap \<noteq> JNull"
  by (simp add: marshal_awaiting_def)

lemma GetAwaiting_at:
  "GetAwaitingPayload r = (case payload_at r ''awaiting'' of None \<Rightarrow> awaiting_zero | Some v \<Rightarrow> lenient_awaiting v)"
  by (auto simp: GetAwaitingPayload_def payload_at_def unmarshal_map_def split: option.splits)

text \<open>Writing the trait into a decoded payload.\<close>

definition with_awaiting :: "awaiting_payload \<Rightarrow> gomap \<Rightarrow> raw_message" where
  "with_awaiting ap m = Raw (marshal_map (AList.update ''awaiting'' (marshal_awaiting ap) m))"

lemma with_awaiting_at:
  assumes "distinct (map fst m)"
  shows "payload_at (with_awaiting ap m) k = (if k = ''awaiting'' then Some (marshal_awaiting ap) else map_of m k)"
    "GetAwaitingPayload (with_awaiting ap m) = ap"
proof -
  show at: "payload_at (with_awaiting ap m) k = (if k = ''awaiting'' then Some (marshal_awaiting ap) else map_of m k)" for k
    using assms by (simp add: with_awaiting_def distinct_update update_conv')
  show "GetAwaitingPayload (with_awaiting ap m) = ap" by (simp add: GetAwaiting_at at lenient_marshal)
qed

lemma ClearPendingAnswer_at:
  assumes "distinct (map fst m)" "aw_pending_answer ap \<noteq> []"
  obtains m' where "ClearPendingAnswer (with_awaiting ap m) = with_awaiting (ap\<lparr>aw_pending_answer := [], aw_pending_answer_actor := []\<rparr>) m'"
    "distinct (map fst m')" "\<And>k. map_of m' k = payload_at (with_awaiting ap m) k"
proof -
  let ?p = "with_awaiting ap m"
  obtain m' where m': "unmarshal_map ?p = Some m'" "distinct (map fst m')"
    by (simp add: with_awaiting_def unmarshal_map_def marshal_map_def distinct_go_map)
  have at: "map_of m' k = payload_at ?p k" for k using m'(1) by (simp add: payload_at_def)
  have "?p \<noteq> RawEmpty" by (simp add: with_awaiting_def)
  then have "ClearPendingAnswer ?p = with_awaiting (ap\<lparr>aw_pending_answer := [], aw_pending_answer_actor := []\<rparr>) m'"
    using m'(1) at [of "''awaiting''"] with_awaiting_at(1) [OF assms(1), of ap "''awaiting''"] assms(2)
    by (simp add: ClearPendingAnswer_def awaiting_marshal awaiting_not_null with_awaiting_def)
  then show thesis using that m'(2) at by blast
qed

text \<open>
  C35. An answer parked in a payload is delivered once. After \<open>SetPendingAnswer\<close> the trait carries the answer
  and who gave it and still the question that was there; after \<open>ClearPendingAnswer\<close> only the question is
  left; \<open>StripAwaitingTrait\<close> removes the trait. Every other trait of the payload stays as it was.
\<close>

theorem pending_answer_roundtrip:
  assumes "payload = RawEmpty \<or> (\<exists>ms. payload = Raw (JObj ms))" "answer \<noteq> []"
  shows "\<exists>parked. SetPendingAnswer payload answer actor = Some parked
    \<and> GetAwaitingPayload parked =
        (GetAwaitingPayload payload)\<lparr>aw_pending_answer := answer, aw_pending_answer_actor := actor\<rparr>
    \<and> GetAwaitingPayload (ClearPendingAnswer parked) =
        (GetAwaitingPayload payload)\<lparr>aw_pending_answer := [], aw_pending_answer_actor := []\<rparr>
    \<and> payload_at (StripAwaitingTrait parked) ''awaiting'' = None
    \<and> (k \<noteq> ''awaiting'' \<longrightarrow> payload_at parked k = payload_at payload k
         \<and> payload_at (ClearPendingAnswer parked) k = payload_at payload k
         \<and> payload_at (StripAwaitingTrait parked) k = payload_at payload k)"
proof -
  obtain m where m: "(if payload = RawEmpty then Some [] else unmarshal_map payload) = Some m"
    using assms(1) by (auto simp: unmarshal_map_def)
  have d: "distinct (map fst m)" using m by (auto dest: unmarshal_map_distinct split: if_splits)
  have at: "map_of m k = payload_at payload k" for k
    using m by (auto simp: payload_at_def unmarshal_map_def split: if_splits)
  let ?ap = "(GetAwaitingPayload payload)\<lparr>aw_pending_answer := answer, aw_pending_answer_actor := actor\<rparr>"
  let ?p = "with_awaiting ?ap m"
  have "payload \<noteq> Raw JNull" using assms(1) by auto
  then have set: "SetPendingAnswer payload answer actor = Some ?p"
    using m at by (simp add: SetPendingAnswer_def GetAwaiting_at with_awaiting_def)
  obtain m' where c: "ClearPendingAnswer ?p = with_awaiting (?ap\<lparr>aw_pending_answer := [], aw_pending_answer_actor := []\<rparr>) m'"
      "distinct (map fst m')" "\<And>k. map_of m' k = payload_at ?p k"
    using ClearPendingAnswer_at [OF d, of ?ap] assms(2) by auto
  obtain m2 where m2: "unmarshal_map ?p = Some m2" "distinct (map fst m2)"
    by (simp add: with_awaiting_def unmarshal_map_def marshal_map_def distinct_go_map)
  have at2: "map_of m2 k = payload_at ?p k" for k using m2(1) by (simp add: payload_at_def)
  have strip: "payload_at (StripAwaitingTrait ?p) k = (if k = ''awaiting'' then None else payload_at ?p k)" for k
    using m2 at2 with_awaiting_at(1) [OF d, of ?ap] distinct_delete [OF m2(2), of "''awaiting''"]
    by (simp add: StripAwaitingTrait_def with_awaiting_def [of ?ap] delete_conv')
  show ?thesis
    using set with_awaiting_at [OF d, of ?ap] with_awaiting_at [OF c(2)] c(1,3) strip at
    by (intro exI [of _ ?p]) simp
qed

theorem pending_answer_roundtrip_witness:
  "\<exists>parked. SetPendingAnswer RawEmpty ''yes'' ''user'' = Some parked
     \<and> aw_pending_answer (GetAwaitingPayload parked) = ''yes''
     \<and> aw_pending_answer (GetAwaitingPayload (ClearPendingAnswer parked)) = []"
  using pending_answer_roundtrip [of RawEmpty "''yes''" "''user''" "''x''"] by auto

end
