(* ===== verification/Dispatch_Properties.thy ===== *)
theory Dispatch_Properties
  imports Workflow_Facts Hook_Properties Payload_Properties
begin

text \<open>
  Properties of the dispatch loop: it ends by itself, it keeps what others wrote to the task while its hooks ran,
  and what a failed cycle writes over.
\<close>

section \<open>Payloads key by key\<close>

definition object_payload :: "raw_message \<Rightarrow> bool" where
  "object_payload p = (case p of RawEmpty \<Rightarrow> True | Raw (JObj _) \<Rightarrow> True | _ \<Rightarrow> False)"

lemma object_payloadE:
  assumes "object_payload p"
  obtains "p = RawEmpty" | ms where "p = Raw (JObj ms)"
  using assms by (cases p) (auto simp: object_payload_def split: json.splits)

lemma object_marshal [simp]: "object_payload (Raw (marshal_map m))"
  by (simp add: object_payload_def marshal_map_def)

lemma object_unmarshal: "object_payload p \<Longrightarrow> p \<noteq> RawEmpty \<Longrightarrow> \<exists>m. unmarshal_map p = Some m"
  by (auto simp: unmarshal_map_def elim!: object_payloadE)

lemma ClearPendingAnswer_object: "object_payload p \<Longrightarrow> object_payload (ClearPendingAnswer p)"
  by (auto simp: ClearPendingAnswer_def Let_def split: option.splits)

lemma StripAwaitingTrait_object: "object_payload p \<Longrightarrow> object_payload (StripAwaitingTrait p)"
  by (auto simp: StripAwaitingTrait_def split: option.splits)

lemma ClearPendingAnswer_other:
  assumes "k \<noteq> ''awaiting''"
  shows "payload_at (ClearPendingAnswer p) k = payload_at p k"
  using assms
  by (cases "p = RawEmpty") (auto simp: ClearPendingAnswer_def payload_at_marshal distinct_update unmarshal_map_distinct update_conv'
      payload_at_def [of p] split: option.splits)

lemma StripAwaitingTrait_at: "payload_at (StripAwaitingTrait p) k = (if k = ''awaiting'' then None else payload_at p k)"
  by (cases "p = RawEmpty") (auto simp: StripAwaitingTrait_def payload_at_marshal distinct_delete unmarshal_map_distinct delete_conv'
      payload_at_def [of p] split: option.splits)

lemma MergePayload_object:
  assumes "object_payload base" "object_payload upd"
  obtains r where "MergePayload base upd = Inr r"
proof (cases "blank_raw base \<or> blank_raw upd")
  case True
  then show thesis using that by (cases "blank_raw upd") (auto simp: MergePayload_def)
next
  case False
  then obtain b u where "unmarshal_map base = Some b" "unmarshal_map upd = Some u"
    using object_unmarshal assms by (metis blank_raw_def)
  then show thesis using that False by (auto simp: MergePayload_def)
qed

lemma fold_update_key:
  "map_of (fold update_key kvs m) k = map_of m k" if "k \<notin> set (map fst kvs)"
  using that by (induction kvs arbitrary: m) (auto simp: update_key_def update_conv' split: prod.splits)

lemma distinct_fold_update_key: "distinct (map fst m) \<Longrightarrow> distinct (map fst (fold update_key kvs m))"
  by (induction kvs arbitrary: m) (auto simp: update_key_def distinct_update split: prod.splits)

lemma MergePayload_other:
  assumes "MergePayload base upd = Inr r" "payload_at upd k = None"
  shows "payload_at r k = payload_at base k"
proof (cases "blank_raw base \<or> blank_raw upd")
  case True
  then show ?thesis using assms by (auto simp: MergePayload_def split: if_splits)
next
  case False
  then obtain b u where m: "unmarshal_map base = Some b" "unmarshal_map upd = Some u"
      "r = Raw (marshal_map (fold update_key u b))"
    using assms(1) by (auto simp: MergePayload_def split: option.splits)
  have "k \<notin> set (map fst u)" using assms(2) m(2) by (simp add: payload_at_def map_of_eq_None_iff)
  then show ?thesis
    using m unmarshal_map_distinct [OF m(1)] by (simp add: distinct_fold_update_key fold_update_key payload_at_def [of base])
qed

section \<open>The delta of a cycle is an object\<close>

lemma MergePayloadPatch_object: "MergePayloadPatch base patch h allowed = Inr r \<Longrightarrow> object_payload base \<Longrightarrow> object_payload r"
  by (auto simp: MergePayloadPatch_def object_payload_def [of "Raw (JObj [])"] split: if_splits option.splits)

lemma apply_patch_object:
  "apply_patch hooks hr (payload, delta) = (payload', delta') \<Longrightarrow> object_payload delta \<Longrightarrow> object_payload delta'"
  by (auto simp: apply_patch_def split: if_splits sum.splits dest: MergePayloadPatch_object)

lemma merge_results_object:
  "merge_results hooks rs ws (payload, delta) = Inr (payload', delta') \<Longrightarrow> object_payload delta \<Longrightarrow> object_payload delta'"
proof (induction rs arbitrary: ws payload delta)
  case (Cons hr rs)
  obtain p1 d1 where a: "apply_patch hooks hr (payload, delta) = (p1, d1)" by fastforce
  with Cons.prems(1) obtain ws' where "merge_results hooks rs ws' (p1, d1) = Inr (payload', delta')" by auto
  then show ?case using Cons.IH apply_patch_object [OF a Cons.prems(2)] by blast
qed simp

lemma cycle_delta_object:
  assumes "DispatchAndAdvance w t meta sm = (dr, None)"
  shows "object_payload (dr_payload_delta dr)"
proof -
  have "object_payload (Raw (JObj []))" by (simp add: object_payload_def)
  then show ?thesis
    using assms merge_results_object
    by (fastforce simp: DispatchAndAdvance_def Let_def split: option.splits prod.splits sum.splits)
qed

section \<open>The status of a cycle\<close>

lemma cycle_status:
  assumes "DispatchAndAdvance w t meta NewExecutionMachine = (dr, err)" "dr_new_status dr = Some s"
  shows "s \<in> {Done, Aborted}"
proof -
  have adv: "t_status (ao_task out) \<in> {Done, Aborted}" if "AdvanceFull NewExecutionMachine x = Some out" "t_exec x = Some e" for x out e
    using that advance_only_executing [of x] advance_executing [of x e]
    by (cases "t_status x = Executing") (auto simp: Let_def split: if_splits)
  show ?thesis using assms
    by (auto simp: DispatchAndAdvance_def Let_def fired_only_def evaluateAndAdvance_def with_payload_def
        split: option.splits prod.splits sum.splits dest!: adv)
qed

lemma one_cycle:
  assumes "de_machine de = NewExecutionMachine"
  shows "fst (dispatch_cycle s cx de t st) = None"
proof -
  obtain dr err where d: "DispatchAndAdvance (cycle_wiring de (de_during de st)) t (de_meta de) (de_machine de) = (dr, err)"
    by fastforce
  show ?thesis
  proof (cases "dr_new_status dr")
    case None
    with d show ?thesis by (simp add: dispatch_cycle_def Let_def split: option.splits sum.splits prod.splits if_splits)
  next
    case (Some ns)
    with d cycle_status [of "cycle_wiring de (de_during de st)" t "de_meta de" dr err ns] assms have "ns = Done \<or> ns = Aborted" by simp
    with d Some show ?thesis
      by (auto simp: dispatch_cycle_def Let_def split: option.splits sum.splits prod.splits if_splits)
  qed
qed

section \<open>Termination\<close>

text \<open>
  C6. The dispatch loop of an execution task ends by itself. Whatever the hooks do and whatever others do to the
  tables meanwhile, the first cycle ends the loop, so the limit on the number of cycles never cuts a run short
  and the loop gives the result of that one cycle.
\<close>

theorem dispatch_loop_terminates:
  assumes "de_machine de = NewExecutionMachine"
  shows "\<exists>st'. dispatch_cycle s (labelled (nat_text n) cx) de t st = (None, st')
    \<and> dispatch_cycles (Suc n) s cx de t st = (1, st')"
  using one_cycle [OF assms, of s "labelled (nat_text n) cx" t st] by (auto split: prod.splits)

section \<open>Sample runs\<close>

definition hooked_store :: orch_store where
  "hooked_store = \<lparr>st_tasks = [hooked_task], st_jobs = [], st_requests = [], st_barriers = [], st_actions = [], st_op_results = []\<rparr>"

definition late_report :: raw_message where
  "late_report = Raw (JObj [(''report'', JStr ''late'')])"

text \<open>While the hooks run, a report is written to the task and its status is set.\<close>

definition report_during :: "task_status \<Rightarrow> orch_store \<Rightarrow> orch_store" where
  "report_during s st = st\<lparr>st_tasks := map (\<lambda>t. with_payload late_report (t\<lparr>t_status := s\<rparr>)) (st_tasks st)\<rparr>"

definition sample_env :: "dispatch_wiring \<Rightarrow> task_status \<Rightarrow> dispatch_env" where
  "sample_env w s =
     \<lparr>de_wiring = w, de_meta = sample_behaviors, de_machine = NewExecutionMachine, de_shutdown = False,
      de_message = (\<lambda>_. ''hook failed''), de_during = report_during s, de_between = (\<lambda>st. st)\<rparr>"

definition failing_wiring :: dispatch_wiring where
  "failing_wiring = quiet_wiring\<lparr>dw_wait := (\<lambda>j. Some \<lparr>jc_job_id = j, jc_output = [], jc_exit_code = 1\<rparr>)\<rparr>"

theorem dispatch_loop_terminates_witness:
  "fst (dispatch_cycles maxCycles idle_workflow sample_ctx (sample_env quiet_wiring Executing) hooked_task hooked_store) = 1"
  using dispatch_loop_terminates [of "sample_env quiet_wiring Executing" idle_workflow 9 sample_ctx hooked_task hooked_store]
  by (auto simp: sample_env_def maxCycles_def eval_nat_numeral)

section \<open>What others write while the hooks run\<close>

definition payload_of :: "task \<Rightarrow> raw_message option" where
  "payload_of r = map_option ex_payload (t_exec r)"

lemma payload_of_simps [simp]:
  "payload_of (write_row now ws t r) = payload_of t" "payload_of (with_counts st r) = payload_of r"
  "payload_of (t\<lparr>t_status := ns\<rparr>) = payload_of t"
  by (simp_all add: payload_of_def)

lemma payload_of_view: "row_view r' = row_view r \<Longrightarrow> payload_of r' = payload_of r \<and> t_status r' = t_status r"
  using view_exec [of r' r] view_status [of r' r] by (simp add: payload_of_def)

lemma merge_delta_ok:
  assumes "t_exec latest = Some e" "object_payload (ex_payload e)" "object_payload delta"
  obtains pl where "merge_delta delta latest = Inr (latest\<lparr>t_exec := Some (e\<lparr>ex_payload := pl\<rparr>)\<rparr>)"
    "\<And>k. k \<noteq> ''awaiting'' \<Longrightarrow> payload_at delta k = None \<Longrightarrow> payload_at pl k = payload_at (ex_payload e) k"
proof (cases "delta = RawEmpty")
  case True
  then show thesis using that assms ClearPendingAnswer_other by (simp add: merge_delta_def)
next
  case False
  obtain pl where pl: "MergePayload (ClearPendingAnswer (ex_payload e)) delta = Inr pl"
    using MergePayload_object [OF ClearPendingAnswer_object [OF assms(2)] assms(3)] .
  show thesis
  proof (rule that [of pl])
    show "merge_delta delta latest = Inr (latest\<lparr>t_exec := Some (e\<lparr>ex_payload := pl\<rparr>)\<rparr>)"
      using assms(1) False pl by (simp add: merge_delta_def)
  qed (simp add: MergePayload_other [OF pl] ClearPendingAnswer_other)
qed

lemma persist_delta_ok:
  assumes r: "row_of tid st = Some r" and e: "t_exec r = Some e" "task_wf r" "object_payload (ex_payload e)"
    and d: "object_payload delta"
  obtains p st' ws pl where "persist_delta cx tid delta st = Inr (p, st')" "row_of tid st' = Some (write_row (cx_now cx) ws p r)"
    "t_id p = tid" "t_status p = t_status r" "payload_of p = Some pl"
    "\<And>k. k \<noteq> ''awaiting'' \<Longrightarrow> payload_at delta k = None \<Longrightarrow> payload_at pl k = payload_at (ex_payload e) k"
proof -
  let ?l = "with_counts st r"
  obtain pl where pl: "merge_delta delta ?l = Inr (?l\<lparr>t_exec := Some (e\<lparr>ex_payload := pl\<rparr>)\<rparr>)"
    "\<And>k. k \<noteq> ''awaiting'' \<Longrightarrow> payload_at delta k = None \<Longrightarrow> payload_at pl k = payload_at (ex_payload e) k"
    using merge_delta_ok [of ?l e delta] e d by auto
  let ?p = "?l\<lparr>t_exec := Some (e\<lparr>ex_payload := pl\<rparr>)\<rparr>"
  have id: "t_id r = tid" using r by (auto simp: row_of_def dest: find_SomeD)
  have "is_ok (validateTaskTypeConsistency ?p)"
    using e by (auto simp: task_wf_def validateTaskTypeConsistency_def split: task_type.splits if_splits)
  then obtain st' where u: "tx_UpdateTask cx ?p st = Inr st'"
    using update_ok [of ?p st r cx] r id e(2) by (auto simp: task_wf_def)
  obtain ws where "row_of tid st' = Some (write_row (cx_now cx) ws ?p r)"
    using update_row [OF u] r id by auto
  then show thesis
    using that [of ?p st' ws pl] pl u id read_row [OF r] by (simp add: persist_delta_def payload_of_def)
qed

lemma auto_advance_row:
  assumes "auto_advance cx t ns pl st = Inr st'" "row_of (t_id t) st = Some r"
  obtains ws where "row_of (t_id t) st' = Some (write_row (cx_now cx) ws (t\<lparr>t_status := ns\<rparr>) r)"
proof -
  obtain st1 where u: "tx_UpdateTask cx (t\<lparr>t_status := ns\<rparr>) st = Inr st1" and "st_tasks st' = st_tasks st1"
    using assms(1) by (auto simp: auto_advance_def dest: tx_CreateAction_tasks)
  then show thesis using update_row [OF u] assms(2) that by (auto simp: row_of_def)
qed

text \<open>The row after the second half of a cycle, which ends the task or advances it.\<close>

lemma finalize_row:
  assumes "row_of tid st = Some q"
  obtains r' where "row_of tid (finalizeTerminal s cx x st) = Some r'" "payload_of r' = payload_of q" "t_status r' = t_status q"
  using row_of_same_views [OF finalize_views assms] payload_of_view by metis

lemma cycle_end_row:
  assumes "DispatchAndAdvance (cycle_wiring de (de_during de st)) t (de_meta de) (de_machine de) = (dr, None)"
    and "persist_delta cx (t_id t) (StripAwaitingTrait (dr_payload_delta dr))
           (persistFiredEvents cx (t_id t) (t_status t) (dr_fired_events dr) (de_during de st)) = Inr (p, st2)"
    and "row_of (t_id t) st2 = Some q" "payload_of q = payload_of p" "t_status q = t_status p" "t_id p = t_id t"
    and "\<And>x. de_between de x = x"
  obtains r' where "row_of (t_id t) (snd (dispatch_cycle s cx de t st)) = Some r'" "payload_of r' = payload_of p"
    "if t_status p \<in> {Done, Aborted, Awaiting} then t_status r' = t_status p
     else t_status r' \<in> insert (t_status p) (set_option (dr_new_status dr))"
proof (cases "t_status p \<in> {Done, Aborted, Awaiting} \<or> dr_new_status dr = None")
  case True
  then have "snd (dispatch_cycle s cx de t st) = (if t_status p = Awaiting then st2 else finalizeTerminal s cx p st2)"
    using assms(1,2) by (auto simp: dispatch_cycle_def Let_def)
  then show thesis using that finalize_row [OF assms(3)] assms(3-5) by (metis insertI1)
next
  case False
  then obtain ns where ns: "dr_new_status dr = Some ns" by auto
  let ?adv = "auto_advance cx p ns (dr_action_payload dr) st2"
  have c: "snd (dispatch_cycle s cx de t st) =
      (case ?adv of Inl _ \<Rightarrow> st2 | Inr st4 \<Rightarrow>
         if ns = Done \<or> ns = Aborted then finalizeTerminal s cx (p\<lparr>t_status := ns\<rparr>) st4 else st4)"
    using assms(1,2,7) False ns by (auto simp: dispatch_cycle_def Let_def split: sum.splits)
  show thesis
  proof (cases ?adv)
    case (Inl x)
    then show thesis using that [of q] assms(3-5) c False by auto
  next
    case (Inr st4)
    obtain ws where w: "row_of (t_id t) st4 = Some (write_row (cx_now cx) ws (p\<lparr>t_status := ns\<rparr>) q)"
      using auto_advance_row [OF Inr] assms(3,6) by auto
    show thesis
      using finalize_row [OF w, of s cx "p\<lparr>t_status := ns\<rparr>"] w c Inr ns False that by (auto split: if_splits)
  qed
qed

text \<open>
  C4. A dispatch run keeps what others wrote. When no hook fails and nothing happens between the two
  transactions of the cycle, the row as it was when the hooks had ended keeps every trait of its payload that no
  hook of the cycle wrote, except the awaiting trait; a task that was completed, aborted or put to waiting
  meanwhile keeps that status, and any other task keeps its status or moves where the cycle decided.
\<close>

theorem loop_keeps_concurrent_writes:
  assumes "de_machine de = NewExecutionMachine" "\<And>x. de_between de x = x"
    and "DispatchAndAdvance (cycle_wiring de (de_during de st)) t (de_meta de) NewExecutionMachine = (dr, None)"
    and "row_of (t_id t) (de_during de st) = Some r" "t_exec r = Some e" "task_wf r" "object_payload (ex_payload e)"
  shows "\<exists>r' pl. row_of (t_id t) (runDispatchLoop s cx de t st) = Some r' \<and> payload_of r' = Some pl
    \<and> (\<forall>k. k \<noteq> ''awaiting'' \<and> \<not> wrote (cycle_hooks (de_meta de) t) (dr_results dr) k \<longrightarrow> payload_at pl k = payload_at (ex_payload e) k)
    \<and> (if t_status r \<in> {Done, Aborted, Awaiting} then t_status r' = t_status r
       else t_status r' \<in> insert (t_status r) (set_option (dr_new_status dr)))"
proof -
  let ?cx = "labelled (nat_text 9) cx" and ?delta = "StripAwaitingTrait (dr_payload_delta dr)"
  let ?st1 = "persistFiredEvents ?cx (t_id t) (t_status t) (dr_fired_events dr) (de_during de st)"
  have r: "row_of (t_id t) ?st1 = Some r" using assms(4) by (simp add: row_of_def)
  obtain p st2 ws pl where p: "persist_delta ?cx (t_id t) ?delta ?st1 = Inr (p, st2)"
      "row_of (t_id t) st2 = Some (write_row (cx_now ?cx) ws p r)" "t_id p = t_id t" "t_status p = t_status r" "payload_of p = Some pl"
      "\<And>k. k \<noteq> ''awaiting'' \<Longrightarrow> payload_at ?delta k = None \<Longrightarrow> payload_at pl k = payload_at (ex_payload e) k"
    by (rule persist_delta_ok [OF r assms(5-7) StripAwaitingTrait_object [OF cycle_delta_object [OF assms(3)]], of ?cx]) (rule that)
  have keep: "payload_at pl k = payload_at (ex_payload e) k"
    if "k \<noteq> ''awaiting''" "\<not> wrote (cycle_hooks (de_meta de) t) (dr_results dr) k" for k
    using p(6) [of k] that delta_only_own_writes [OF assms(3), of k] StripAwaitingTrait_at [of "dr_payload_delta dr" k] by auto
  have loop: "runDispatchLoop s cx de t st = snd (dispatch_cycle s ?cx de t st)"
    using one_cycle [OF assms(1), of s ?cx t st] by (auto simp: runDispatchLoop_def maxCycles_def eval_nat_numeral split: prod.splits)
  obtain r' where "row_of (t_id t) (snd (dispatch_cycle s ?cx de t st)) = Some r'" "payload_of r' = payload_of p"
    "if t_status p \<in> {Done, Aborted, Awaiting} then t_status r' = t_status p
     else t_status r' \<in> insert (t_status p) (set_option (dr_new_status dr))"
    using cycle_end_row [OF _ p(1,2) _ _ p(3) assms(2), of s] assms(1,3) by auto
  then show ?thesis unfolding loop p(4) p(5) using keep by blast
qed

theorem loop_keeps_concurrent_writes_witness:
  "\<exists>r' pl. row_of (t_id hooked_task) (runDispatchLoop idle_workflow sample_ctx (sample_env quiet_wiring Aborted) hooked_task hooked_store) = Some r'
     \<and> payload_of r' = Some pl \<and> payload_at pl ''report'' = Some (JStr ''late'') \<and> t_status r' = Aborted"
proof -
  let ?de = "sample_env quiet_wiring Aborted"
  let ?st = "de_during ?de hooked_store"
  let ?d = "DispatchAndAdvance (cycle_wiring ?de ?st) hooked_task (de_meta ?de) NewExecutionMachine"
  let ?r = "hd (st_tasks ?st)"
  have "snd ?d = None" by code_simp
  then obtain dr where d: "?d = (dr, None)" by (cases ?d) simp
  have "\<not> wrote (cycle_hooks (de_meta ?de) hooked_task) (dr_results (fst ?d)) ''report''" by code_simp
  then have w: "\<not> wrote (cycle_hooks (de_meta ?de) hooked_task) (dr_results dr) ''report''" by (simp only: d fst_conv not_False_eq_True)
  have env: "de_machine ?de = NewExecutionMachine" "\<And>x. de_between ?de x = x" by (simp_all add: sample_env_def)
  have r: "row_of (t_id hooked_task) ?st = Some ?r"
    by (simp add: sample_env_def row_of_def report_during_def hooked_store_def with_payload_def)
  have e: "t_exec ?r = Some (the (t_exec ?r))" "task_wf ?r" and p: "ex_payload (the (t_exec ?r)) = late_report" and a: "t_status ?r = Aborted"
    by (simp_all add: sample_env_def report_during_def hooked_store_def with_payload_def hooked_task_def sample_exec_def sample_card_def
        task_wf_def validateTaskTypeConsistency_def type_statuses_def)
  have o: "object_payload (ex_payload (the (t_exec ?r)))" by (simp add: p late_report_def object_payload_def)
  have l: "payload_at late_report ''report'' = Some (JStr ''late'')" by code_simp
  have "''report'' \<noteq> ''awaiting''" by simp
  with loop_keeps_concurrent_writes [OF env d r e o, of idle_workflow sample_ctx, unfolded p a] w
  obtain r' pl where "row_of (t_id hooked_task) (runDispatchLoop idle_workflow sample_ctx ?de hooked_task hooked_store) = Some r'"
      "payload_of r' = Some pl" "payload_at pl ''report'' = payload_at late_report ''report''" "t_status r' = Aborted"
    by (metis insertI1 insertI2)
  then show ?thesis using l by (metis (no_types))
qed

section \<open>A failed cycle\<close>

text \<open>The tables when the abort of a failed cycle is written.\<close>

definition before_abort :: "request_ctx \<Rightarrow> dispatch_env \<Rightarrow> task \<Rightarrow> dispatch_result \<Rightarrow> dispatch_error \<Rightarrow> orch_store \<Rightarrow> orch_store" where
  "before_abort cx de t dr err st =
     (let fired = persistFiredEvents cx (t_id t) (t_status t) (dr_fired_events dr) (de_during de st) in
      if de_shutdown de then fired else recordDispatchError cx (t_id t) (t_status t) (de_message de (Some err)) [] fired)"

lemma before_abort_tasks [simp]: "st_tasks (before_abort cx de t dr err st) = st_tasks (de_during de st)"
  by (simp add: before_abort_def Let_def)

text \<open>
  C37. A failed cycle puts the snapshot back. When a hook of a cycle fails and the abort is written, the row ends
  as aborted with the payload that the task had before the hooks ran, whatever status and payload the row had
  when they ended: a report written meanwhile is lost, and a task completed meanwhile turns into an aborted one.
\<close>

theorem failed_cycle_restores_snapshot:
  assumes "DispatchAndAdvance (cycle_wiring de (de_during de st)) t (de_meta de) (de_machine de) = (dr, Some err)" "err \<noteq> PanicShortID"
    and "row_of (t_id t) (de_during de st) = Some r"
    and "abort_tx cx (de_shutdown de) (de_message de (Some err)) t (before_abort cx de t dr err st) = Inr st'"
  shows "\<exists>r'. row_of (t_id t) (snd (dispatch_cycle s cx de t st)) = Some r' \<and> t_status r' = Aborted \<and> payload_of r' = payload_of t"
proof -
  let ?t = "t\<lparr>t_status := Aborted\<rparr>"
  have c: "snd (dispatch_cycle s cx de t st) = finalizeTerminal s cx ?t st'"
    using assms by (simp add: dispatch_cycle_def Let_def abortOnDispatchError_def before_abort_def)
  obtain st1 where u: "tx_UpdateTask cx ?t (before_abort cx de t dr err st) = Inr st1" "st_tasks st' = st_tasks st1"
    using assms(4) by (auto simp: abort_tx_def dest: tx_CreateAction_tasks)
  obtain ws where w: "row_of (t_id t) st' = Some (write_row (cx_now cx) ws ?t r)"
    using update_row [OF u(1), of r] u(2) assms(3) by (auto simp: row_of_def)
  obtain r' where "row_of (t_id t) (finalizeTerminal s cx ?t st') = Some r'"
      "payload_of r' = payload_of (write_row (cx_now cx) ws ?t r)" "t_status r' = t_status (write_row (cx_now cx) ws ?t r)"
    using finalize_row [OF w] .
  then show ?thesis by (simp add: c)
qed

theorem failed_cycle_restores_snapshot_witness:
  "\<exists>r'. row_of (t_id hooked_task) (snd (dispatch_cycle idle_workflow sample_ctx (sample_env failing_wiring Done) hooked_task hooked_store)) = Some r'
     \<and> t_status r' = Aborted \<and> payload_of r' = Some RawEmpty"
proof -
  let ?de = "sample_env failing_wiring Done"
  let ?st = "de_during ?de hooked_store"
  let ?d = "DispatchAndAdvance (cycle_wiring ?de ?st) hooked_task (de_meta ?de) (de_machine ?de)"
  have "snd ?d = Some (HookFailed ''lint'' 1)" by code_simp
  then obtain dr where d: "?d = (dr, Some (HookFailed ''lint'' 1))" by (cases ?d) simp
  let ?tx = "\<lambda>dr. abort_tx sample_ctx (de_shutdown ?de) (de_message ?de (Some (HookFailed ''lint'' 1))) hooked_task
    (before_abort sample_ctx ?de hooked_task dr (HookFailed ''lint'' 1) hooked_store)"
  have "is_ok (?tx (fst ?d))" by code_simp
  then obtain st' where tx: "?tx dr = Inr st'" by (simp only: d fst_conv) (auto simp: is_ok_def split: sum.splits)
  have r: "row_of (t_id hooked_task) ?st = Some (hd (st_tasks ?st))"
    by (simp add: sample_env_def row_of_def report_during_def hooked_store_def with_payload_def)
  have "payload_of hooked_task = Some RawEmpty" by (simp add: payload_of_def hooked_task_def sample_exec_def)
  then show ?thesis using failed_cycle_restores_snapshot [OF d _ r tx, of idle_workflow] by simp
qed

end
