(* ===== verification/Go_Accept.thy ===== *)
theory Go_Accept
  imports Workflow_Base
begin

text \<open>
  Starting the prepared work of a card, \<open>acceptGo\<close> of \<open>workflow_card.go\<close>: the checks, the reservation of the
  work slot, the creation of the child task, and the transaction that moves the card to working.

  The steps are separate transactions. \<open>other\<close> is what other requests do to the tables between two of them, by the
  name of the step that follows. The reads before the reservation are taken from one state of the tables.
\<close>

section \<open>The checks\<close>

definition known_child_status :: "triage_child \<Rightarrow> bool" where
  "known_child_status c \<longleftrightarrow> ch_status c \<in> {ChildOpen, ChildSpecced, ChildDispatched, ChildClosed}"

text \<open>The last specced child of the list, by its index.\<close>

definition specced_index :: "triage_child list \<Rightarrow> nat option" where
  "specced_index cs =
     (case filter (\<lambda>i. ch_status (cs ! i) = ChildSpecced) [0..<length cs] of [] \<Rightarrow> None | is \<Rightarrow> Some (last is))"

definition json_occupants :: "triage_child list \<Rightarrow> string list" where
  "json_occupants cs = remdups (map ch_id (filter occupies_slot cs))"

definition unmatched_live :: "triage_child list \<Rightarrow> task list \<Rightarrow> task list" where
  "unmatched_live cs live =
     filter (\<lambda>lc. \<not> IsTerminalStatus (t_status lc) \<and> \<not> (t_ref lc \<noteq> [] \<and> t_ref lc \<in> set (json_occupants cs))) live"

definition unrecognized_text :: "triage_child \<Rightarrow> string" where
  "unrecognized_text c =
     ''accept(go): child '' @ quoted (ch_id c) @ '' has unrecognized status '' @ quoted (ch_status c)"

text \<open>The task, its children and the child to start; else the error and the tables after it.\<close>

definition go_checks ::
  "request_ctx \<Rightarrow> string \<Rightarrow> orch_store \<Rightarrow> (http_error \<times> orch_store) + (task \<times> triage_child list \<times> nat)" where
  "go_checks cx taskID st =
     (let fail = (\<lambda>e. Inl (e, st)) in
      case read_task taskID st of
        None \<Rightarrow> fail NotFound
      | Some t \<Rightarrow>
          if t_status t \<noteq> Parked \<and> t_status t \<noteq> Working then fail Conflict
          else case (case GetTaskTriage taskID st of None \<Rightarrow> Inr [] | Some tt \<Rightarrow> DetailChildren (ca_detail tt)) of
            Inl _ \<Rightarrow> fail ServerError
          | Inr children \<Rightarrow>
              (case find (\<lambda>c. \<not> known_child_status c) children of
                 Some c \<Rightarrow> Inl (Conflict, recordDispatchError cx taskID (t_status t) (unrecognized_text c) [] st)
               | None \<Rightarrow>
                   (case specced_index children of
                      None \<Rightarrow> fail Conflict
                    | Some i \<Rightarrow>
                        if length (json_occupants children) + length (unmatched_live children (ListChildren taskID st)) > 1
                        then fail Conflict
                        else Inr (t, children, i))))"

section \<open>The reservation\<close>

definition go_request :: "request_ctx \<Rightarrow> string \<Rightarrow> card_request" where
  "go_request cx cardID =
     (event_request cardID CardRequestCommandKeyGo [])\<lparr>cr_status := RLaunching, cr_launcher_job_id := ''go:'' @ cx_gen cx ''go''\<rparr>"

definition reserveGoCardRequest ::
  "workflow \<Rightarrow> request_ctx \<Rightarrow> string \<Rightarrow> orch_store \<Rightarrow> cr_error + (card_request option \<times> orch_store)" where
  "reserveGoCardRequest s cx cardID st =
     (if \<not> wf_card_requests s then Inr (None, st)
      else and_then (CreateCardRequest (cx_gen cx ''reservation'') (cx_now cx) (Some RLaunching) (go_request cx cardID) st) (\<lambda>(row, st1).
           Inr (Some row, ClearCardForceReleaseBarrier cardID st1)))"

definition releaseReservation :: "request_ctx \<Rightarrow> card_request option \<Rightarrow> string \<Rightarrow> orch_store \<Rightarrow> orch_store" where
  "releaseReservation cx cardReq reason st =
     (case cardReq of
        None \<Rightarrow> st
      | Some r \<Rightarrow>
          (case FailCardRequest (cx_gen cx ''release'') (cx_now cx) (cr_id r) reason st of Inl _ \<Rightarrow> st | Inr st' \<Rightarrow> st'))"

section \<open>The child task\<close>

definition go_instructions :: "child_spec \<Rightarrow> raw_message" where
  "go_instructions spec =
     (if cs_instruction spec = [] then RawEmpty
      else Raw (JArr [JObj [(''agent'', JStr []), (''message'', JStr (cs_instruction spec))]]))"

definition child_request :: "string \<Rightarrow> triage_child \<Rightarrow> child_spec \<Rightarrow> card_request option \<Rightarrow> create_task_request" where
  "child_request taskID c spec cardReq =
     \<lparr>ct_project_id = cs_project spec, ct_title = ch_title c, ct_description = cs_description spec,
      ct_behavior = cs_behavior spec, ct_instructions = go_instructions spec, ct_parent_id = taskID, ct_ref = ch_id c,
      ct_auto_start = True,
      ct_card_request_id = (case cardReq of None \<Rightarrow> [] | Some r \<Rightarrow> cr_id r),
      ct_card_request_owner_job_id = (case cardReq of None \<Rightarrow> [] | Some r \<Rightarrow> cr_launcher_job_id r)\<rparr>"

text \<open>The created task; else the code, the text and the tables.\<close>

definition go_create ::
  "workflow \<Rightarrow> string \<Rightarrow> triage_child \<Rightarrow> card_request option \<Rightarrow> orch_store \<Rightarrow> ((http_error \<times> string) + task) \<times> orch_store" where
  "go_create s taskID c cardReq st =
     (case ch_spec c of
        None \<Rightarrow> (Inl (Conflict, ''accept(go): child '' @ quoted (ch_id c) @ '' is specced but has no spec''), st)
      | Some spec \<Rightarrow>
          (case wf_create_task s of
             None \<Rightarrow> (Inl (ServerError, ''accept(go): TaskCreator not configured''), st)
           | Some create \<Rightarrow>
               (case create (child_request taskID c spec cardReq) st of
                  (Inl (code, text), st') \<Rightarrow>
                    (Inl (code, ''accept(go): create child task '' @ quoted (ch_id c) @ '': '' @ text), st')
                | (Inr childTask, st') \<Rightarrow>
                    if t_status childTask = Pending
                    then (Inl (ServerError, ''accept(go): child task '' @ quoted (ch_id c) @ '' ('' @ t_id childTask
                                 @ '') was created but failed to auto-start (still pending)''), st')
                    else (Inr childTask, st'))))"

section \<open>The transition\<close>

text \<open>\<open>freshByID\<close>: of two children with one id the later one counts.\<close>

definition fresh_child :: "string \<Rightarrow> triage_child list \<Rightarrow> triage_child option" where
  "fresh_child cid cs = map_of (rev (map (\<lambda>c. (ch_id c, c)) cs)) cid"

definition go_action :: "request_ctx \<Rightarrow> string \<Rightarrow> action" where
  "go_action cx taskID = new_action taskID ''go'' None None RawEmpty (cx_actor cx)"

definition child_dispatched_action :: "request_ctx \<Rightarrow> string \<Rightarrow> task_status \<Rightarrow> triage_child \<Rightarrow> action" where
  "child_dispatched_action cx taskID status c =
     new_action taskID ''child_dispatched'' (Some status) (Some status)
       (Raw (JObj [(''child_id'', JStr (ch_id c)), (''task_ref'', JStr (ch_task_ref c))])) (cx_actor cx)"

definition no_race :: "http_error + 'a \<Rightarrow> (http_error \<times> bool) + 'a" where
  "no_race r = map_err (\<lambda>e. (e, False)) r"

text \<open>
  The transaction. The flag of an error says that a concurrent request won the race. \<open>observed\<close> is the status that
  the checks saw, \<open>children\<close> the children they read with \<open>c\<close> marked as dispatched.
\<close>

definition go_tx ::
  "request_ctx \<Rightarrow> bool \<Rightarrow> string \<Rightarrow> task_status \<Rightarrow> triage_child list \<Rightarrow> triage_child \<Rightarrow> orch_store
   \<Rightarrow> (http_error \<times> bool) + ((task \<times> action) \<times> orch_store)" where
  "go_tx cx viaAccept taskID observed children c st =
     and_then (of_option (NotFound, False) (read_task taskID st)) (\<lambda>fresh.
     and_then (guard (t_status fresh = observed) (Conflict, True)) (\<lambda>_.
     and_then (of_option (ServerError, False) (GetTaskTriage taskID st)) (\<lambda>freshTT.
     and_then (map_err (\<lambda>_. (ServerError, False)) (DetailChildren (ca_detail freshTT))) (\<lambda>freshChildren.
     and_then (guard (case fresh_child (ch_id c) freshChildren of None \<Rightarrow> False | Some fc \<Rightarrow> ch_status fc = ChildSpecced)
                (Conflict, True)) (\<lambda>_.
     and_then (map_err (\<lambda>_. (Conflict, False)) (Apply NewCardMachine fresh (go_action cx taskID))) (\<lambda>applied.
     let a = (go_action cx taskID)\<lparr>ac_from_status := Some (t_status fresh), ac_to_status := Some (t_status applied)\<rparr> in
     and_then (no_race (tx_UpdateTask cx applied st)) (\<lambda>st1.
     and_then (no_race (tx_CreateAction cx ''go'' a st1)) (\<lambda>(a', st2).
     and_then (no_race (tx_CreateAction cx ''child_dispatched'' (child_dispatched_action cx taskID (t_status applied) c) st2)) (\<lambda>(_, st3).
     and_then (map_err (\<lambda>_. (ServerError, False)) (SetDetailChildren (ca_detail freshTT) children)) (\<lambda>newDetail.
     and_then (no_race (tx_Upsert (freshTT\<lparr>ca_detail := newDetail\<rparr>) st3)) (\<lambda>st4.
     and_then (no_race (if viaAccept then applyAnsweredSideEffect taskID st4
                     else recordAndStripSuggestionIfPresent cx taskID a' st4)) (\<lambda>st5.
     Inr ((applied, a'), st5)))))))))))))"

text \<open>A child that ended before the transition committed is closed on the card now.\<close>

definition go_reconcile :: "workflow \<Rightarrow> request_ctx \<Rightarrow> string \<Rightarrow> orch_store \<Rightarrow> orch_store" where
  "go_reconcile s cx childTaskID st =
     (case read_task childTaskID st of
        None \<Rightarrow> st
      | Some childTask \<Rightarrow>
          if t_status childTask = Done \<or> t_status childTask = Aborted then recordChildClosedOnParent s cx childTask st else st)"

section \<open>The handler\<close>

record action_application =
  aa_task :: task
  aa_action :: action
  aa_matched_hooks :: "string list"
  aa_target_task_id :: string
  aa_decision_accepted :: bool

definition acceptGo ::
  "workflow \<Rightarrow> request_ctx \<Rightarrow> (string \<Rightarrow> orch_store \<Rightarrow> orch_store) \<Rightarrow> string \<Rightarrow> bool \<Rightarrow> orch_store
   \<Rightarrow> (http_error + action_application) \<times> orch_store" where
  "acceptGo s cx other taskID viaAccept st0 =
     (case go_checks cx taskID st0 of
        Inl (e, st) \<Rightarrow> (Inl e, st)
      | Inr (t, children, i) \<Rightarrow>
          let st1 = other ''reserve'' st0;
              failed = (\<lambda>text orphans st. recordDispatchError cx taskID (t_status t) text orphans st)
          in case reserveGoCardRequest s cx taskID st1 of
            Inl e \<Rightarrow>
              if e = ErrCardRequestSlotOccupied then (Inl Conflict, st1)
              else (Inl ServerError, failed (''accept(go): reserve execution slot: '' @ cx_text cx ''reserve'') [] st1)
          | Inr (cardReq, st2) \<Rightarrow>
              (case go_create s taskID (children ! i) cardReq (other ''create'' st2) of
                 (Inl (code, text), st3) \<Rightarrow> (Inl code, failed text [] (releaseReservation cx cardReq text st3))
               | (Inr childTask, st3) \<Rightarrow>
                   let c = (children ! i)\<lparr>ch_status := ChildDispatched, ch_task_ref := t_id childTask\<rparr>;
                       st4 = other ''transition'' st3
                   in case go_tx cx viaAccept taskID (t_status t) (children[i := c]) c st4 of
                     Inl (e, won) \<Rightarrow>
                       (Inl e, failed (cx_text cx ''transition'') (if won \<or> t_id childTask = [] then [] else [t_id childTask]) st4)
                   | Inr ((applied, a), st5) \<Rightarrow>
                       (Inr \<lparr>aa_task = applied, aa_action = a, aa_matched_hooks = [], aa_target_task_id = t_id childTask,
                             aa_decision_accepted = False\<rparr>,
                        go_reconcile s cx (t_id childTask) (other ''reconcile'' st5))))"

end
