(* ===== verification/Apply_Action.thy ===== *)
theory Apply_Action
  imports Go_Accept Dispatch_Loop
begin

text \<open>
  Applying an action to a task: \<open>applyAction\<close> of \<open>workflow_action.go\<close>, through which every manual action goes,
  and \<open>applyAnswered\<close> of \<open>suggestion_accept.go\<close>.

  The tables are those of the orchestrator and the identities of tasks. As in \<open>Go_Accept\<close>, \<open>other\<close> is what other
  requests do to the former between two transactions of the handler. Broadcasts, notifications and log lines are
  left out; the dispatch loop that the handler starts in the background is its result.
\<close>

type_synonym tables = "orch_store \<times> identity_row list"

definition unlink_all :: "string \<Rightarrow> tables \<Rightarrow> tables" where
  "unlink_all taskID db =
     (case db of (st, ids) \<Rightarrow> (st, is_rows (UnlinkAllForTask taskID \<lparr>is_rows = ids, is_tasks = st_tasks st\<rparr>)))"

section \<open>Answering a suggestion\<close>

definition verb_action :: "request_ctx \<Rightarrow> string \<Rightarrow> string \<Rightarrow> action" where
  "verb_action cx taskID verb = new_action taskID verb None None RawEmpty (cx_actor cx)"

text \<open>The verb of an accepted suggestion, applied to the task as read in the transaction.\<close>

definition accept_verb_tx ::
  "request_ctx \<Rightarrow> string \<Rightarrow> task \<Rightarrow> suggestion_attr \<Rightarrow> string \<Rightarrow> tables \<Rightarrow> http_error + (task \<times> tables)" where
  "accept_verb_tx cx taskID applied sugg verb db =
     (case db of (st, ids) \<Rightarrow>
        and_then (map_err (\<lambda>_. Conflict) (Apply NewCardMachine applied (verb_action cx taskID verb))) (\<lambda>verbApplied.
        let a = (verb_action cx taskID verb)\<lparr>ac_from_status := Some (t_status applied), ac_to_status := Some (t_status verbApplied)\<rparr> in
        and_then (tx_UpdateTask cx verbApplied st) (\<lambda>st1.
        and_then (tx_CreateAction cx ''verb'' a st1) (\<lambda>(_, st2).
        and_then (if verb = ''park'' then applyParkSideEffect taskID (sa_params sugg) st2 else Inr st2) (\<lambda>st3.
        let (st4, ids') = (if verb = ''drop'' then unlink_all taskID (st3, ids) else (st3, ids)) in
        and_then (applyAnsweredSideEffect taskID st4) (\<lambda>st5.
        Inr (verbApplied, st5, ids')))))))"

text \<open>The task, the recorded action and whether the work of the card is to be started next.\<close>

definition answered_tx ::
  "request_ctx \<Rightarrow> string \<Rightarrow> raw_message \<Rightarrow> answered_payload \<Rightarrow> tables \<Rightarrow> http_error + ((task \<times> action \<times> bool) \<times> tables)" where
  "answered_tx cx taskID payload parsed db =
     (case db of (st, ids) \<Rightarrow>
        let a = new_action taskID ''answered'' None None payload (cx_actor cx) in
        and_then (of_option NotFound (read_task taskID st)) (\<lambda>fresh.
        and_then (map_err (\<lambda>_. Conflict) (Apply NewCardMachine fresh a)) (\<lambda>applied.
        and_then (tx_CreateAction cx ''answered''
          (a\<lparr>ac_from_status := Some (t_status fresh), ac_to_status := Some (t_status applied)\<rparr>) st) (\<lambda>(a', st1).
        if an_answer parsed \<noteq> ''accept''
        then and_then (applyAnsweredSideEffect taskID st1) (\<lambda>st2. Inr ((applied, a', False), st2, ids))
        else and_then (of_option Conflict (GetTaskTriage taskID st1)) (\<lambda>tt.
             and_then (of_option Conflict (DetailSuggestionRaw (ca_detail tt))) (\<lambda>raw.
             and_then (of_option ServerError (decode_struct suggestion_attr_fields raw suggestion_attr_zero)) (\<lambda>sugg.
             let verb = NormalizeCardVerb (sa_verb sugg) in
             and_then (guard (IsCardTransitionAction verb) Conflict) (\<lambda>_.
             if verb = ''go'' then Inr ((applied, a', True), st1, ids)
             else and_then (accept_verb_tx cx taskID applied sugg verb (st1, ids)) (\<lambda>(verbApplied, db').
                  Inr ((verbApplied, a', False), db'))))))))))"

text \<open>
  When the start of the work fails the error is the result; the application that the code returns next to it is
  left out. The queued requests are dispatched last, on every way out after the transaction.
\<close>

definition applyAnswered ::
  "workflow \<Rightarrow> request_ctx \<Rightarrow> (string \<Rightarrow> orch_store \<Rightarrow> orch_store) \<Rightarrow> string \<Rightarrow> raw_message \<Rightarrow> tables
   \<Rightarrow> (http_error + action_application) \<times> tables" where
  "applyAnswered s cx other taskID payload db =
     (case parseAnsweredPayload payload of
        Inl e \<Rightarrow> (Inl e, db)
      | Inr parsed \<Rightarrow>
          if an_answer parsed = ''accept'' \<and> cx_actor cx \<noteq> ActorHuman then (Inl Forbidden, db)
          else case answered_tx cx taskID payload parsed db of
            Inl e \<Rightarrow> (Inl e, db)
          | Inr ((t, a, startWork), st1, ids) \<Rightarrow>
              let app = \<lparr>aa_task = t, aa_action = a, aa_matched_hooks = [], aa_target_task_id = [],
                         aa_decision_accepted = (an_answer parsed = ''accept'')\<rparr>;
                  queued = tryDispatchQueuedCardRequest s (labelled ''queued'' cx) taskID
              in if \<not> startWork then (Inr app, queued st1, ids)
                 else case acceptGo s (labelled ''go'' cx) other taskID True (other ''go'' st1) of
                   (Inl e, st2) \<Rightarrow> (Inl e, queued st2, ids)
                 | (Inr r, st2) \<Rightarrow>
                     (Inr (app\<lparr>aa_task := aa_task r, aa_target_task_id := aa_target_task_id r\<rparr>), queued st2, ids))"

section \<open>Payloads of actions\<close>

record action_request =
  ar_type :: string
  ar_payload :: raw_message
  ar_payload_bytes :: nat

definition SideEffectConsumesPayload :: "string list" where
  "SideEffectConsumesPayload = [''park'', ''attrs_set'', ''child_added'', ''child_specced'', ''child_dropped'', ''noted'']"

definition reopen_fields :: "(string \<times> instruction option field_dec) list" where
  "reopen_fields =
     [(''instruction'', \<lambda>v r. if v = JNull then Some None
        else map_option Some (decode_struct instruction_fields v (case r of None \<Rightarrow> instruction_zero | Some i \<Rightarrow> i)))]"

text \<open>The instruction that a reopen appends takes its agent and model from the active one.\<close>

definition inherit_instruction :: "instructions \<Rightarrow> instruction \<Rightarrow> instruction" where
  "inherit_instruction insts inst =
     (if insts = [] then inst
      else inst\<lparr>in_agent := (if in_agent inst = [] then in_agent (last insts) else in_agent inst),
                in_model := (if in_model inst = [] then in_model (last insts) else in_model inst)\<rparr>)"

definition reopen_exec :: "string \<Rightarrow> raw_message \<Rightarrow> exec_attrs \<Rightarrow> exec_attrs option" where
  "reopen_exec ty payload e =
     (if ty \<noteq> ''reopen'' \<or> payload = RawEmpty then None
      else case unmarshal_struct reopen_fields payload None of
        Some (Some inst) \<Rightarrow>
          Some (e\<lparr>ex_instructions := AppendInstruction (ex_instructions e) (inherit_instruction (ex_instructions e) inst)\<rparr>)
      | _ \<Rightarrow> None)"

text \<open>What an action does to the execution attributes before the transaction; a card has none.\<close>

definition prepare_exec :: "bool \<Rightarrow> string \<Rightarrow> raw_message \<Rightarrow> task \<Rightarrow> http_error + task" where
  "prepare_exec actionPayloadOnly ty payload t =
     (case t_exec t of
        None \<Rightarrow> Inr t
      | Some e \<Rightarrow>
          (case reopen_exec ty payload e of
             Some e' \<Rightarrow> Inr (t\<lparr>t_exec := Some e'\<rparr>)
           | None \<Rightarrow>
               if actionPayloadOnly \<or> ty \<in> set SideEffectConsumesPayload then Inr t
               else and_then (map_err (\<lambda>_. ServerError) (MergePayload (ex_payload e) payload)) (\<lambda>merged.
                    Inr (t\<lparr>t_exec := Some (e\<lparr>ex_payload := merged\<rparr>)\<rparr>))))"

datatype parsed_payload =
    PPark park_payload | PAttrsSet attrs_set_patch | PChildAdded triage_child | PChildSpecced child_specced_payload
  | PChildDropped string | POther

definition parse_payload :: "string \<Rightarrow> raw_message \<Rightarrow> http_error + parsed_payload" where
  "parse_payload ty payload =
     (if ty = ''park'' then and_then (parseParkPayload payload) (\<lambda>p. Inr (PPark p))
      else if ty = ''attrs_set'' then and_then (parseAttrsSetPayload payload) (\<lambda>p. Inr (PAttrsSet p))
      else if ty = ''child_added'' then and_then (parseChildAddedPayload payload) (\<lambda>p. Inr (PChildAdded p))
      else if ty = ''child_specced'' then and_then (parseChildSpeccedPayload payload) (\<lambda>p. Inr (PChildSpecced p))
      else if ty = ''child_dropped'' then and_then (parseChildDroppedPayload payload) (\<lambda>p. Inr (PChildDropped p))
      else if ty = ''noted'' then and_then (parseNotedPayload payload) (\<lambda>_. Inr POther)
      else Inr POther)"

section \<open>The transaction\<close>

definition skips_task_update :: "string \<Rightarrow> bool" where
  "skips_task_update ty \<longleftrightarrow> ty \<in> {''attrs_set'', ''child_added'', ''child_specced'', ''child_dropped'', ''noted''}"

text \<open>A reopened child must find the work slot of its parent card free.\<close>

definition reopen_guard :: "string \<Rightarrow> task \<Rightarrow> orch_store \<Rightarrow> http_error + unit" where
  "reopen_guard ty t st =
     (if ty = ''reopen'' \<and> t_parent_id t \<noteq> []
      then (case read_task (t_parent_id t) st of
              None \<Rightarrow> Inr ()
            | Some parent \<Rightarrow>
                if t_type parent = TaskTypeCard
                then and_then (cardSpecOrExecutionSlotOccupied (t_id parent) st) (\<lambda>occupied. guard (\<not> occupied) Conflict)
                else Inr ())
      else Inr ())"

text \<open>
  The task and the action to record: an action that leaves the row alone is checked again on the row as it is now,
  any other writes the row.
\<close>

definition settle_task ::
  "request_ctx \<Rightarrow> state_machine \<Rightarrow> string \<Rightarrow> task \<Rightarrow> action \<Rightarrow> orch_store \<Rightarrow> http_error + ((task \<times> action) \<times> orch_store)" where
  "settle_task cx sm taskID newTask a st =
     (if skips_task_update (ac_type a)
      then and_then (of_option NotFound (read_task taskID st)) (\<lambda>fresh.
           and_then (resolveAttrsSetDoneTransition sm fresh a (Some (\<lambda>i. GetTaskTriage i st))) (\<lambda>freshApplied.
           Inr ((freshApplied, a\<lparr>ac_from_status := Some (t_status fresh), ac_to_status := Some (t_status freshApplied)\<rparr>), st)))
      else and_then (tx_UpdateTask cx newTask st) (\<lambda>st'. Inr ((newTask, a), st')))"

definition attrs_set_effect :: "request_ctx \<Rightarrow> string \<Rightarrow> attrs_set_patch \<Rightarrow> orch_store \<Rightarrow> http_error + orch_store" where
  "attrs_set_effect cx taskID patch st =
     and_then (applyAttrsSetSideEffect taskID patch st) (\<lambda>(verbChanged, st').
     Inr (if verbChanged \<and> ap_verb patch \<noteq> None \<and> ap_verb patch \<noteq> Some [] then TouchTaskUpdatedAt (cx_now cx) taskID st' else st'))"

definition side_effect :: "request_ctx \<Rightarrow> string \<Rightarrow> string \<Rightarrow> parsed_payload \<Rightarrow> tables \<Rightarrow> http_error + tables" where
  "side_effect cx ty taskID parsed db =
     (case db of (st, ids) \<Rightarrow>
        if ty = ''drop'' then Inr (unlink_all taskID db)
        else and_then
          (case parsed of
             PPark p \<Rightarrow> applyParkSideEffect taskID p st
           | PAttrsSet p \<Rightarrow> attrs_set_effect cx taskID p st
           | PChildAdded p \<Rightarrow> applyChildAddedSideEffect taskID p st
           | PChildSpecced p \<Rightarrow> applyChildSpeccedSideEffect taskID p st
           | PChildDropped p \<Rightarrow> applyChildDroppedSideEffect taskID p st
           | POther \<Rightarrow> Inr st) (\<lambda>st'. Inr (st', ids)))"

definition is_card_transition :: "state_machine \<Rightarrow> string \<Rightarrow> bool" where
  "is_card_transition sm ty \<longleftrightarrow> sm_name sm = sm_name NewCardMachine \<and> IsCardTransitionAction ty"

definition action_tx ::
  "request_ctx \<Rightarrow> state_machine \<Rightarrow> string \<Rightarrow> task \<Rightarrow> action \<Rightarrow> parsed_payload \<Rightarrow> tables
   \<Rightarrow> http_error + ((task \<times> action) \<times> tables)" where
  "action_tx cx sm taskID newTask a parsed db =
     (case db of (st, ids) \<Rightarrow>
        and_then (reopen_guard (ac_type a) newTask st) (\<lambda>_.
        and_then (settle_task cx sm taskID newTask a st) (\<lambda>((t, a1), st1).
        and_then (tx_CreateAction cx ''action'' a1 st1) (\<lambda>(a2, st2).
        and_then (if is_card_transition sm (ac_type a) then recordAndStripSuggestionIfPresent cx (t_id t) a2 st2 else Inr st2) (\<lambda>st3.
        and_then (side_effect cx (ac_type a) (t_id t) parsed (st3, ids)) (\<lambda>db'.
        Inr ((t, a2), db')))))))"

section \<open>The handler\<close>

text \<open>
  What the handler needs before it opens the transaction: the task as the action leaves it, the action, the parsed
  payload and the behaviors.
\<close>

definition prepare_action ::
  "workflow \<Rightarrow> request_ctx \<Rightarrow> bool \<Rightarrow> string \<Rightarrow> action_request \<Rightarrow> task \<Rightarrow> orch_store
   \<Rightarrow> http_error + (task \<times> action \<times> parsed_payload \<times> behaviors)" where
  "prepare_action s cx actionPayloadOnly ty req t st =
     and_then (of_option ServerError (wf_meta s t)) (\<lambda>meta.
     and_then (guard (\<not> (t_type t = TaskTypeExecution \<and> ty \<in> {''start'', ''reopen''} \<and> meta = [])) ServerError) (\<lambda>_.
     let a = new_action (t_id t) ty None None (ar_payload req) (cx_actor cx) in
     and_then (resolveAttrsSetDoneTransition (machineFor t) t a (Some (\<lambda>i. GetTaskTriage i st))) (\<lambda>applied.
     and_then (prepare_exec actionPayloadOnly ty (ar_payload req) applied) (\<lambda>newTask.
     and_then (parse_payload ty (ar_payload req)) (\<lambda>parsed.
     Inr (newTask, a\<lparr>ac_from_status := Some (t_status t), ac_to_status := Some (t_status newTask)\<rparr>, parsed, meta))))))"

definition matched_hooks :: "behaviors \<Rightarrow> task \<Rightarrow> string list" where
  "matched_hooks meta t =
     (case lookupBehavior (Some meta) t of None \<Rightarrow> [] | Some b \<Rightarrow> map hk_id (Evaluate t (bh_hooks b)))"

text \<open>The checks on the type of an action, which is normalized for a card.\<close>

definition action_type :: "request_ctx \<Rightarrow> task \<Rightarrow> string \<Rightarrow> http_error + string" where
  "action_type cx t reqType =
     (let sm = machineFor t;
          ty = (if sm_name sm = sm_name NewCardMachine then NormalizeCardVerb reqType else reqType)
      in and_then (guard (IsManualAction sm ty) BadRequest) (\<lambda>_.
         and_then (guard (\<not> (is_card_transition sm ty \<and> cx_actor cx \<noteq> ActorHuman)) Forbidden) (\<lambda>_.
         Inr ty)))"

text \<open>The second component of a result is the task whose dispatch loop is started, with its behaviors.\<close>

definition apply_plain ::
  "workflow \<Rightarrow> request_ctx \<Rightarrow> (string \<Rightarrow> orch_store \<Rightarrow> orch_store) \<Rightarrow> bool \<Rightarrow> string \<Rightarrow> string \<Rightarrow> action_request \<Rightarrow> task \<Rightarrow> tables
   \<Rightarrow> (http_error + (action_application \<times> (task \<times> behaviors) option)) \<times> tables" where
  "apply_plain s cx other actionPayloadOnly taskID ty req t db =
     (case prepare_action s cx actionPayloadOnly ty req t (fst db) of
        Inl e \<Rightarrow> (Inl e, db)
      | Inr (newTask, a, parsed, meta) \<Rightarrow>
          let db1 = (other ''action'' (fst db), snd db) in
          (case action_tx cx (machineFor t) taskID newTask a parsed db1 of
             Inl e \<Rightarrow> (Inl e, db1)
           | Inr ((t', a'), st2, ids) \<Rightarrow>
               (Inr (\<lparr>aa_task = t', aa_action = a', aa_matched_hooks = matched_hooks meta t', aa_target_task_id = [],
                      aa_decision_accepted = False\<rparr>,
                     if t_exec t' = None then None else Some (t', meta)),
                tryDispatchQueuedCardRequest s (labelled ''queued'' cx) taskID st2, ids)))"

definition applyAction ::
  "workflow \<Rightarrow> request_ctx \<Rightarrow> (string \<Rightarrow> orch_store \<Rightarrow> orch_store) \<Rightarrow> bool \<Rightarrow> string \<Rightarrow> action_request \<Rightarrow> tables
   \<Rightarrow> (http_error + (action_application \<times> (task \<times> behaviors) option)) \<times> tables" where
  "applyAction s cx other actionPayloadOnly taskID req db =
     (if \<not> ValidateContentSize (ar_payload_bytes req) then (Inl BadRequest, db)
      else case read_task taskID (fst db) of
        None \<Rightarrow> (Inl NotFound, db)
      | Some t \<Rightarrow>
          (case action_type cx t (ar_type req) of
             Inl e \<Rightarrow> (Inl e, db)
           | Inr ty \<Rightarrow>
               if ty = ''go''
               then (case acceptGo s cx other taskID False (other ''go'' (fst db)) of
                       (r, st) \<Rightarrow> (and_then r (\<lambda>app. Inr (app, None)), st, snd db))
               else if ty = ''answered''
               then (case applyAnswered s cx other taskID (ar_payload req) (other ''answered'' (fst db), snd db) of
                       (r, db') \<Rightarrow> (and_then r (\<lambda>app. Inr (app, None)), db'))
               else apply_plain s cx other actionPayloadOnly taskID ty req t db))"

definition ApplyAction ::
  "workflow \<Rightarrow> request_ctx \<Rightarrow> (string \<Rightarrow> orch_store \<Rightarrow> orch_store) \<Rightarrow> string \<Rightarrow> action_request \<Rightarrow> tables
   \<Rightarrow> (http_error + (action_application \<times> (task \<times> behaviors) option)) \<times> tables" where
  "ApplyAction s cx other taskID req db = applyAction s cx other False taskID req db"

end
