(* ===== verification/Action_Properties.thy ===== *)
theory Action_Properties
  imports Workflow_Facts Apply_Action
begin

text \<open>
  Properties of the handlers of actions: only a human moves a card, the writes to a card's columns never undo a
  transition that commits meanwhile, and a start of work that fails leaves the card as it was.
\<close>

section \<open>Effects on the card columns keep the views of all rows\<close>

lemma park_views: "applyParkSideEffect tid p st = Inr st' \<Longrightarrow> same_views st st'"
  by (auto simp: applyParkSideEffect_def dest: Upsert_views)

lemma attrs_views: "applyAttrsSetSideEffect tid p st = Inr (b, st') \<Longrightarrow> same_views st st'"
  by (auto simp: applyAttrsSetSideEffect_def Let_def dest: Upsert_views)

lemma child_added_views: "applyChildAddedSideEffect tid p st = Inr st' \<Longrightarrow> same_views st st'"
  by (auto simp: applyChildAddedSideEffect_def Let_def dest: Upsert_views)

lemma child_specced_views: "applyChildSpeccedSideEffect tid p st = Inr st' \<Longrightarrow> same_views st st'"
  by (auto simp: applyChildSpeccedSideEffect_def Let_def dest: Upsert_views)

lemma child_dropped_views: "applyChildDroppedSideEffect tid p st = Inr st' \<Longrightarrow> same_views st st'"
  by (auto simp: applyChildDroppedSideEffect_def Let_def split: if_splits dest: Upsert_views)

lemma answered_views: "applyAnsweredSideEffect tid st = Inr st' \<Longrightarrow> same_views st st'"
  by (auto simp: applyAnsweredSideEffect_def split: option.splits dest: Upsert_views)

lemma create_views: "tx_CreateAction cx l a st = Inr (a', st') \<Longrightarrow> same_views st st'"
  by (rule same_views_tasks) (rule tx_CreateAction_tasks)

lemma strip_views: "recordAndStripSuggestionIfPresent cx tid a st = Inr st' \<Longrightarrow> same_views st st'"
  by (auto simp: recordAndStripSuggestionIfPresent_def split: option.splits if_splits
      dest!: create_views Upsert_views intro: same_views_trans)

lemma attrs_effect_views: "attrs_set_effect cx tid p st = Inr st' \<Longrightarrow> same_views st st'"
  by (auto simp: attrs_set_effect_def dest!: attrs_views intro: same_views_trans Touch_views split: if_splits)

lemma side_effect_views: "side_effect cx ty tid parsed (st, ids) = Inr (st', ids') \<Longrightarrow> same_views st st'"
  by (cases parsed)
    (auto simp: side_effect_def unlink_all_def split: if_splits
      dest: park_views attrs_effect_views child_added_views child_specced_views child_dropped_views)

lemma tryDispatch_views [simp]: "same_views st (tryDispatchQueuedCardRequest s cx cid st)"
  by (rule same_views_tasks) simp

text \<open>The rest of a transaction, after the row is settled.\<close>

lemma action_tx_views:
  assumes "action_tx cx sm tid t a parsed (st, ids) = Inr ((t', a'), st', ids')"
  obtains t1 a1 st1 where "settle_task cx sm tid t a st = Inr ((t1, a1), st1)" "same_views st1 st'" "t' = t1"
proof -
  obtain a1 st1 a2 st2 st3 where s: "settle_task cx sm tid t a st = Inr ((t', a1), st1)"
      and c: "tx_CreateAction cx ''action'' a1 st1 = Inr (a2, st2)"
      and r: "(if is_card_transition sm (ac_type a) then recordAndStripSuggestionIfPresent cx (t_id t') a2 st2 else Inr st2) = Inr st3"
      and e: "side_effect cx (ac_type a) (t_id t') parsed (st3, ids) = Inr (st', ids')"
    using assms by (auto simp: action_tx_def)
  have "same_views st2 st3" using r by (auto split: if_splits dest: strip_views)
  then have "same_views st1 st'"
    by (rule same_views_trans [OF create_views [OF c] same_views_trans [OF _ side_effect_views [OF e]]])
  with s show thesis by (rule that) simp
qed

section \<open>Writes to the columns of a card\<close>

lemma settle_skip: "skips_task_update (ac_type a) \<Longrightarrow> settle_task cx sm tid t a st = Inr (x, st') \<Longrightarrow> st' = st"
  by (auto simp: settle_task_def)

lemma prepare_action_type: "prepare_action s cx po ty req t st = Inr (t', a, parsed, meta) \<Longrightarrow> ac_type a = ty"
  by (auto simp: prepare_action_def new_action_def Let_def)

lemma apply_plain_skip:
  assumes "skips_task_update ty" "apply_plain s cx other po tid ty req t (st, ids) = (r, st', ids')"
  shows "same_views (other ''action'' st) st' \<or> (\<not> is_ok r \<and> st' = st)"
proof (cases "prepare_action s cx po ty req t st")
  case (Inr x)
  obtain t' a parsed meta where x: "x = (t', a, parsed, meta)" by (cases x)
  note ty = prepare_action_type [OF Inr [unfolded x]]
  show ?thesis
  proof (cases "action_tx cx (machineFor t) tid t' a parsed (other ''action'' st, ids)")
    case Inl: (Inl e)
    then show ?thesis using Inr x assms(2) by (auto simp: apply_plain_def)
  next
    case tx: (Inr y)
    obtain t2 a2 st2 ids2 where y: "y = ((t2, a2), st2, ids2)" by (metis surj_pair)
    have "same_views (other ''action'' st) st2"
      using action_tx_views [OF tx [unfolded y]] settle_skip [of a] assms(1) ty by metis
    then show ?thesis using Inr x tx y assms(2) by (auto simp: apply_plain_def same_views_def)
  qed
qed (use assms(2) in \<open>auto simp: apply_plain_def is_ok_def\<close>)

lemma action_type_skip: "skips_task_update ty \<Longrightarrow> action_type cx t ty = Inr ty' \<Longrightarrow> ty' = ty"
  by (auto simp: skips_task_update_def action_type_def NormalizeCardVerb_def legacyCardVerbAliases_def Let_def split: if_splits)

text \<open>
  C7. A write to the columns of a card never undoes a transition. Whatever other requests do between the read of
  the task and the transaction, after attributes, children or a note are written every row of the tasks table
  still has the status that those requests gave it, and all its other columns but the card's own and the time
  of the last change; a refused request may leave the tables as it found them.
\<close>

theorem card_write_keeps_transition:
  assumes "skips_task_update (ar_type req)" "ApplyAction s cx other tid req (st, ids) = (r, st', ids')"
  shows "same_views (other ''action'' st) st' \<or> (\<not> is_ok r \<and> st' = st)"
proof (cases "read_task tid st")
  case (Some t)
  have "ar_type req \<noteq> ''go''" "ar_type req \<noteq> ''answered''" using assms(1) by (auto simp: skips_task_update_def)
  then show ?thesis
    using assms Some action_type_skip [OF assms(1), of cx t] apply_plain_skip [of "ar_type req" s cx other False tid req t st ids r st' ids']
    by (cases "action_type cx t (ar_type req)") (auto simp: ApplyAction_def applyAction_def is_ok_def split: if_splits)
qed (use assms(2) in \<open>auto simp: ApplyAction_def applyAction_def is_ok_def split: if_splits\<close>)

section \<open>Only a human moves a card\<close>

definition card_states :: "orch_store \<Rightarrow> (string \<times> task_status) list" where
  "card_states st = map (\<lambda>r. (t_id r, t_status r)) (filter (\<lambda>r. t_type r = TaskTypeCard) (st_tasks st))"

definition task_keys :: "orch_store \<Rightarrow> (string \<times> task_type) list" where
  "task_keys st = map (\<lambda>r. (t_id r, t_type r)) (st_tasks st)"

lemma card_states_views:
  assumes "same_views st st'"
  shows "card_states st' = card_states st"
proof -
  have "card_states st = map (\<lambda>r. (t_id r, t_status r)) (filter (\<lambda>r. t_type r = TaskTypeCard) (map row_view (st_tasks st)))" for st
    by (simp add: card_states_def row_view_def filter_map comp_def)
  then show ?thesis using assms by (simp add: same_views_def)
qed

lemma card_verbs:
  assumes "IsManualAction NewCardMachine ty"
  shows "IsCardTransitionAction ty \<or> ty = ''answered'' \<or> skips_task_update ty"
proof -
  have "list_all (\<lambda>r. r_manual r \<longrightarrow> IsCardTransitionAction (r_action r) \<or> r_action r = ''answered'' \<or> skips_task_update (r_action r))
    (sm_rules NewCardMachine)" by code_simp
  then show ?thesis using assms by (auto simp: IsManualAction_def list_all_iff list_ex_iff)
qed

lemma no_execution_go: "\<not> IsManualAction NewExecutionMachine ''go''" "\<not> IsManualAction NewExecutionMachine ''answered''"
  by code_simp+

lemma card_machine_name [simp]: "sm_name NewCardMachine = ''card''" "sm_name NewExecutionMachine = ''execution''"
  by (simp_all add: NewCardMachine_def NewExecutionMachine_def)

lemma action_type_cases:
  assumes "action_type cx t ty = Inr ty'" "cx_actor cx \<noteq> ActorHuman"
  shows "ty' \<noteq> ''go''" "t_type t = TaskTypeCard \<Longrightarrow> ty' = ''answered'' \<or> skips_task_update ty'"
  using assms card_verbs [of ty'] no_execution_go
  by (auto simp: action_type_def machineFor_def is_card_transition_def skips_task_update_def Let_def split: if_splits)

text \<open>Writing the row of a task that is not a card.\<close>

lemma update_card_states:
  assumes "tx_UpdateTask cx t st = Inr st'" "\<And>r. r \<in> set (st_tasks st) \<Longrightarrow> t_id r = t_id t \<Longrightarrow> t_type r \<noteq> TaskTypeCard"
  shows "card_states st' = card_states st"
proof -
  obtain ws where st': "st' = st\<lparr>st_tasks := update_where (\<lambda>r. t_id r = t_id t) (write_row (cx_now cx) ws t) (st_tasks st)\<rparr>"
    using assms(1) by (auto simp: tx_UpdateTask_def UpdateTask_def split: if_splits option.splits)
  have "filter (\<lambda>r. t_type r = TaskTypeCard) (st_tasks st') = filter (\<lambda>r. t_type r = TaskTypeCard) (st_tasks st)"
    using assms(2) by (auto simp: st' update_where_def filter_map comp_def intro!: map_idI filter_cong)
  then show ?thesis by (simp add: card_states_def)
qed

text \<open>What other requests may do meanwhile: anything but creating and deleting tasks and moving cards.\<close>

definition keeps_cards :: "(string \<Rightarrow> orch_store \<Rightarrow> orch_store) \<Rightarrow> bool" where
  "keeps_cards other \<longleftrightarrow> (\<forall>l st. task_keys (other l st) = task_keys st \<and> card_states (other l st) = card_states st)"

lemma task_keys_type:
  assumes "distinct (map t_id (st_tasks st))" "task_keys st' = task_keys st" "r \<in> set (st_tasks st)" "r' \<in> set (st_tasks st')" "t_id r' = t_id r"
  shows "t_type r' = t_type r"
proof -
  have "map fst (task_keys st) = map t_id (st_tasks st)" by (simp add: task_keys_def comp_def)
  then have d: "distinct (map fst (task_keys st))" using assms(1) by simp
  have "(t_id r, t_type r) \<in> set (task_keys st)" using assms(3) by (auto simp: task_keys_def)
  moreover have "(t_id r, t_type r') \<in> set (task_keys st)" unfolding assms(2) [symmetric] using assms(4) assms(5) [symmetric] by (auto simp: task_keys_def)
  ultimately show ?thesis using d by (metis eq_key_imp_eq_value)
qed

lemma read_task_row:
  assumes "read_task tid st = Some t"
  obtains r where "r \<in> set (st_tasks st)" "t = with_counts st r"
  using assms by (auto simp: read_task_def GetTask_def split: sum.splits option.splits if_splits dest: find_SomeD)

lemma Apply_keys: "Apply sm t a = Inr t' \<Longrightarrow> t_id t' = t_id t \<and> t_type t' = t_type t"
  by (auto simp: Apply_def set_status_def split: option.splits)

lemma resolve_id: "resolveAttrsSetDoneTransition sm t a get = Inr t' \<Longrightarrow> t_id t' = t_id t"
  by (auto simp: resolveAttrsSetDoneTransition_def split: if_splits dest: Apply_keys)

lemma prepare_exec_id: "prepare_exec po ty p t = Inr t' \<Longrightarrow> t_id t' = t_id t"
  by (auto simp: prepare_exec_def split: option.splits if_splits)

lemma prepare_id:
  assumes "prepare_action s cx po ty req t st = Inr (t', a, parsed, meta)"
  shows "t_id t' = t_id t"
  using assms resolve_id prepare_exec_id by (fastforce simp: prepare_action_def Let_def)

lemma apply_plain_cards:
  assumes "read_task tid st = Some t" "distinct (map t_id (st_tasks st))" "keeps_cards other"
    and "skips_task_update ty \<or> t_type t \<noteq> TaskTypeCard"
    and "apply_plain s cx other po tid ty req t (st, ids) = (r, st', ids')"
  shows "card_states st' = card_states st"
proof (cases "skips_task_update ty")
  case True
  from apply_plain_skip [OF this assms(5)] show ?thesis
    using assms(3) card_states_views [of "other ''action'' st" st'] by (auto simp: keeps_cards_def)
next
  case False
  let ?st = "other ''action'' st"
  have keep: "task_keys ?st = task_keys st" "card_states ?st = card_states st" using assms(3) by (auto simp: keeps_cards_def)
  obtain row where row: "row \<in> set (st_tasks st)" "t = with_counts st row" using read_task_row [OF assms(1)] .
  show ?thesis
  proof (cases "prepare_action s cx po ty req t st")
    case (Inr x)
    obtain t' a parsed meta where x: "x = (t', a, parsed, meta)" by (cases x)
    have id: "t_id t' = t_id row" and ty: "ac_type a = ty" using prepare_id prepare_action_type Inr x row(2) by fastforce+
    show ?thesis
    proof (cases "action_tx cx (machineFor t) tid t' a parsed (?st, ids)")
      case tx: (Inr y)
      obtain t2 a2 st2 ids2 where y: "y = ((t2, a2), st2, ids2)" by (metis surj_pair)
      obtain t1 a1 st1 where s: "settle_task cx (machineFor t) tid t' a ?st = Inr ((t1, a1), st1)" "same_views st1 st2"
        using action_tx_views [OF tx [unfolded y]] by blast
      have "tx_UpdateTask cx t' ?st = Inr st1" using s(1) False ty by (auto simp: settle_task_def)
      moreover have "t_type r' \<noteq> TaskTypeCard" if "r' \<in> set (st_tasks ?st)" "t_id r' = t_id t'" for r'
        using task_keys_type [OF assms(2) keep(1) row(1) that(1)] that(2) id assms(4) False row(2) by simp
      ultimately have "card_states st1 = card_states ?st" by (rule update_card_states)
      then have "card_states st2 = card_states st" using card_states_views [OF s(2)] keep by simp
      moreover have "st_tasks st' = st_tasks st2" using Inr x tx y assms(5) by (auto simp: apply_plain_def)
      ultimately show ?thesis by (simp add: card_states_def)
    qed (use Inr x assms(5) keep in \<open>auto simp: apply_plain_def\<close>)
  qed (use assms(5) in \<open>auto simp: apply_plain_def\<close>)
qed

lemma tryDispatch_cards [simp]: "card_states (tryDispatchQueuedCardRequest s cx cid st) = card_states st"
  by (simp add: card_states_def)

lemma reject_cards:
  assumes "applyAnswered s cx other tid payload (st, ids) = (r, st', ids')" "cx_actor cx \<noteq> ActorHuman"
  shows "card_states st' = card_states st"
  using assms
  by (auto simp: applyAnswered_def answered_tx_def Let_def split: sum.splits if_splits
      dest!: create_views answered_views card_states_views)

text \<open>
  C2. Only a human moves a card. Whatever action another actor sends to whatever task, and whatever other
  requests do meanwhile short of moving cards or changing which tasks there are, every card keeps its status.
\<close>

theorem only_humans_move_cards:
  assumes "cx_actor cx \<noteq> ActorHuman" "keeps_cards other" "distinct (map t_id (st_tasks st))"
    and "applyAction s cx other po tid req (st, ids) = (r, st', ids')"
  shows "card_states st' = card_states st"
proof (cases "read_task tid st")
  case (Some t)
  show ?thesis
  proof (cases "action_type cx t (ar_type req)")
    case ty: (Inr ty)
    note c = action_type_cases [OF ty assms(1)]
    consider "\<not> ValidateContentSize (ar_payload_bytes req)"
      | "applyAnswered s cx other tid (ar_payload req) (other ''answered'' st, ids) = (fst (applyAnswered s cx other tid (ar_payload req) (other ''answered'' st, ids)), st', ids')"
      | "ty \<noteq> ''answered''" "apply_plain s cx other po tid ty req t (st, ids) = (r, st', ids')"
      using assms(4) Some ty c(1) by (auto simp: applyAction_def split: if_splits prod.splits)
    then show ?thesis
    proof cases
      case 2
      from reject_cards [OF this assms(1)] show ?thesis using assms(2) by (simp add: keeps_cards_def)
    next
      case 3
      with apply_plain_cards [OF Some assms(3,2) _ 3(2)] c(2) show ?thesis by blast
    qed (use assms(4) in \<open>simp add: applyAction_def\<close>)
  qed (use assms(4) Some in \<open>auto simp: applyAction_def split: if_splits\<close>)
qed (use assms(4) in \<open>auto simp: applyAction_def split: if_splits\<close>)

section \<open>Starting the work of a card\<close>

text \<open>The status and the card columns of a row.\<close>

definition card_row :: "string \<Rightarrow> orch_store \<Rightarrow> (task_status \<times> card_attrs option) option" where
  "card_row tid st = map_option (\<lambda>r. (t_status r, t_card r)) (row_of tid st)"

lemma card_row_tasks: "st_tasks st' = st_tasks st \<Longrightarrow> card_row tid st' = card_row tid st"
  by (simp add: card_row_def row_of_def)

lemma reserve_tasks: "reserveGoCardRequest s cx cid st = Inr (r, st') \<Longrightarrow> st_tasks st' = st_tasks st"
  by (auto simp: reserveGoCardRequest_def ClearCardForceReleaseBarrier_def split: if_splits dest!: CreateCardRequest_tasks)

lemma release_tasks: "st_tasks (releaseReservation cx r reason st) = st_tasks st"
  by (auto simp: releaseReservation_def split: option.splits sum.splits dest!: closing_tasks)

lemma go_checks_tasks: "go_checks cx tid st = Inl (e, st') \<Longrightarrow> st_tasks st' = st_tasks st"
  by (auto simp: go_checks_def Let_def split: option.splits sum.splits if_splits)

lemma go_create_row:
  assumes "go_create s tid c r st = (x, st')"
    and "\<And>create req y. wf_create_task s = Some create \<Longrightarrow> card_row tid (snd (create req y)) = card_row tid y"
  shows "card_row tid st' = card_row tid st"
proof -
  have "st' = st \<or> (\<exists>create req. wf_create_task s = Some create \<and> st' = snd (create req st))"
  proof (cases "ch_spec c")
    case (Some spec)
    show ?thesis
    proof (cases "wf_create_task s")
      case create: (Some create)
      obtain y z where z: "create (child_request tid c spec r) st = (y, z)" by fastforce
      then have "st' = z" using assms(1) Some create by (auto simp: go_create_def split: sum.splits if_splits)
      then have "st' = snd (create (child_request tid c spec r) st)" using z by simp
      then show ?thesis using create by blast
    qed (use assms(1) Some in \<open>simp add: go_create_def\<close>)
  qed (use assms(1) in \<open>simp add: go_create_def\<close>)
  then show ?thesis using assms(2) by auto
qed

lemma go_working:
  assumes "Apply NewCardMachine t (go_action cx tid) = Inr t'"
  shows "t_status t' = Working"
proof -
  have "list_all (\<lambda>r. r_action r = ''go'' \<longrightarrow> r_to r = Some Working) (sm_rules NewCardMachine)" by code_simp
  then show ?thesis
    using assms by (auto simp: Apply_def go_action_def new_action_def list_all_iff set_status_def split: option.splits dest!: find_SomeD)
qed

lemma reconcile_views: "same_views st (go_reconcile s cx tid st)"
  using recordChildClosed_views by (auto simp: go_reconcile_def split: option.splits)

lemma go_tx_working:
  assumes "go_tx cx via tid observed cs c st = Inr ((applied, a), st')"
  obtains r where "row_of tid st' = Some r" "t_status r = Working"
proof -
  obtain fresh tt st1 a2 st2 a3 st3 st4 d x where
    s: "read_task tid st = Some fresh" "GetTaskTriage tid st = Some tt" "Apply NewCardMachine fresh (go_action cx tid) = Inr applied"
    and u: "tx_UpdateTask cx applied st = Inr st1"
    and v: "tx_CreateAction cx ''go'' a2 st1 = Inr (a, st2)" "tx_CreateAction cx ''child_dispatched'' a3 st2 = Inr (d, st3)"
    and w: "tx_Upsert x st3 = Inr st4"
      "(if via then applyAnsweredSideEffect tid st4 else recordAndStripSuggestionIfPresent cx tid a st4) = Inr st'"
    using assms by (auto simp: go_tx_def no_race_def Let_def)
  obtain r0 where r0: "row_of tid st = Some r0" "fresh = with_counts st r0"
    using s(1,2) read_row [of tid st]
    by (cases "row_of tid st") (auto simp: GetTaskTriage_def is_card_row_def row_of_def find_None_iff dest!: find_SomeD split: option.splits)
  have id: "t_id applied = tid"
    using Apply_keys [OF s(3)] r0 by (auto simp: row_of_def dest: find_SomeD)
  obtain ws where row: "row_of tid st1 = Some (write_row (cx_now cx) ws applied r0)" using update_row [OF u] r0(1) id by auto
  have "same_views st4 st'" using w(2) by (auto split: if_splits dest: answered_views strip_views)
  then have "same_views st1 st'"
    by (rule same_views_trans [OF create_views [OF v(1)] same_views_trans [OF create_views [OF v(2)] same_views_trans [OF Upsert_views [OF w(1)]]]])
  from row_of_same_views [OF this row] obtain r where "row_of tid st' = Some r" "row_view r = row_view (write_row (cx_now cx) ws applied r0)" .
  moreover then have "t_status r = t_status applied" by (simp add: view_status [of r])
  ultimately show thesis using that go_working [OF s(3)] by simp
qed

lemma go_tx_reconciled:
  assumes "go_tx cx via tid observed cs c st = Inr ((applied, a), st')" "\<And>l x. card_row tid (other l x) = card_row tid x"
  shows "map_option fst (card_row tid (go_reconcile s cx' child (other l st'))) = Some Working"
proof -
  have "map_option fst (card_row tid (other l st')) = Some Working"
    using go_tx_working [OF assms(1)] assms(2) [of l st'] by (auto simp: card_row_def)
  then obtain q where q: "row_of tid (other l st') = Some q" "t_status q = Working" by (auto simp: card_row_def)
  obtain q' where "row_of tid (go_reconcile s cx' child (other l st')) = Some q'" "row_view q' = row_view q"
    using row_of_same_views [OF reconcile_views q(1)] .
  then show ?thesis using q(2) by (simp add: card_row_def view_status [of q'])
qed

text \<open>
  C8. The start of a card's work is all or nothing for the card. As long as other requests and the creation of the
  child leave the card's row alone, a start that fails, at whatever step, leaves the status, the children and the
  suggestion of the card as they were, and one that succeeds leaves the card working.
\<close>

theorem go_all_or_nothing:
  assumes "acceptGo s cx other tid via st = (r, st')"
    and "\<And>l x. card_row tid (other l x) = card_row tid x"
    and "\<And>create req x. wf_create_task s = Some create \<Longrightarrow> card_row tid (snd (create req x)) = card_row tid x"
  shows "if is_ok r then map_option fst (card_row tid st') = Some Working else card_row tid st' = card_row tid st"
proof (cases "go_checks cx tid st")
  case (Inl x)
  then show ?thesis using assms(1) card_row_tasks [OF go_checks_tasks, of cx tid st]
    by (cases x) (auto simp: acceptGo_def is_ok_def)
next
  case checks: (Inr x)
  obtain t cs i where x: "x = (t, cs, i)" by (cases x)
  show ?thesis
  proof (cases "reserveGoCardRequest s cx tid (other ''reserve'' st)")
    case (Inl e)
    then show ?thesis using assms(1,2) checks x
      by (auto simp: acceptGo_def is_ok_def Let_def card_row_def row_of_def split: if_splits)
  next
    case reserve: (Inr y)
    obtain req st2 where y: "y = (req, st2)" by (cases y)
    obtain z st3 where z: "go_create s tid (cs ! i) req (other ''create'' st2) = (z, st3)" by fastforce
    have "card_row tid st3 = card_row tid (other ''create'' st2)" by (rule go_create_row [OF z]) (rule assms(3))
    then have st3: "card_row tid st3 = card_row tid st"
      using card_row_tasks [OF reserve_tasks [OF reserve [unfolded y]]] assms(2) by simp
    show ?thesis
    proof (cases z)
      case (Inl e)
      then show ?thesis using assms(1) checks x reserve y z st3
        by (cases e) (auto simp: acceptGo_def is_ok_def Let_def card_row_def row_of_def release_tasks)
    next
      case (Inr child)
      let ?c = "(cs ! i)\<lparr>ch_status := ChildDispatched, ch_task_ref := t_id child\<rparr>"
      show ?thesis
      proof (cases "go_tx cx via tid (t_status t) (cs[i := ?c]) ?c (other ''transition'' st3)")
        case tx: (Inl e)
        then show ?thesis using assms(1,2) checks x reserve y z Inr st3
          by (cases e) (auto simp: acceptGo_def is_ok_def Let_def card_row_def row_of_def)
      next
        case tx: (Inr w)
        obtain applied a st5 where w: "w = ((applied, a), st5)" by (metis surj_pair)
        have "map_option fst (card_row tid (go_reconcile s cx (t_id child) (other ''reconcile'' st5))) = Some Working"
          by (rule go_tx_reconciled [OF tx [unfolded w]]) (rule assms(2))
        then show ?thesis using assms(1) checks x reserve y z Inr tx w by (auto simp: acceptGo_def is_ok_def Let_def)
      qed
    qed
  qed
qed

section \<open>Sample requests\<close>

definition specced_detail :: raw_message where
  "specced_detail =
     Raw (JObj [(''children'', JArr [JObj [(''id'', JStr ''a''), (''status'', JStr ChildSpecced), (''spec'', JObj [(''project'', JStr ''p'')])]])])"

definition specced_store :: orch_store where
  "specced_store =
     \<lparr>st_tasks = [(sample_card Parked)\<lparr>t_card := Some ((card_zero ''c1'')\<lparr>ca_detail := specced_detail\<rparr>)\<rparr>],
      st_jobs = [], st_requests = [], st_barriers = [], st_actions = [], st_op_results = []\<rparr>"

definition sample_create :: "create_task_request \<Rightarrow> orch_store \<Rightarrow> ((http_error \<times> string) + task) \<times> orch_store" where
  "sample_create req st =
     (let t = (sample_exec Executing RawEmpty)\<lparr>t_parent_id := ct_parent_id req, t_ref := ct_ref req\<rparr>
      in (Inr t, st\<lparr>st_tasks := st_tasks st @ [t]\<rparr>))"

definition go_workflow :: workflow where
  "go_workflow = idle_workflow\<lparr>wf_meta := (\<lambda>_. Some []), wf_create_task := Some sample_create\<rparr>"

lemma find_snoc: "\<not> P y \<Longrightarrow> find P (xs @ [y]) = find P xs"
  by (induction xs) simp_all

lemma sample_create_row: "card_row ''c1'' (snd (sample_create req x)) = card_row ''c1'' x"
  by (simp add: sample_create_def card_row_def row_of_def Let_def sample_exec_def find_snoc)

theorem go_all_or_nothing_witness:
  "map_option fst (card_row ''c1'' (snd (acceptGo go_workflow sample_ctx (\<lambda>_ x. x) ''c1'' False specced_store))) = Some Working"
proof -
  let ?r = "acceptGo go_workflow sample_ctx (\<lambda>_ x. x) ''c1'' False specced_store"
  have "is_ok (fst ?r)" by code_simp
  moreover have "card_row ''c1'' (snd (create req x)) = card_row ''c1'' x" if "wf_create_task go_workflow = Some create" for create req x
    using that sample_create_row by (simp add: go_workflow_def)
  ultimately show ?thesis
    using go_all_or_nothing [of go_workflow sample_ctx "\<lambda>_ x. x" "''c1''" False specced_store "fst ?r" "snd ?r"] by simp
qed

definition note_request :: "string \<Rightarrow> action_request" where
  "note_request ty = \<lparr>ar_type = ty, ar_payload = Raw (JObj [(''note'', JStr ''x'')]), ar_payload_bytes = 12\<rparr>"

theorem only_humans_move_cards_witness:
  "is_ok (fst (applyAction go_workflow (sample_ctx\<lparr>cx_actor := ActorDaemon\<rparr>) (\<lambda>_ x. x) False ''c1'' (note_request ''noted'') (specced_store, [])))
   \<and> card_states (fst (snd (applyAction go_workflow (sample_ctx\<lparr>cx_actor := ActorDaemon\<rparr>) (\<lambda>_ x. x) False ''c1'' (note_request ''noted'')
       (specced_store, [])))) = [(''c1'', Parked)]"
proof
  let ?cx = "sample_ctx\<lparr>cx_actor := ActorDaemon\<rparr>"
  let ?r = "applyAction go_workflow ?cx (\<lambda>_ x. x) False ''c1'' (note_request ''noted'') (specced_store, [])"
  show "is_ok (fst ?r)" by code_simp
  have "cx_actor ?cx \<noteq> ActorHuman" by (simp add: ActorDaemon_def ActorHuman_def)
  moreover have "keeps_cards (\<lambda>_ x. x)" by (simp add: keeps_cards_def)
  moreover have "distinct (map t_id (st_tasks specced_store))" by (simp add: specced_store_def)
  moreover have "?r = (fst ?r, fst (snd ?r), snd (snd ?r))" by simp
  ultimately have "card_states (fst (snd ?r)) = card_states specced_store" by (rule only_humans_move_cards)
  then show "card_states (fst (snd ?r)) = [(''c1'', Parked)]" by (simp add: card_states_def specced_store_def sample_card_def)
qed

text \<open>The card is dropped while attributes are on their way.\<close>

definition drop_meanwhile :: "string \<Rightarrow> orch_store \<Rightarrow> orch_store" where
  "drop_meanwhile l st = st\<lparr>st_tasks := map (\<lambda>t. t\<lparr>t_status := Dropped\<rparr>) (st_tasks st)\<rparr>"

theorem card_write_keeps_transition_witness:
  "is_ok (fst (ApplyAction go_workflow sample_ctx drop_meanwhile ''c1'' (note_request ''attrs_set'') (specced_store, [])))
   \<and> card_states (fst (snd (ApplyAction go_workflow sample_ctx drop_meanwhile ''c1'' (note_request ''attrs_set'') (specced_store, [])))) = [(''c1'', Dropped)]"
proof
  let ?r = "ApplyAction go_workflow sample_ctx drop_meanwhile ''c1'' (note_request ''attrs_set'') (specced_store, [])"
  show ok: "is_ok (fst ?r)" by code_simp
  have "skips_task_update (ar_type (note_request ''attrs_set''))" by (simp add: note_request_def skips_task_update_def)
  moreover have "?r = (fst ?r, fst (snd ?r), snd (snd ?r))" by simp
  ultimately have "same_views (drop_meanwhile ''action'' specced_store) (fst (snd ?r)) \<or> (\<not> is_ok (fst ?r) \<and> fst (snd ?r) = specced_store)"
    by (rule card_write_keeps_transition)
  then have "card_states (fst (snd ?r)) = card_states (drop_meanwhile ''action'' specced_store)" using ok card_states_views by blast
  then show "card_states (fst (snd ?r)) = [(''c1'', Dropped)]"
    by (simp add: card_states_def drop_meanwhile_def specced_store_def sample_card_def)
qed

end
