(* ===== verification/Spec2Isabelle.thy ===== *)
theory Spec2Isabelle
  imports Card_Contracts Signal_Properties Trigger_Properties Identity_Properties Card_Slot_Properties Dispatch_Properties
    Action_Properties
begin

text \<open>
  A model of the core of \<open>boid\<close>, a daemon that runs coding work. An execution task runs the hooks of its behavior; a
  card is a piece of work that people triage, with at most one child in progress. Actions move both through a state
  machine and are logged. Events on cards queue requests for card commands, signals from outside are collected in an
  inbox, and triggers start rounds of work on a schedule. All state is in SQLite tables; a handler reads, decides and
  writes in one or more transactions. File names below are under \<open>src/internal/orchestrator\<close>, or under
  \<open>src/internal/api\<close> where they start with \<open>api/\<close>.

  How the code is represented.
  \<^item> A Go string is a list of characters, a time a number of nanoseconds, a JSON text its value. A struct is a record,
    an error a value of a sum type; messages are kept where the code stores them.
  \<^item> A table is a list of rows. A statement is a function on it that fails when a unique index would be violated, and a
    transaction is a function of the tables whose failure leaves them unchanged.
  \<^item> The clock, the generated ids and the interface fields of the services (executor, job store, metadata, creation of
    tasks) are arguments. In \<open>request_ctx\<close> ids are drawn by label, so that two steps of a request draw different ones.
  \<^item> What other requests do between two transactions of a handler is an argument too: \<open>other\<close>, named by the step that
    follows, and \<open>de_during\<close> and \<open>de_between\<close> of the dispatch loop.

  Which theory models what.
  \<^item> \<open>Boid_Prelude\<close>, \<open>Go_Json\<close>, \<open>Go_Time\<close>, \<open>Go_Duration\<close>, \<open>Sql_Table\<close>: the shared lemmas and what the sources use of
    \<open>encoding/json\<close>, \<open>time\<close> and SQLite.
  \<^item> \<open>Task_Model\<close>, \<open>Lifecycle_Traits\<close>, \<open>State_Machine\<close>: \<open>model.go\<close>, \<open>conditions.go\<close>, \<open>lifecycle.go\<close>,
    \<open>machine.go\<close>, \<open>machine_card.go\<close>, \<open>machine_execution.go\<close>. The locale \<open>rule_machine\<close> holds what both machines share.
  \<^item> \<open>Single_Flight\<close>: the contract of a ledger with one holder per key. The card requests (\<open>Card_System\<close>) and the
    trigger runs (\<open>Trigger_Slots\<close>) are its interpretations.
  \<^item> \<open>Card_Ledger\<close>, \<open>Card_Outcome\<close>, \<open>Card_Release\<close>, \<open>Card_System\<close>: \<open>card_request.go\<close>, \<open>card_request_dispatch.go\<close>,
    \<open>card_request_release.go\<close>, \<open>card_force_release_barrier.go\<close>, \<open>card_event_ingest.go\<close>. The locale \<open>row_pass\<close> is the
    shape of the three passes over the requests. \<open>Card_System\<close> is the step relation of the whole ledger.
  \<^item> \<open>Signal_Inbox\<close>: \<open>signal_store.go\<close>. \<open>Trigger_Runs\<close>, \<open>Trigger_Sweep\<close>: \<open>trigger_run.go\<close>,
    \<open>trigger_validate.go\<close>, \<open>api/trigger_loop.go\<close>, \<open>api/task_wait_registry.go\<close>. \<open>Task_Identity\<close>:
    \<open>task_identity.go\<close>.
  \<^item> \<open>Payload_Merge\<close>, \<open>Hook_Dispatch\<close>: \<open>spec_payload.go\<close>, \<open>awaiting_payload.go\<close>, \<open>payload_merge.go\<close>,
    \<open>evaluator.go\<close>, \<open>coordinator.go\<close>.
  \<^item> \<open>Card_Detail\<close>, \<open>Task_Rows\<close>, \<open>Card_Actions\<close>: \<open>card.go\<close>, the statements on tasks of \<open>store.go\<close>, and the card
    actions of \<open>api/workflow_card.go\<close> and \<open>api/suggestion_accept.go\<close>.
  \<^item> \<open>Workflow_Base\<close>, \<open>Dispatch_Loop\<close>, \<open>Go_Accept\<close>, \<open>Apply_Action\<close>: \<open>api/card_request_auto_dispatch.go\<close>, the
    dispatch loop and \<open>applyAction\<close> of \<open>api/workflow_action.go\<close>, \<open>acceptGo\<close> of \<open>api/workflow_card.go\<close> and
    \<open>applyAnswered\<close> of \<open>api/suggestion_accept.go\<close>. They compose the parts above.

  What the theorems show.
  \<^item> \<open>State_Machine\<close>, \<open>Lifecycle_Traits\<close>: a task keeps its type and a status of its type along every run; the lifecycle
    traits speak of the current cycle only.
  \<^item> \<open>Card_Properties\<close>, \<open>Card_Release_Facts\<close>, \<open>Card_Contracts\<close>: the ledger invariant over every run, one request per slot,
    claims, closings and ownership, what each pass does to each row, exactly-once ingest, and safe garbage collection.
  \<^item> \<open>Signal_Properties\<close>: no pending signal is lost, repeated ingests change nothing, claims take the oldest.
    \<open>Trigger_Properties\<close>: rounds of a trigger never overlap, the first outcome stands, the sweep fires what is due.
    \<open>Identity_Properties\<close>: a linked identity resolves to its task.
  \<^item> \<open>Payload_Properties\<close>, \<open>Hook_Properties\<close>: merges lose no session, a parked answer is read back, a failed hook never
    advances a task.
  \<^item> \<open>Dispatch_Properties\<close>: the loop ends by itself and keeps what others wrote, but a failed cycle writes its old snapshot.
    \<open>Action_Properties\<close>: only humans move cards, writes to card columns never undo a transition, a failed start leaves the
    card as it was. \<open>Card_Slot_Properties\<close>: one child in preparation, and children only move forward.

  Bounds. \<open>runDispatchLoop\<close> has the code's own limit of ten cycles as the argument of its recursion; that the first cycle
  ends the loop of an execution task is proved, so the limit never cuts a run short. Every other recursion is
  structural or has a termination proof; no definition takes fuel. The size limit of contents is the one of \<open>content_size.go\<close>.

  Not modelled.
  \<^item> Creating, deleting and listing tasks (\<open>api/task_create.go\<close>, \<open>behavior_resolve.go\<close>, parts of \<open>store.go\<close>): the creation
    of a child is an argument of \<open>acceptGo\<close>, and that it leaves the row of the card alone is a hypothesis.
  \<^item> Edits, reruns and notifications of tasks, the wake and reopen sweeps, and job completion.
  \<^item> Blocking questions (\<open>api/task_ask.go\<close>), whose outcome depends on the scheduling of channels.
  \<^item> The planning of a job from a hook, and projects and workspaces, which are YAML files; their results are arguments.
  \<^item> HTTP handlers, the web interface, the sandbox, the gateways, the command line and the wiring of the daemon: input and
    output, processes and networks.
  \<^item> Failures of the database other than violated constraints, broadcasts, log lines and services that are not wired (a
    missing transactor, task store or coordinator).
\<close>

end
